(* ===== verification/Prelude.thy ===== *)
theory Prelude
  imports Complex_Main "HOL-Library.Word" "HOL-Library.Multiset" "HOL-Library.Sublist"
    "HOL-Library.Char_ord" "HOL-Library.List_Lexorder"
begin

text \<open>
  Shared ground of the development: the machine types of the Go program, the UTF-8
  glyphs its messages use, the collections of facts the component theories extend,
  and the generic list and word lemmas they share.

  A Go \<open>string\<close> is a sequence of bytes and is modelled by \<^typ>\<open>string\<close>, one \<^typ>\<open>char\<close> per
  byte; a glyph outside ASCII is therefore a list of two or three characters.
  Go's \<open>int\<close> and \<open>int64\<close> are both 64 bits wide on the supported targets
  (amd64, arm64) and are modelled by \<^typ>\<open>64 word\<close>, read through \<^const>\<open>sint\<close>.
\<close>

type_synonym i64 = "64 word"
type_synonym i32 = "32 word"
type_synonym gostring = string

named_theorems f64_nonneg \<open>sign facts about float64 arithmetic\<close>
named_theorems rule_defs \<open>definitions of the rule evaluators\<close>
named_theorems finding_shape \<open>projections of the findings the rules build\<close>

subsection \<open>UTF-8 glyphs of the program's messages\<close>

definition utf_euro :: gostring where "utf_euro = [CHR 0xE2, CHR 0x82, CHR 0xAC]"
definition utf_times :: gostring where "utf_times = [CHR 0xC3, CHR 0x97]"
definition utf_divide :: gostring where "utf_divide = [CHR 0xC3, CHR 0xB7]"
definition utf_emdash :: gostring where "utf_emdash = [CHR 0xE2, CHR 0x80, CHR 0x94]"
definition utf_minus :: gostring where "utf_minus = [CHR 0xE2, CHR 0x88, CHR 0x92]"
definition utf_infinity :: gostring where "utf_infinity = [CHR 0xE2, CHR 0x88, CHR 0x9E]"
definition utf_rarrow :: gostring where "utf_rarrow = [CHR 0xE2, CHR 0x86, CHR 0x92]"
definition utf_ellipsis :: gostring where "utf_ellipsis = [CHR 0xE2, CHR 0x80, CHR 0xA6]"
definition newline :: gostring where "newline = [CHR 0x0A]"
definition dquote :: gostring where "dquote = [CHR 0x22]"

subsection \<open>Signed reading of 64-bit integers\<close>

declare of_int_sint [simp del]

lemma sint_range: "- (2 ^ 63) \<le> sint (w :: i64)" "sint (w :: i64) < 2 ^ 63"
  using sint_ge[of w] sint_lt[of w] by simp_all

lemma sint_eq_of_int:
  assumes "- (2 ^ 63) \<le> k" "k < 2 ^ 63"
  shows "sint (word_of_int k :: i64) = k"
  using assms by (simp add: sint_sbintrunc' signed_take_bit_int_eq_self)

lemma sint_add_in_range:
  assumes "- (2 ^ 63) \<le> sint a + sint b" "sint a + sint b < 2 ^ 63"
  shows "sint (a + b :: i64) = sint a + sint b"
  using assms by (simp add: sint_word_ariths signed_take_bit_int_eq_self)

lemma sint_sub_in_range:
  assumes "- (2 ^ 63) \<le> sint a - sint b" "sint a - sint b < 2 ^ 63"
  shows "sint (a - b :: i64) = sint a - sint b"
  using assms by (simp add: sint_word_ariths signed_take_bit_int_eq_self)

lemma sint_mult_in_range:
  assumes "- (2 ^ 63) \<le> sint a * sint b" "sint a * sint b < 2 ^ 63"
  shows "sint (a * b :: i64) = sint a * sint b"
  using assms by (simp add: sint_word_ariths signed_take_bit_int_eq_self)

lemma sint_2: "sint (2 :: i64) = 2"
  by simp

lemma sint_12: "sint (12 :: i64) = 12"
  by simp

lemma sless_sint: "a <s b \<longleftrightarrow> sint a < sint b" for a b :: i64
  by (rule word_sless_alt)

lemma sle_sint: "a \<le>s b \<longleftrightarrow> sint a \<le> sint b" for a b :: i64
  by (rule word_sle_eq)

lemmas signed_cmp = sless_sint sle_sint

text \<open>Go's integer division truncates towards zero (and wraps for the least integer by \<open>-1\<close>).\<close>

definition go_quot :: "i64 \<Rightarrow> i64 \<Rightarrow> i64" where
  "go_quot a b = word_of_int (sgn (sint a) * sgn (sint b) * (\<bar>sint a\<bar> div \<bar>sint b\<bar>))"

text \<open>The \<open>len\<close> of a slice.\<close>

definition len :: "'a list \<Rightarrow> i64" where
  "len xs = word_of_int (int (length xs))"

subsection \<open>Lists\<close>

lemma sum_list_div: "(\<Sum>x\<leftarrow>xs. f x / c) = (\<Sum>x\<leftarrow>xs. f x) / c" for c :: "'a :: field"
  by (induction xs) (simp_all add: add_divide_distrib)

lemma filter_all_eq: "(\<And>x. x \<in> set xs \<Longrightarrow> P x = Q x) \<Longrightarrow> filter P xs = filter Q xs"
  by (rule filter_cong) auto

lemma subseq_distinct: "subseq xs ys \<Longrightarrow> distinct ys \<Longrightarrow> distinct xs"
  by (induction rule: list_emb.induct) (auto dest: list_emb_set)

lemma subseq_concat_option:
  "subseq (map g (concat (map (\<lambda>x. case f x of None \<Rightarrow> [] | Some y \<Rightarrow> [y]) xs))) (map h xs)"
  if "\<And>x y. x \<in> set xs \<Longrightarrow> f x = Some y \<Longrightarrow> g y = h x"
  using that by (induction xs) (auto split: option.splits intro: list_emb.intros)

end
