(* ===== verification/Rounding.thy ===== *)
theory Rounding
  imports Prelude
begin

text \<open>
  Correct rounding of an exact rational to IEEE 754 binary64 precision: 53 significant
  bits, least exponent \<open>-1074\<close>, to nearest with ties to even (\<open>rne\<close>). The lemmas show
  that rounding is monotone, odd, the identity on the representable numbers and lands in
  them, and that its error is at most half a unit in the last place.
\<close>

subsection \<open>Powers of two and the binary exponent\<close>

definition pow2 :: "int \<Rightarrow> rat" where
  "pow2 e = (if 0 \<le> e then 2 ^ nat e else 1 / 2 ^ nat (- e))"

lemma pow2_powi: "pow2 e = 2 powi e"
  by (simp add: pow2_def power_int_def field_simps)

lemma pow2_pos [simp]: "0 < pow2 e"
  by (simp add: pow2_def)

lemma pow2_nonneg [simp]: "0 \<le> pow2 e"
  by (simp add: less_imp_le)

lemma pow2_nonzero [simp]: "pow2 e \<noteq> 0"
  using pow2_pos[of e] by linarith

lemma pow2_add: "pow2 (a + b) = pow2 a * pow2 b"
  by (simp add: pow2_powi power_int_add)

lemma pow2_diff: "pow2 (a - b) = pow2 a / pow2 b"
  by (simp add: pow2_powi power_int_diff)

lemma pow2_0 [simp]: "pow2 0 = 1"
  by (simp add: pow2_def)

lemma pow2_Suc: "pow2 (e + 1) = 2 * pow2 e"
  by (simp add: pow2_powi power_int_add)

lemma pow2_mono: "a \<le> b \<Longrightarrow> pow2 a \<le> pow2 b"
  by (simp add: pow2_powi power_int_increasing)

lemma pow2_less: "a < b \<Longrightarrow> pow2 a < pow2 b"
  by (simp add: pow2_powi power_int_strict_increasing)

lemma pow2_less_iff: "pow2 a < pow2 b \<longleftrightarrow> a < b"
  using pow2_less[of a b] pow2_mono[of b a] by (cases "a < b") auto

lemma pow2_of_int: "0 \<le> e \<Longrightarrow> pow2 e = of_int (2 ^ nat e)"
  by (simp add: pow2_def)

lemma pow2_53: "pow2 53 = 2 ^ 53"
  by (simp add: pow2_def)

text \<open>Number of binary digits of a positive integer.\<close>

function blen :: "int \<Rightarrow> int" where
  "blen n = (if n \<le> 0 then 0 else 1 + blen (n div 2))"
  by pat_completeness auto
termination by (relation "measure nat") auto

declare blen.simps [simp del]

lemma blen_nonneg: "0 \<le> blen n"
  by (induction n rule: blen.induct) (subst blen.simps, simp)

lemma blen_bounds: "0 < n \<Longrightarrow> pow2 (blen n - 1) \<le> of_int n \<and> of_int n < pow2 (blen n)"
proof (induction n rule: blen.induct)
  case (1 n)
  show ?case
  proof (cases "n = 1")
    case True
    then show ?thesis by (simp add: blen.simps pow2_def)
  next
    case False
    with "1.prems" have n: "\<not> n \<le> 0" "0 < n div 2" by auto
    define m where "m = n div 2"
    have IH: "pow2 (blen m - 1) \<le> of_int m" "of_int m < pow2 (blen m)"
      using "1.IH"[OF n] by (auto simp: m_def)
    have b: "blen n = blen m + 1"
      using n by (subst blen.simps) (simp add: m_def)
    have "0 < m" using n by (simp add: m_def)
    then have "1 \<le> blen m" by (subst blen.simps) (simp add: blen_nonneg)
    then have p: "pow2 (blen m) = of_int (2 ^ nat (blen m))" by (simp add: pow2_of_int)
    have "m < 2 ^ nat (blen m)" using IH(2) unfolding p by (simp only: of_int_less_iff)
    then have "2 * m + 1 < 2 * 2 ^ nat (blen m)" by linarith
    moreover have mn: "2 * m \<le> n" "n \<le> 2 * m + 1" by (auto simp: m_def)
    ultimately have "n < 2 * 2 ^ nat (blen m)" by linarith
    then have "rat_of_int n < of_int (2 * 2 ^ nat (blen m))" by (simp only: of_int_less_iff)
    then have up: "of_int n < pow2 (blen n)" by (simp add: b pow2_Suc p)
    have "pow2 (blen n - 1) = 2 * pow2 (blen m - 1)" using pow2_Suc[of "blen m - 1"] by (simp add: b)
    also have "\<dots> \<le> 2 * of_int m" using IH(1) by simp
    also have "\<dots> \<le> of_int n" using mn(1) by (metis of_int_le_iff of_int_mult of_int_numeral)
    finally show ?thesis using up by simp
  qed
qed

text \<open>\<open>ilog2 x\<close> is the largest exponent whose power of two is at most \<open>\<bar>x\<bar>\<close>.\<close>

definition ilog2 :: "rat \<Rightarrow> int" where
  "ilog2 x =
     (let (p, q) = quotient_of \<bar>x\<bar>; k = blen p - blen q
      in if pow2 k \<le> \<bar>x\<bar> then k else k - 1)"

lemma ilog2_bounds:
  assumes "x \<noteq> 0"
  shows "pow2 (ilog2 x) \<le> \<bar>x\<bar>" "\<bar>x\<bar> < pow2 (ilog2 x + 1)"
proof -
  obtain p q where pq: "quotient_of \<bar>x\<bar> = (p, q)" by (cases "quotient_of \<bar>x\<bar>")
  have q: "0 < q" using quotient_of_denom_pos[OF pq] .
  have x: "\<bar>x\<bar> = of_int p / of_int q" using quotient_of_div[OF pq] .
  have "0 < \<bar>x\<bar>" using assms by simp
  then have p: "0 < p" using q by (simp add: x zero_less_divide_iff)
  note bp = blen_bounds[OF p] and bq = blen_bounds[OF q]
  have q': "(0::rat) < of_int q" using q by simp
  let ?k = "blen p - blen q"
  have "pow2 (?k - 1) * of_int q \<le> pow2 (?k - 1) * pow2 (blen q)"
    using bq by (simp add: less_imp_le)
  also have "\<dots> = pow2 (blen p - 1)" by (simp flip: pow2_add)
  also have "\<dots> \<le> of_int p" using bp by simp
  finally have lo: "pow2 (?k - 1) \<le> \<bar>x\<bar>" using q' by (simp add: x field_simps)
  have "of_int p < pow2 (blen p)" using bp by simp
  also have "\<dots> = pow2 (?k + 1) * pow2 (blen q - 1)" by (simp flip: pow2_add)
  also have "\<dots> \<le> pow2 (?k + 1) * of_int q" using bq by simp
  finally have hi: "\<bar>x\<bar> < pow2 (?k + 1)" using q' by (simp add: x field_simps)
  show "pow2 (ilog2 x) \<le> \<bar>x\<bar>" "\<bar>x\<bar> < pow2 (ilog2 x + 1)"
    using lo hi by (auto simp: ilog2_def pq Let_def)
qed

lemma ilog2_le:
  assumes "x \<noteq> 0" "\<bar>x\<bar> < pow2 k"
  shows "ilog2 x < k"
  using ilog2_bounds(1)[OF assms(1)] assms(2) pow2_less_iff by (meson order_le_less_trans)

lemma ilog2_ge:
  assumes "pow2 k \<le> \<bar>x\<bar>"
  shows "k \<le> ilog2 x"
proof -
  have "x \<noteq> 0" using assms pow2_pos[of k] by (auto simp: not_le[symmetric] simp del: pow2_pos)
  from ilog2_bounds(2)[OF this] assms have "pow2 k < pow2 (ilog2 x + 1)" by linarith
  then show ?thesis by (simp add: pow2_less_iff)
qed

lemma ilog2_minus [simp]: "ilog2 (- x) = ilog2 x"
  by (simp add: ilog2_def)

lemma ilog2_mono: "x \<noteq> 0 \<Longrightarrow> \<bar>x\<bar> \<le> \<bar>y\<bar> \<Longrightarrow> ilog2 x \<le> ilog2 y"
  using ilog2_bounds(1)[of x] by (intro ilog2_ge) linarith

subsection \<open>Rounding to nearest, ties to even\<close>

definition rhe :: "rat \<Rightarrow> int" where
  "rhe x =
     (let n = \<lfloor>x\<rfloor>; d = x - of_int n
      in if d < 1 / 2 then n else if 1 / 2 < d then n + 1 else if even n then n else n + 1)"

lemma rhe_of_int [simp]: "rhe (of_int n) = n"
  by (simp add: rhe_def)

lemma rhe_floor: "\<lfloor>x\<rfloor> \<le> rhe x" "rhe x \<le> \<lfloor>x\<rfloor> + 1"
  by (auto simp: rhe_def Let_def)

lemma rhe_mono: "x \<le> y \<Longrightarrow> rhe x \<le> rhe y"
proof (cases "\<lfloor>x\<rfloor> = \<lfloor>y\<rfloor>")
  case True
  then show "x \<le> y \<Longrightarrow> rhe x \<le> rhe y" by (auto simp: rhe_def Let_def)
next
  case False
  assume "x \<le> y"
  with False have "\<lfloor>x\<rfloor> + 1 \<le> \<lfloor>y\<rfloor>" using floor_mono[of x y] by linarith
  then show "rhe x \<le> rhe y" using rhe_floor[of x] rhe_floor[of y] by linarith
qed

lemma rhe_err: "\<bar>of_int (rhe x) - x\<bar> \<le> 1 / 2"
proof -
  have "of_int \<lfloor>x\<rfloor> \<le> x" "x < of_int \<lfloor>x\<rfloor> + 1" using floor_correct[of x] by auto
  then show ?thesis by (simp add: rhe_def Let_def abs_le_iff)
qed

lemma rhe_minus [simp]: "rhe (- x) = - rhe x"
proof (cases "x = of_int \<lfloor>x\<rfloor>")
  case True
  then have "rhe x = \<lfloor>x\<rfloor>" "rhe (- x) = - \<lfloor>x\<rfloor>" by (metis rhe_of_int, metis of_int_minus rhe_of_int)
  then show ?thesis by simp
next
  case False
  have "\<lceil>x\<rceil> = \<lfloor>x\<rfloor> + 1"
    using False by (metis ceiling_altdef)
  then have "\<lfloor>- x\<rfloor> = - \<lfloor>x\<rfloor> - 1" by (simp add: floor_minus)
  then show ?thesis by (auto simp: rhe_def Let_def)
qed

text \<open>Exponent of the last place of the format: 53 significant bits, least exponent \<open>-1074\<close>.\<close>

definition fexp :: "rat \<Rightarrow> int" where
  "fexp x = max (ilog2 x - 52) (- 1074)"

definition rne :: "rat \<Rightarrow> rat" where
  "rne x = (if x = 0 then 0 else of_int (rhe (x / pow2 (fexp x))) * pow2 (fexp x))"

definition representable :: "rat \<Rightarrow> bool" where
  "representable x \<longleftrightarrow> (\<exists>n e. x = of_int n * pow2 e \<and> \<bar>n\<bar> < 2 ^ 53 \<and> - 1074 \<le> e)"

lemma rne_0 [simp]: "rne 0 = 0"
  by (simp add: rne_def)

lemma fexp_minus [simp]: "fexp (- x) = fexp x"
  by (simp add: fexp_def)

lemma rne_minus [simp]: "rne (- x) = - rne x"
  by (simp add: rne_def)

lemma of_int_mult_pow2:
  assumes "f \<le> e"
  shows "\<exists>k. of_int n * pow2 e = of_int k * pow2 f"
proof -
  have "of_int n * pow2 e = of_int (n * 2 ^ nat (e - f)) * pow2 f"
    using assms pow2_add[of "e - f" f] by (simp add: pow2_of_int mult.assoc)
  then show ?thesis by blast
qed

text \<open>A representable number rounds to itself.\<close>

lemma rne_representable:
  assumes "representable x"
  shows "rne x = x"
proof (cases "x = 0")
  case False
  obtain n e where x: "x = of_int n * pow2 e" and n: "\<bar>n\<bar> < 2 ^ 53" and e: "- 1074 \<le> e"
    using assms by (auto simp: representable_def)
  have "rat_of_int \<bar>n\<bar> < of_int (2 ^ 53)" using n by (simp only: of_int_less_iff)
  then have "\<bar>x\<bar> < pow2 53 * pow2 e" by (simp add: x abs_mult pow2_53)
  then have "ilog2 x < 53 + e" by (intro ilog2_le False) (simp add: pow2_add)
  then have "fexp x \<le> e" using e by (simp add: fexp_def)
  from of_int_mult_pow2[OF this, of n] obtain k where "x = of_int k * pow2 (fexp x)"
    by (auto simp: x)
  then have "x / pow2 (fexp x) = of_int k" by (simp add: field_simps)
  then show ?thesis using False \<open>x = of_int k * pow2 (fexp x)\<close> by (simp add: rne_def)
qed simp

lemma halve_bound: "n = 2 ^ 53 \<or> n = - (2 ^ 53) \<Longrightarrow> n = 2 * (n div 2) \<and> \<bar>n div 2\<bar> < 2 ^ 53"
  for n :: int
  by auto

text \<open>Rounding yields a representable number.\<close>

lemma rne_is_representable: "representable (rne x)"
proof (cases "x = 0")
  case True
  then show ?thesis by (auto simp: representable_def intro!: exI[of _ 0])
next
  case False
  let ?n = "rhe (x / pow2 (fexp x))"
  have "\<bar>x\<bar> < pow2 (ilog2 x + 1)" using ilog2_bounds(2)[OF False] .
  also have "\<dots> \<le> pow2 (53 + fexp x)" by (intro pow2_mono) (simp add: fexp_def)
  also have "\<dots> = of_int (2 ^ 53) * pow2 (fexp x)" by (simp add: pow2_add pow2_53)
  finally have b: "\<bar>x / pow2 (fexp x)\<bar> < of_int (2 ^ 53)" by (simp add: abs_divide field_simps)
  then have "x / pow2 (fexp x) \<le> of_int (2 ^ 53)" "of_int (- (2 ^ 53)) \<le> x / pow2 (fexp x)"
    unfolding abs_less_iff by simp_all
  then have "?n \<le> rhe (of_int (2 ^ 53))" "rhe (of_int (- (2 ^ 53))) \<le> ?n"
    by (intro rhe_mono; simp)+
  then have n: "\<bar>?n\<bar> \<le> 2 ^ 53" unfolding rhe_of_int by linarith
  have r: "rne x = of_int ?n * pow2 (fexp x)" using False by (simp add: rne_def)
  have f: "- 1074 \<le> fexp x" by (simp add: fexp_def)
  show ?thesis
  proof (cases "\<bar>?n\<bar> = 2 ^ 53")
    case False
    then have "\<bar>?n\<bar> < 2 ^ 53" using n by linarith
    then show ?thesis using r f unfolding representable_def by blast
  next
    case True
    then have "?n = 2 ^ 53 \<or> ?n = - (2 ^ 53)" by linarith
    then obtain m where m: "?n = 2 * m" "\<bar>m\<bar> < 2 ^ 53"
      using halve_bound[of ?n] by blast
    then have "rne x = of_int m * pow2 (fexp x + 1)" by (simp add: r pow2_Suc)
    moreover have "- 1074 \<le> fexp x + 1" using f by simp
    ultimately show ?thesis using m(2) unfolding representable_def by blast
  qed
qed

lemma rne_nonneg: "0 \<le> x \<Longrightarrow> 0 \<le> rne x"
  using rhe_mono[of 0 "x / pow2 (fexp x)"] by (simp add: rne_def rhe_of_int[of 0, simplified])

lemma rne_le_pow2:
  assumes "x \<le> pow2 e" "fexp x \<le> e"
  shows "rne x \<le> pow2 e"
proof (cases "x = 0")
  case False
  obtain k where k: "pow2 e = of_int k * pow2 (fexp x)"
    using of_int_mult_pow2[OF assms(2), of 1] by auto
  then have "x / pow2 (fexp x) \<le> of_int k" using assms(1) by (simp add: field_simps)
  then have "rhe (x / pow2 (fexp x)) \<le> k" using rhe_mono by fastforce
  then show ?thesis using False by (simp add: rne_def k)
qed simp

lemma pow2_le_rne:
  assumes "pow2 e \<le> x" "fexp x \<le> e"
  shows "pow2 e \<le> rne x"
proof -
  obtain k where k: "pow2 e = of_int k * pow2 (fexp x)"
    using of_int_mult_pow2[OF assms(2), of 1] by auto
  then have "of_int k \<le> x / pow2 (fexp x)" using assms(1) by (simp add: field_simps)
  then have "k \<le> rhe (x / pow2 (fexp x))" using rhe_mono by fastforce
  moreover have "x \<noteq> 0" using assms(1) pow2_pos[of e] by linarith
  ultimately show ?thesis by (simp add: rne_def k)
qed

lemma fexp_mono: "x \<noteq> 0 \<Longrightarrow> \<bar>x\<bar> \<le> \<bar>y\<bar> \<Longrightarrow> fexp x \<le> fexp y"
  using ilog2_mono[of x y] by (auto simp: fexp_def)

lemma rne_mono_pos:
  assumes "0 < x" "x \<le> y"
  shows "rne x \<le> rne y"
proof (cases "fexp x = fexp y")
  case True
  have "rhe (x / pow2 (fexp x)) \<le> rhe (y / pow2 (fexp x))"
    using assms by (intro rhe_mono divide_right_mono) auto
  then show ?thesis using True assms by (simp add: rne_def)
next
  case False
  then have lt: "fexp x < fexp y" using fexp_mono[of x y] assms by simp
  then have y: "fexp y = ilog2 y - 52" by (auto simp: fexp_def)
  moreover have "ilog2 x - 52 \<le> fexp x" by (simp add: fexp_def)
  ultimately have "ilog2 x + 1 \<le> ilog2 y" using lt by linarith
  then have "pow2 (ilog2 x + 1) \<le> pow2 (ilog2 y)" by (rule pow2_mono)
  then have "x \<le> pow2 (ilog2 y)" using ilog2_bounds(2)[of x] assms by simp
  then have "rne x \<le> pow2 (ilog2 y)" using lt y by (intro rne_le_pow2) auto
  also have "pow2 (ilog2 y) \<le> rne y"
    using ilog2_bounds(1)[of y] assms y by (intro pow2_le_rne) auto
  finally show ?thesis .
qed

lemma rne_mono: "x \<le> y \<Longrightarrow> rne x \<le> rne y"
proof -
  assume le: "x \<le> y"
  consider "0 < x" | "y < 0" | "x \<le> 0" "0 \<le> y" by linarith
  then show ?thesis
  proof cases
    case 1
    then show ?thesis using le by (rule rne_mono_pos)
  next
    case 2
    then show ?thesis using rne_mono_pos[of "- y" "- x"] le by simp
  next
    case 3
    then show ?thesis using rne_nonneg[of "- x"] rne_nonneg[of y] by simp
  qed
qed

lemma rne_le_representable: "x \<le> y \<Longrightarrow> representable y \<Longrightarrow> rne x \<le> y"
  using rne_mono[of x y] by (simp add: rne_representable)

lemma representable_le_rne: "y \<le> x \<Longrightarrow> representable y \<Longrightarrow> y \<le> rne x"
  using rne_mono[of y x] by (simp add: rne_representable)

lemma rne_pos: "pow2 (- 1074) \<le> x \<Longrightarrow> 0 < rne x"
proof -
  assume x: "pow2 (- 1074) \<le> x"
  have "representable (pow2 (- 1074))" unfolding representable_def
    by (intro exI[of _ 1] exI[of _ "- 1074"]) simp
  then show ?thesis using representable_le_rne[OF x] pow2_pos[of "- 1074"] by linarith
qed

lemma representable_int: "\<bar>n\<bar> < 2 ^ 53 \<Longrightarrow> representable (of_int n)"
  unfolding representable_def by (intro exI[of _ n] exI[of _ 0]) simp

lemma representable_pow2: "- 1074 \<le> e \<Longrightarrow> representable (pow2 e)"
  unfolding representable_def by (intro exI[of _ 1] exI[of _ e]) simp

text \<open>The rounding error: half a unit in the last place.\<close>

lemma rne_err: "\<bar>rne x - x\<bar> \<le> pow2 (fexp x) / 2"
proof (cases "x = 0")
  case False
  let ?q = "x / pow2 (fexp x)"
  have "rne x - x = (of_int (rhe ?q) - ?q) * pow2 (fexp x)"
    using False by (simp add: rne_def field_simps)
  then have "\<bar>rne x - x\<bar> = \<bar>of_int (rhe ?q) - ?q\<bar> * pow2 (fexp x)" by (simp add: abs_mult)
  also have "\<dots> \<le> 1 / 2 * pow2 (fexp x)" by (intro mult_right_mono rhe_err) simp
  finally show ?thesis by simp
qed simp

lemma rne_rel_err:
  assumes "pow2 (- 1022) \<le> \<bar>x\<bar>"
  shows "\<bar>rne x - x\<bar> \<le> \<bar>x\<bar> * pow2 (- 53)"
proof -
  have "- 1022 \<le> ilog2 x" using assms by (rule ilog2_ge)
  then have f: "fexp x = ilog2 x - 52" by (simp add: fexp_def)
  have "x \<noteq> 0" using assms pow2_pos[of "- 1022"] by (auto simp del: pow2_pos)
  have "pow2 (fexp x) / 2 = pow2 (ilog2 x) * pow2 (- 53)"
    using pow2_Suc[of "ilog2 x - 53"] by (simp add: f flip: pow2_add)
  also have "\<dots> \<le> \<bar>x\<bar> * pow2 (- 53)" using ilog2_bounds(1)[OF \<open>x \<noteq> 0\<close>] by simp
  finally show ?thesis using rne_err[of x] by linarith
qed

text \<open>
  Stagnation: next to \<open>pow2 a\<close>, an amount of at most \<open>pow2 b\<close> with \<open>b \<le> a - 54\<close> is less
  than half a unit in the last place and rounds away.
\<close>

lemma rne_stagnates:
  assumes "x \<le> pow2 a + pow2 b" "b + 54 \<le> a" "0 \<le> a"
  shows "rne x \<le> pow2 a"
proof (cases "x \<le> pow2 a")
  case True
  then show ?thesis using assms(3) by (intro rne_le_representable representable_pow2) auto
next
  case False
  then have x: "0 < x" "pow2 a \<le> \<bar>x\<bar>" using pow2_pos[of a] by linarith+
  have "pow2 b < pow2 a" using assms by (intro pow2_less) simp
  then have "\<bar>x\<bar> < pow2 (a + 1)" using x assms(1) by (simp add: pow2_Suc)
  then have "ilog2 x = a" using ilog2_ge[OF x(2)] ilog2_le[of x "a + 1"] x(1) by simp
  then have f: "fexp x = a - 52" using assms(3) by (simp add: fexp_def)
  have "x / pow2 (a - 52) \<le> (pow2 a + pow2 b) / pow2 (a - 52)"
    using assms(1) by (intro divide_right_mono) auto
  also have "\<dots> = pow2 52 + pow2 (b - a + 52)"
    using pow2_diff[of a "a - 52"] pow2_diff[of b "a - 52"]
    by (simp add: add_divide_distrib algebra_simps)
  also have "\<dots> \<le> pow2 52 + pow2 (- 2)" using assms(2) by (intro add_left_mono pow2_mono) simp
  also have "\<dots> = 4503599627370496 + 1 / 4" by (simp add: pow2_def)
  finally have "rhe (x / pow2 (fexp x)) \<le> rhe (4503599627370496 + 1 / 4)"
    unfolding f by (rule rhe_mono)
  also have "\<dots> = 4503599627370496"
  proof -
    have "\<lfloor>18014398509481985 / 4 :: rat\<rfloor> = 4503599627370496" by (simp add: floor_eq_iff)
    then show ?thesis by (simp add: rhe_def Let_def)
  qed
  finally have "rat_of_int (rhe (x / pow2 (fexp x))) \<le> of_int 4503599627370496" by (simp only: of_int_le_iff)
  also have "\<dots> = pow2 52" by (simp add: pow2_def)
  finally have "rat_of_int (rhe (x / pow2 (fexp x))) * pow2 (fexp x) \<le> pow2 52 * pow2 (a - 52)"
    unfolding f by (intro mult_right_mono) auto
  also have "\<dots> = pow2 a" by (simp flip: pow2_add)
  finally show ?thesis using x(1) by (simp add: rne_def)
qed

text \<open>Evaluating a rounding from a bracket of powers of two.\<close>

lemma ilog2_eqI: "pow2 k \<le> x \<Longrightarrow> x < pow2 (k + 1) \<Longrightarrow> ilog2 x = k"
  using ilog2_ge[of k x] ilog2_le[of x "k + 1"] pow2_pos[of k] by force

lemma rne_eqI:
  assumes "pow2 k \<le> x" "x < pow2 (k + 1)" "- 1022 \<le> k" "rhe (x / pow2 (k - 52)) = n"
  shows "rne x = of_int n * pow2 (k - 52)"
proof -
  have "ilog2 x = k" using assms by (intro ilog2_eqI)
  then have "fexp x = k - 52" using assms(3) by (simp add: fexp_def)
  moreover have "x \<noteq> 0" using assms(1) pow2_pos[of k] by linarith
  ultimately show ?thesis using assms(4) by (simp add: rne_def)
qed


text \<open>Dividing by a power of two is exact away from the subnormal range.\<close>

lemma representable_scale:
  assumes "representable x" "x = 0 \<or> pow2 (- 1000) \<le> x" "k \<le> 21"
  shows "representable (x / pow2 k)"
proof (cases "x = 0")
  case True
  then show ?thesis by (auto simp: representable_def intro!: exI[of _ 0])
next
  case False
  obtain n e where x: "x = of_int n * pow2 e" "\<bar>n\<bar> < 2 ^ 53" using assms(1) by (auto simp: representable_def)
  have "pow2 (- 1000) \<le> x" using False assms(2) by simp
  also have "x \<le> of_int (2 ^ 53) * pow2 e"
  proof -
    have "rat_of_int n \<le> of_int (2 ^ 53)" using x(2) unfolding of_int_le_iff by linarith
    then show ?thesis unfolding x(1) by (rule mult_right_mono) simp
  qed
  also have "\<dots> = pow2 (53 + e)" by (simp add: pow2_add pow2_53)
  finally have "- 1000 \<le> 53 + e" using pow2_less[of "53 + e" "- 1000"] by linarith
  then have "- 1074 \<le> e - k" using assms(3) by linarith
  moreover have "x / pow2 k = of_int n * pow2 (e - k)" by (simp add: x(1) pow2_diff)
  ultimately show ?thesis using x(2) by (auto simp: representable_def)
qed

end
