(* ===== verification/Float64.thy ===== *)
theory Float64
  imports Rounding
begin

text \<open>
  Go's \<open>float64\<close> (IEEE 754 binary64) as the program uses it: the four arithmetic
  operations, the comparisons (false on NaN), the conversions from and to \<open>int64\<close>, and
  \<open>math.Round\<close>, \<open>math.Ceil\<close>, \<open>math.Max\<close>.
  A finite value is its exact rational value; negative zero is a constructor of its own.
  Each operation computes the exact rational result and rounds once (\<open>rnd\<close>), which is
  what the standard prescribes. The model fuses no multiply-add, as on amd64.
  \<open>+\<close>, \<open>-\<close>, \<open>*\<close>, \<open>/\<close>, \<open><\<close> and \<open>\<le>\<close> on \<open>f64\<close> are Go's operators; no algebraic law of a
  ring or an order is assumed of them, and those that fail (associativity, reflexivity on
  NaN) are not used.
\<close>

datatype f64 = NaN | Inf bool | NZero | Fin rat

fun is_fin :: "f64 \<Rightarrow> bool" where
  "is_fin NaN = False"
| "is_fin (Inf s) = False"
| "is_fin NZero = True"
| "is_fin (Fin q) = True"

fun val :: "f64 \<Rightarrow> rat" where
  "val NaN = 0"
| "val (Inf s) = 0"
| "val NZero = 0"
| "val (Fin q) = q"

text \<open>The sign bit.\<close>

fun signbit :: "f64 \<Rightarrow> bool" where
  "signbit NaN = False"
| "signbit (Inf s) = s"
| "signbit NZero = True"
| "signbit (Fin q) = (q < 0)"

definition is_inf :: "f64 \<Rightarrow> bool" where
  "is_inf x \<longleftrightarrow> x = Inf False \<or> x = Inf True"

definition is_zero :: "f64 \<Rightarrow> bool" where
  "is_zero x \<longleftrightarrow> x = NZero \<or> x = Fin 0"

definition mkz :: "bool \<Rightarrow> rat \<Rightarrow> f64" where
  "mkz s q = (if q = 0 then if s then NZero else Fin 0 else Fin q)"

text \<open>Magnitudes from \<open>2 ^ 1024\<close> on are out of range.\<close>

definition fbound :: rat where
  "fbound = 2 ^ 1024"

text \<open>Rounding an exact result; \<open>s\<close> is the sign an exact zero takes.\<close>

definition rnd :: "bool \<Rightarrow> rat \<Rightarrow> f64" where
  "rnd s q =
     (let r = rne q; s' = (if q = 0 then s else q < 0)
      in if fbound \<le> \<bar>r\<bar> then Inf s' else mkz s' r)"

text \<open>A Go constant converted to \<open>float64\<close>.\<close>

definition fl :: "rat \<Rightarrow> f64" where
  "fl q = rnd False q"

fun fneg :: "f64 \<Rightarrow> f64" where
  "fneg NaN = NaN"
| "fneg (Inf s) = Inf (\<not> s)"
| "fneg NZero = Fin 0"
| "fneg (Fin q) = (if q = 0 then NZero else Fin (- q))"

definition fadd :: "f64 \<Rightarrow> f64 \<Rightarrow> f64" where
  "fadd x y =
     (if x = NaN \<or> y = NaN then NaN
      else if is_inf x then (if is_inf y \<and> x \<noteq> y then NaN else x)
      else if is_inf y then y
      else rnd (signbit x \<and> signbit y) (val x + val y))"

definition fmul :: "f64 \<Rightarrow> f64 \<Rightarrow> f64" where
  "fmul x y =
     (if x = NaN \<or> y = NaN then NaN
      else if is_inf x \<or> is_inf y
        then (if is_zero x \<or> is_zero y then NaN else Inf (signbit x \<noteq> signbit y))
      else rnd (signbit x \<noteq> signbit y) (val x * val y))"

definition fdiv :: "f64 \<Rightarrow> f64 \<Rightarrow> f64" where
  "fdiv x y =
     (if x = NaN \<or> y = NaN then NaN
      else if is_inf x then (if is_inf y then NaN else Inf (signbit x \<noteq> signbit y))
      else if is_inf y then mkz (signbit x \<noteq> signbit y) 0
      else if is_zero y then (if is_zero x then NaN else Inf (signbit x \<noteq> signbit y))
      else rnd (signbit x \<noteq> signbit y) (val x / val y))"

definition flt :: "f64 \<Rightarrow> f64 \<Rightarrow> bool" where
  "flt x y \<longleftrightarrow> x \<noteq> NaN \<and> y \<noteq> NaN \<and>
     (if is_inf x then x = Inf True \<and> y \<noteq> Inf True
      else if is_inf y then y = Inf False else val x < val y)"

text \<open>Go's \<open>==\<close>: \<open>NaN\<close> differs from itself, the two zeros are equal.\<close>

definition feq :: "f64 \<Rightarrow> f64 \<Rightarrow> bool" where
  "feq x y \<longleftrightarrow> x \<noteq> NaN \<and> y \<noteq> NaN \<and>
     (if is_inf x \<or> is_inf y then x = y else val x = val y)"

instantiation f64 :: "{zero, plus, minus, times, inverse, ord}"
begin

definition zero_f64 :: f64 where "zero_f64 = Fin 0"
definition plus_f64 :: "f64 \<Rightarrow> f64 \<Rightarrow> f64" where "plus_f64 = fadd"
definition minus_f64 :: "f64 \<Rightarrow> f64 \<Rightarrow> f64" where "minus_f64 x y = fadd x (fneg y)"
definition times_f64 :: "f64 \<Rightarrow> f64 \<Rightarrow> f64" where "times_f64 = fmul"
definition divide_f64 :: "f64 \<Rightarrow> f64 \<Rightarrow> f64" where "divide_f64 = fdiv"
definition inverse_f64 :: "f64 \<Rightarrow> f64" where "inverse_f64 = fdiv (Fin 1)"
definition less_f64 :: "f64 \<Rightarrow> f64 \<Rightarrow> bool" where "less_f64 = flt"
definition less_eq_f64 :: "f64 \<Rightarrow> f64 \<Rightarrow> bool" where "less_eq_f64 x y \<longleftrightarrow> flt x y \<or> feq x y"

instance ..

end

lemmas f64_op_defs = zero_f64_def plus_f64_def minus_f64_def times_f64_def divide_f64_def
  less_f64_def less_eq_f64_def

subsection \<open>Conversions and the \<open>math\<close> functions\<close>

definition of_i64 :: "i64 \<Rightarrow> f64" where
  "of_i64 w = fl (of_int (sint w))"

text \<open>
  \<open>int(f)\<close> truncates towards zero. Outside the range of the target the language leaves
  the result open; on amd64 it is the least integer, which the model takes.
\<close>

definition trunc_rat :: "rat \<Rightarrow> int" where
  "trunc_rat q = (if 0 \<le> q then \<lfloor>q\<rfloor> else \<lceil>q\<rceil>)"

definition to_i64 :: "f64 \<Rightarrow> i64" where
  "to_i64 x =
     (if is_fin x \<and> - (2 ^ 63) \<le> trunc_rat (val x) \<and> trunc_rat (val x) < 2 ^ 63
      then word_of_int (trunc_rat (val x)) else word_of_int (- (2 ^ 63)))"

text \<open>\<open>math.Round\<close>: halves away from zero, the sign of a zero kept.\<close>

definition fround :: "f64 \<Rightarrow> f64" where
  "fround x =
     (if is_fin x
      then rnd (signbit x) (of_int (if 0 \<le> val x then \<lfloor>val x + 1 / 2\<rfloor> else - \<lfloor>- val x + 1 / 2\<rfloor>))
      else x)"

definition fceil :: "f64 \<Rightarrow> f64" where
  "fceil x = (if is_fin x then rnd (signbit x) (of_int \<lceil>val x\<rceil>) else x)"

definition fmax :: "f64 \<Rightarrow> f64 \<Rightarrow> f64" where
  "fmax x y =
     (if x = Inf False \<or> y = Inf False then Inf False
      else if x = NaN \<or> y = NaN then NaN
      else if is_zero x \<and> is_zero y then (if signbit x then y else x)
      else if y < x then x else y)"

subsection \<open>Reading the operations through their exact values\<close>

lemma is_inf_simps [simp]:
  "is_inf (Inf s)" "\<not> is_inf NaN" "\<not> is_inf NZero" "\<not> is_inf (Fin q)"
  by (auto simp: is_inf_def)

lemma is_fin_not_inf: "is_fin x \<longleftrightarrow> x \<noteq> NaN \<and> \<not> is_inf x"
  by (cases x) auto

lemma is_fin_neq [simp]: "is_fin x \<Longrightarrow> x \<noteq> NaN" "is_fin x \<Longrightarrow> x \<noteq> Inf s" "is_fin x \<Longrightarrow> \<not> is_inf x"
  by (cases x; simp)+

lemma is_zero_val: "is_fin x \<Longrightarrow> is_zero x \<longleftrightarrow> val x = 0"
  by (cases x) (auto simp: is_zero_def)

lemma is_zero_val' [simp]: "is_zero (Inf s) = False" "is_zero NaN = False"
  by (auto simp: is_zero_def)

lemma mkz_simps [simp]: "is_fin (mkz s q)" "val (mkz s q) = q" "mkz s q \<noteq> NaN"
  by (auto simp: mkz_def)

lemma rnd_not_nan [simp]: "rnd s q \<noteq> NaN" "NaN \<noteq> rnd s q"
  by (auto simp: rnd_def Let_def mkz_def)

lemma rnd_fin_iff: "is_fin (rnd s q) \<longleftrightarrow> \<bar>rne q\<bar> < fbound"
  by (simp add: rnd_def Let_def not_le)

lemma rnd_val: "is_fin (rnd s q) \<Longrightarrow> val (rnd s q) = rne q"
  by (simp add: rnd_def Let_def split: if_splits)

lemma fbound_pos [simp]: "0 < fbound"
  by (simp add: fbound_def)

lemma rnd_inf_iff: "rnd s q = Inf t \<longleftrightarrow> fbound \<le> \<bar>rne q\<bar> \<and> t = (q < 0)"
  using fbound_pos by (auto simp: rnd_def Let_def mkz_def not_le simp del: fbound_pos)

lemma add_fin: "is_fin x \<Longrightarrow> is_fin y \<Longrightarrow> x + y = rnd (signbit x \<and> signbit y) (val x + val y)"
  by (simp add: plus_f64_def fadd_def)

lemma fneg_fin [simp]: "is_fin (fneg x) = is_fin x" "val (fneg x) = - val x"
  by (cases x; simp)+

lemma sub_fin: "is_fin x \<Longrightarrow> is_fin y \<Longrightarrow> x - y = rnd (signbit x \<and> signbit (fneg y)) (val x - val y)"
  by (simp add: minus_f64_def fadd_def)

lemma mul_fin: "is_fin x \<Longrightarrow> is_fin y \<Longrightarrow> x * y = rnd (signbit x \<noteq> signbit y) (val x * val y)"
  by (simp add: times_f64_def fmul_def)

lemma div_fin:
  "is_fin x \<Longrightarrow> is_fin y \<Longrightarrow> val y \<noteq> 0 \<Longrightarrow> x / y = rnd (signbit x \<noteq> signbit y) (val x / val y)"
  by (simp add: divide_f64_def fdiv_def is_zero_val)

lemma less_fin: "is_fin x \<Longrightarrow> is_fin y \<Longrightarrow> x < y \<longleftrightarrow> val x < val y"
  by (simp add: less_f64_def flt_def)

lemma le_fin: "is_fin x \<Longrightarrow> is_fin y \<Longrightarrow> x \<le> y \<longleftrightarrow> val x \<le> val y"
  by (auto simp: less_eq_f64_def flt_def feq_def)

lemma feq_fin: "is_fin x \<Longrightarrow> is_fin y \<Longrightarrow> feq x y \<longleftrightarrow> val x = val y"
  by (simp add: feq_def)

lemma zero_fin [simp]: "is_fin 0" "val 0 = 0" "signbit 0 = False"
  by (simp_all add: zero_f64_def)

lemma nan_cmp [simp]: "\<not> NaN < x" "\<not> x < NaN" "\<not> NaN \<le> x" "\<not> x \<le> NaN" "\<not> feq NaN x" "\<not> feq x NaN"
  by (simp_all add: less_f64_def less_eq_f64_def flt_def feq_def)

lemma zero_le_iff: "0 \<le> x \<longleftrightarrow> x = Inf False \<or> is_fin x \<and> 0 \<le> val x"
  by (cases x) (auto simp: less_eq_f64_def flt_def feq_def zero_f64_def)

lemma zero_less_iff: "0 < x \<longleftrightarrow> x = Inf False \<or> is_fin x \<and> 0 < val x"
  by (cases x) (auto simp: less_f64_def flt_def zero_f64_def)

lemma less_zero_iff: "x < 0 \<longleftrightarrow> x = Inf True \<or> is_fin x \<and> val x < 0"
  by (cases x) (auto simp: less_f64_def flt_def zero_f64_def)

lemma le_zero_iff: "x \<le> 0 \<longleftrightarrow> x = Inf True \<or> is_fin x \<and> val x \<le> 0"
  by (cases x) (auto simp: less_eq_f64_def flt_def feq_def zero_f64_def)

lemma zero_less_imp_le: "0 < x \<Longrightarrow> (0 :: f64) \<le> x"
  by (auto simp: zero_less_iff zero_le_iff)

subsection \<open>The comparisons on numbers\<close>

lemma flt_irrefl [simp]: "\<not> x < (x :: f64)"
  by (cases x) (auto simp: less_f64_def flt_def)

lemma flt_trans: "x < y \<Longrightarrow> y < z \<Longrightarrow> x < (z :: f64)"
  by (cases x; cases y; cases z) (auto simp: less_f64_def flt_def split: if_splits)

lemma feq_refl: "x \<noteq> NaN \<Longrightarrow> feq x x"
  by (simp add: feq_def)

lemma feq_sym: "feq x y \<Longrightarrow> feq y x"
  by (auto simp: feq_def split: if_splits)

lemma feq_trans: "feq x y \<Longrightarrow> feq y z \<Longrightarrow> feq x z"
  by (cases x; cases y; cases z) (auto simp: feq_def split: if_splits)

lemma feq_flt: "feq x y \<Longrightarrow> x < z \<longleftrightarrow> y < z" "feq x y \<Longrightarrow> z < x \<longleftrightarrow> z < y"
  by (cases x; cases y; cases z; auto simp: feq_def less_f64_def flt_def split: if_splits)+

lemma f64_linear: "x \<noteq> NaN \<Longrightarrow> y \<noteq> NaN \<Longrightarrow> x < y \<or> feq x y \<or> y < x"
  by (cases x; cases y) (auto simp: feq_def less_f64_def flt_def is_inf_def)

lemma f64_not_less: "x \<noteq> NaN \<Longrightarrow> y \<noteq> NaN \<Longrightarrow> \<not> x < y \<longleftrightarrow> y \<le> x"
  by (cases x; cases y) (auto simp: feq_def less_f64_def less_eq_f64_def flt_def is_inf_def)

lemma fle_trans: "x \<le> y \<Longrightarrow> y \<le> z \<Longrightarrow> x \<le> (z :: f64)"
  by (cases x; cases y; cases z) (auto simp: less_eq_f64_def feq_def flt_def split: if_splits)

lemma fle_not_nan: "x \<le> y \<Longrightarrow> x \<noteq> NaN \<and> y \<noteq> (NaN :: f64)"
  by auto

lemma nonneg_not_nan: "0 \<le> x \<Longrightarrow> x \<noteq> NaN"
  by auto

subsection \<open>Monotonicity and signs\<close>

lemma le_top: "x \<noteq> NaN \<Longrightarrow> x \<le> Inf False"
  by (cases x) (auto simp: less_eq_f64_def flt_def feq_def)

lemma bot_le: "x \<noteq> NaN \<Longrightarrow> Inf True \<le> x"
  by (cases x) (auto simp: less_eq_f64_def flt_def feq_def)

lemma rnd_cases:
  obtains (fin) "is_fin (rnd s q)" "val (rnd s q) = rne q"
  | (pos) "rnd s q = Inf False" "fbound \<le> rne q"
  | (neg) "rnd s q = Inf True" "rne q \<le> - fbound"
proof (cases "\<bar>rne q\<bar> < fbound")
  case True
  then show ?thesis by (intro fin) (simp_all add: rnd_fin_iff rnd_val)
next
  case False
  have "rne q \<le> 0" if "q < 0" using that rne_mono[of q 0] by simp
  moreover have "0 \<le> rne q" if "0 \<le> q" using that by (rule rne_nonneg)
  moreover have "rnd s q = Inf (q < 0)" using False by (simp add: rnd_inf_iff)
  ultimately show ?thesis using False pos neg by (cases "q < 0") auto
qed

lemma rnd_mono: "p \<le> q \<Longrightarrow> rnd s p \<le> rnd t q"
proof -
  assume "p \<le> q"
  then have m: "rne p \<le> rne q" by (rule rne_mono)
  show ?thesis
    by (cases s p rule: rnd_cases; cases t q rule: rnd_cases)
      (use m fbound_pos in \<open>auto simp: rnd_fin_iff le_fin le_top bot_le\<close>)
qed

lemma rnd_nonneg [f64_nonneg]: "0 \<le> q \<Longrightarrow> 0 \<le> rnd s q"
  using rne_nonneg[of q] by (auto simp: zero_le_iff rnd_inf_iff rnd_fin_iff rnd_val)

lemma add_nonneg [f64_nonneg]: "0 \<le> x \<Longrightarrow> 0 \<le> y \<Longrightarrow> 0 \<le> x + (y :: f64)"
proof (cases "is_fin x \<and> is_fin y")
  case True
  then show "0 \<le> x \<Longrightarrow> 0 \<le> y \<Longrightarrow> 0 \<le> x + y" by (simp add: add_fin rnd_nonneg le_fin)
next
  case False
  then show "0 \<le> x \<Longrightarrow> 0 \<le> y \<Longrightarrow> 0 \<le> x + y"
    by (cases x; cases y) (auto simp: zero_le_iff plus_f64_def fadd_def)
qed

lemma mul_nonneg [f64_nonneg]: "0 \<le> x \<Longrightarrow> 0 \<le> y \<Longrightarrow> is_fin x \<Longrightarrow> is_fin y \<Longrightarrow> 0 \<le> x * (y :: f64)"
  by (simp add: mul_fin rnd_nonneg le_fin)

lemma mul_pos_nonneg: "0 \<le> x \<Longrightarrow> 0 < y \<Longrightarrow> is_fin y \<Longrightarrow> 0 \<le> x * (y :: f64)"
proof (cases "is_fin x")
  case True
  then show "0 \<le> x \<Longrightarrow> 0 < y \<Longrightarrow> is_fin y \<Longrightarrow> 0 \<le> x * y"
    by (simp add: mul_nonneg zero_less_imp_le)
next
  case False
  then show "0 \<le> x \<Longrightarrow> 0 < y \<Longrightarrow> is_fin y \<Longrightarrow> 0 \<le> x * y"
    by (cases x; cases y) (auto simp: zero_le_iff zero_less_iff times_f64_def fmul_def is_zero_def)
qed

lemma div_pos_nonneg: "0 \<le> x \<Longrightarrow> 0 < y \<Longrightarrow> is_fin y \<Longrightarrow> 0 \<le> x / (y :: f64)"
proof (cases "is_fin x")
  case True
  then show "0 \<le> x \<Longrightarrow> 0 < y \<Longrightarrow> is_fin y \<Longrightarrow> 0 \<le> x / y"
    by (simp add: div_fin rnd_nonneg le_fin less_fin)
next
  case False
  then show "0 \<le> x \<Longrightarrow> 0 < y \<Longrightarrow> is_fin y \<Longrightarrow> 0 \<le> x / y"
    by (cases x; cases y) (auto simp: zero_le_iff zero_less_iff divide_f64_def fdiv_def)
qed

lemma fround_nonneg [f64_nonneg]: "0 \<le> x \<Longrightarrow> 0 \<le> fround x"
  by (auto simp: zero_le_iff[of x] fround_def zero_le_iff[of "Inf False"] intro!: rnd_nonneg)

lemma fl_nonneg [f64_nonneg]: "0 \<le> q \<Longrightarrow> 0 \<le> fl q"
  by (simp add: fl_def rnd_nonneg)

text \<open>Monotonicity in the first argument.\<close>

lemma le_cases:
  assumes "x \<le> (y :: f64)"
  obtains (fin) "is_fin x" "is_fin y" "val x \<le> val y" | (top) "x \<noteq> NaN" "y = Inf False" | (bot) "x = Inf True" "y \<noteq> NaN"
proof -
  have "x \<noteq> NaN" "y \<noteq> NaN" using fle_not_nan[OF assms] by auto
  then show thesis
    using assms fin top bot
    by (cases x; cases y) (auto simp: le_fin less_eq_f64_def flt_def feq_def is_inf_def split: if_splits)
qed

lemma mul_mono_pos:
  assumes "x \<le> y" "is_fin c" "0 < val c"
  shows "x * c \<le> y * (c :: f64)"
proof (cases rule: le_cases[OF assms(1)])
  case 1
  then show ?thesis using assms by (simp add: mul_fin) (intro rnd_mono mult_right_mono, auto)
qed (use assms in \<open>cases x; cases y; cases c; auto simp: times_f64_def fmul_def is_zero_def le_top bot_le\<close>)+

lemma mul_mono_fin: "x \<le> y \<Longrightarrow> is_fin x \<Longrightarrow> is_fin y \<Longrightarrow> is_fin c \<Longrightarrow> 0 \<le> val c \<Longrightarrow> x * c \<le> y * (c :: f64)"
  by (simp add: mul_fin le_fin) (intro rnd_mono mult_right_mono, auto)

lemma div_mono_pos:
  assumes "x \<le> y" "is_fin c" "0 < val c"
  shows "x / c \<le> y / (c :: f64)"
proof (cases rule: le_cases[OF assms(1)])
  case 1
  then show ?thesis using assms by (simp add: div_fin) (intro rnd_mono divide_right_mono, auto)
qed (use assms in \<open>cases x; cases y; cases c; auto simp: divide_f64_def fdiv_def is_zero_def le_top bot_le\<close>)+

lemma fround_not_nan: "x \<noteq> NaN \<Longrightarrow> fround x \<noteq> NaN"
  by (simp add: fround_def)

lemma round_half_mono:
  assumes "a \<le> (b :: rat)"
  shows "(if 0 \<le> a then \<lfloor>a + 1 / 2\<rfloor> else - \<lfloor>- a + 1 / 2\<rfloor>) \<le> (if 0 \<le> b then \<lfloor>b + 1 / 2\<rfloor> else - \<lfloor>- b + 1 / 2\<rfloor>)"
proof -
  consider "0 \<le> a" | "b < 0" | "a < 0" "0 \<le> b" by linarith
  then show ?thesis
  proof cases
    case 1
    then show ?thesis using assms floor_mono[of "a + 1 / 2" "b + 1 / 2"] by simp
  next
    case 2
    then show ?thesis using assms floor_mono[of "- b + 1 / 2" "- a + 1 / 2"] by simp
  next
    case 3
    then have "0 \<le> \<lfloor>- a + 1 / 2\<rfloor>" "0 \<le> \<lfloor>b + 1 / 2\<rfloor>" by (simp_all add: le_floor_iff)
    then have "- \<lfloor>- a + 1 / 2\<rfloor> \<le> \<lfloor>b + 1 / 2\<rfloor>" by linarith
    then show ?thesis using 3 by (simp only: not_le[symmetric] if_True if_False)
  qed
qed

lemma fround_mono:
  assumes "x \<le> y"
  shows "fround x \<le> fround y"
proof (cases rule: le_cases[OF assms])
  case 1
  then show ?thesis unfolding fround_def using round_half_mono[of "val x" "val y"]
    by (simp only: if_True) (intro rnd_mono, simp only: of_int_le_iff)
next
  case 2
  then show ?thesis using fround_not_nan[of x] by (simp add: fround_def[of "Inf False"] le_top)
next
  case 3
  then show ?thesis using fround_not_nan[of y] by (simp add: fround_def[of "Inf True"] bot_le)
qed

text \<open>Small exact values survive the conversion unchanged.\<close>

lemma fbound_half: "fbound = 2 * pow2 1023" "0 < pow2 1023"
  unfolding fbound_def pow2_def by simp_all

lemma rnd_fin_small: "\<bar>q\<bar> \<le> pow2 1023 \<Longrightarrow> is_fin (rnd s q)"
proof -
  assume q: "\<bar>q\<bar> \<le> pow2 1023"
  have "rne q \<le> pow2 1023" "rne (- q) \<le> pow2 1023"
    using q by (auto intro!: rne_le_representable representable_pow2 simp del: rne_minus)
  then have "\<bar>rne q\<bar> \<le> pow2 1023" by simp
  then show ?thesis unfolding rnd_fin_iff using fbound_half by linarith
qed

lemma fl_fin: "\<bar>q\<bar> \<le> pow2 1023 \<Longrightarrow> is_fin (fl q)"
  by (simp add: fl_def rnd_fin_small)

lemma of_i64_fin [simp]: "is_fin (of_i64 w)"
proof -
  have "\<bar>sint w\<bar> \<le> 2 ^ 63" using sint_range[of w] by simp
  then have "rat_of_int \<bar>sint w\<bar> \<le> of_int (2 ^ 63)" by (simp only: of_int_le_iff)
  also have "\<dots> = pow2 63" by (simp add: pow2_def)
  also have "\<dots> \<le> pow2 1023" by (rule pow2_mono) simp
  finally show ?thesis by (simp add: of_i64_def fl_fin del: of_int_le_iff)
qed

lemma of_i64_val: "val (of_i64 w) = rne (of_int (sint w))"
  using of_i64_fin[of w] by (simp add: of_i64_def fl_def rnd_val del: of_i64_fin)

lemma of_i64_nonneg [f64_nonneg]: "0 \<le> sint w \<Longrightarrow> 0 \<le> of_i64 w"
  by (simp add: of_i64_def fl_nonneg)

lemma of_i64_mono: "sint a \<le> sint b \<Longrightarrow> of_i64 a \<le> of_i64 b"
  by (simp add: of_i64_def fl_def rnd_mono)

lemma of_i64_pos: "0 < sint w \<Longrightarrow> 0 < of_i64 w"
proof -
  assume "0 < sint w"
  then have "(1 :: rat) \<le> of_int (sint w)" by simp
  then have "1 \<le> rne (of_int (sint w))"
    using representable_le_rne[of 1 "of_int (sint w)"] representable_int[of 1] by simp
  then show ?thesis by (simp add: zero_less_iff of_i64_val)
qed

subsection \<open>Exact small integers\<close>

lemma rnd_representable: "representable q \<Longrightarrow> \<bar>q\<bar> < fbound \<Longrightarrow> rnd s q = mkz (if q = 0 then s else q < 0) q"
  by (simp add: rnd_def rne_representable)

lemma fl_int: "\<bar>n\<bar> < 2 ^ 53 \<Longrightarrow> fl (of_int n) = Fin (of_int n)"
proof -
  assume n: "\<bar>n\<bar> < 2 ^ 53"
  then have "rat_of_int \<bar>n\<bar> < of_int (2 ^ 53)" by (simp only: of_int_less_iff)
  also have "\<dots> = pow2 53" by (simp add: pow2_def)
  also have "\<dots> \<le> fbound" unfolding fbound_half using pow2_mono[of 53 1023] fbound_half(2) by linarith
  finally have "\<bar>rat_of_int n\<bar> < fbound" by simp
  from rnd_representable[OF representable_int[OF n] this, of False]
  show ?thesis by (simp add: fl_def mkz_def)
qed

lemma fl_numeral [simp]: "(numeral n :: int) < 2 ^ 53 \<Longrightarrow> fl (numeral n) = Fin (numeral n)"
  using fl_int[of "numeral n"] by simp

lemma rnd_numeral [simp]: "(numeral n :: int) < 2 ^ 53 \<Longrightarrow> rnd s (numeral n) = Fin (numeral n)"
  using fl_numeral[of n] by (simp add: fl_def rnd_def)

lemma fl_0_1 [simp]: "fl 0 = Fin 0" "fl 1 = Fin 1"
  using fl_int[of 0] fl_int[of 1] by simp_all

lemma of_i64_abs_le: "\<bar>val (of_i64 w)\<bar> \<le> 2 ^ 63"
proof -
  have r: "representable (2 ^ 63)" using representable_pow2[of 63] by (simp add: pow2_def)
  have "\<bar>sint w\<bar> \<le> 2 ^ 63" using sint_range[of w] by simp
  then have "rat_of_int \<bar>sint w\<bar> \<le> of_int (2 ^ 63)" by (simp only: of_int_le_iff)
  then have "rat_of_int (sint w) \<le> 2 ^ 63" "- rat_of_int (sint w) \<le> 2 ^ 63" by simp_all
  then have "rne (of_int (sint w)) \<le> 2 ^ 63" "rne (- of_int (sint w)) \<le> 2 ^ 63"
    using r by (intro rne_le_representable; simp)+
  then show ?thesis by (simp add: of_i64_val)
qed

text \<open>A sum of bounded amounts never leaves a fixed bound, however many there are.\<close>

lemma add_stagnates:
  assumes "is_fin x" "is_fin y" "0 \<le> val x" "val x \<le> pow2 a" "0 \<le> val y" "val y \<le> pow2 b"
    and "b + 54 \<le> a" "0 \<le> a" "a \<le> 1023"
  shows "is_fin (x + y)" "0 \<le> val (x + y)" "val (x + y) \<le> pow2 a"
proof -
  have s: "x + y = rnd (signbit x \<and> signbit y) (val x + val y)" using assms by (simp add: add_fin)
  have u: "rne (val x + val y) \<le> pow2 a" using assms by (intro rne_stagnates[of _ a b]) auto
  have l: "0 \<le> rne (val x + val y)" using assms by (intro rne_nonneg) simp
  have "pow2 a < fbound" unfolding fbound_half using pow2_mono[of a 1023] assms(9) fbound_half(2) by linarith
  then have f: "is_fin (x + y)" using u l by (simp add: s rnd_fin_iff)
  then show "is_fin (x + y)" "0 \<le> val (x + y)" "val (x + y) \<le> pow2 a"
    using u l by (simp_all add: s rnd_val)
qed

subsection \<open>Bounds on results\<close>

definition f64_ok :: "f64 \<Rightarrow> bool" where
  \<comment> \<open>the finite values of the format\<close>
  "f64_ok x \<longleftrightarrow> is_fin x \<and> representable (val x) \<and> \<bar>val x\<bar> < fbound"

lemma rnd_between:
  assumes "representable a" "representable b" "a \<le> q" "q \<le> b" "\<bar>a\<bar> \<le> pow2 1023" "\<bar>b\<bar> \<le> pow2 1023"
  shows "is_fin (rnd s q)" "a \<le> val (rnd s q)" "val (rnd s q) \<le> b"
proof -
  have "\<bar>q\<bar> \<le> pow2 1023" using assms by linarith
  then show f: "is_fin (rnd s q)" by (rule rnd_fin_small)
  show "a \<le> val (rnd s q)" "val (rnd s q) \<le> b"
    using assms by (simp_all add: rnd_val[OF f] representable_le_rne rne_le_representable)
qed

lemma representable_0_1 [simp]: "representable 0" "representable 1"
  using representable_int[of 0] representable_int[of 1] by simp_all

lemma one_le_pow2 [simp]: "1 \<le> pow2 1023"
  using pow2_mono[of 0 1023] by simp

lemma div_le_one:
  assumes "is_fin x" "is_fin y" "0 \<le> val x" "val x \<le> val y" "0 < val y"
  shows "is_fin (x / y)" "0 \<le> val (x / y)" "val (x / y) \<le> 1"
proof -
  have "x / y = rnd (signbit x \<noteq> signbit y) (val x / val y)" using assms by (simp add: div_fin)
  moreover have "0 \<le> val x / val y" "val x / val y \<le> 1" using assms by simp_all
  ultimately show "is_fin (x / y)" "0 \<le> val (x / y)" "val (x / y) \<le> 1"
    using rnd_between[of 0 1 "val x / val y"] by simp_all
qed

lemma mul_le_left:
  assumes "is_fin x" "is_fin y" "0 \<le> val x" "0 \<le> val y" "val y \<le> 1"
    and "val x \<le> b" "representable b" "b \<le> pow2 1023"
  shows "is_fin (x * y)" "0 \<le> val (x * y)" "val (x * y) \<le> b"
proof -
  have "val x * val y \<le> val x" using assms by (simp add: mult_left_le)
  then have "val x * val y \<le> b" "0 \<le> val x * val y" "0 \<le> b" using assms by auto
  then show "is_fin (x * y)" "0 \<le> val (x * y)" "val (x * y) \<le> b"
    using assms rnd_between[of 0 b "val x * val y"] by (simp_all add: mul_fin)
qed

lemma sub_between:
  assumes "is_fin x" "is_fin y" "0 \<le> val y" "val y \<le> val x" "val x \<le> b" "representable b" "b \<le> pow2 1023"
  shows "is_fin (x - y)" "0 \<le> val (x - y)" "val (x - y) \<le> b"
  using assms rnd_between[of 0 b "val x - val y"] by (simp_all add: sub_fin)

lemma mul_pos_nonneg': "0 < x \<Longrightarrow> is_fin x \<Longrightarrow> 0 \<le> y \<Longrightarrow> 0 \<le> x * (y :: f64)"
proof (cases "is_fin y")
  case True
  then show "0 < x \<Longrightarrow> is_fin x \<Longrightarrow> 0 \<le> y \<Longrightarrow> 0 \<le> x * y"
    by (simp add: mul_nonneg zero_less_imp_le)
next
  case False
  then show "0 < x \<Longrightarrow> is_fin x \<Longrightarrow> 0 \<le> y \<Longrightarrow> 0 \<le> x * y"
    by (cases x; cases y) (auto simp: zero_le_iff zero_less_iff times_f64_def fmul_def is_zero_def)
qed

lemma mul_pos_pos_nonneg: "0 < x \<Longrightarrow> 0 < y \<Longrightarrow> 0 \<le> x * (y :: f64)"
  by (cases x; cases y)
    (auto simp: zero_le_iff[of "Inf False"] zero_less_iff times_f64_def fmul_def is_zero_def
      intro!: rnd_nonneg)

lemma le_rnd: "representable p \<Longrightarrow> p \<le> q \<Longrightarrow> rnd s q = Inf False \<or> is_fin (rnd s q) \<and> p \<le> val (rnd s q)"
  if "0 < p"
proof (cases s q rule: rnd_cases)
  case fin
  then show "representable p \<Longrightarrow> p \<le> q \<Longrightarrow> ?thesis" by (simp add: representable_le_rne)
next
  case neg
  then show "representable p \<Longrightarrow> p \<le> q \<Longrightarrow> ?thesis"
    using that rne_nonneg[of q] fbound_pos by linarith
qed simp

lemma rnd_pos: "representable p \<Longrightarrow> 0 < p \<Longrightarrow> p \<le> q \<Longrightarrow> 0 < rnd s q"
  using le_rnd[of p q s] by (auto simp: zero_less_iff)

lemma rnd_f64_ok: "is_fin (rnd s q) \<Longrightarrow> f64_ok (rnd s q)"
  by (simp add: f64_ok_def rnd_val rne_is_representable rnd_fin_iff)

lemma f64_okD: "f64_ok x \<Longrightarrow> is_fin x" "f64_ok x \<Longrightarrow> representable (val x)"
  by (simp_all add: f64_ok_def)

lemma f64_ok_0 [simp]: "f64_ok 0"
  by (simp add: f64_ok_def zero_fin representable_0_1 fbound_pos)

lemma f64_ok_numeral [simp]: "(numeral n :: int) < 2 ^ 53 \<Longrightarrow> f64_ok (Fin (numeral n))"
  using rnd_f64_ok[of False "numeral n"] rnd_numeral[of n False] by simp

lemma int_below_fbound: "\<bar>n\<bar> < 2 ^ 53 \<Longrightarrow> \<bar>rat_of_int n\<bar> < fbound"
  using fl_int[of n] rnd_f64_ok[of False "of_int n"] by (simp add: fl_def f64_ok_def)

lemma of_i64_exact: "\<bar>sint w\<bar> < 2 ^ 53 \<Longrightarrow> of_i64 w = Fin (of_int (sint w))"
  by (simp add: of_i64_def fl_int)

text \<open>Constants between two powers of two.\<close>

lemma fl_between:
  assumes "pow2 e \<le> q" "q \<le> 1" "- 1074 \<le> e"
  shows "is_fin (fl q)" "pow2 e \<le> val (fl q)" "val (fl q) \<le> 1" "0 < fl q" "f64_ok (fl q)"
proof -
  have "pow2 e \<le> pow2 1023" using order_trans[OF order_trans[OF assms(1,2)] one_le_pow2] .
  then have p: "\<bar>pow2 e\<bar> \<le> pow2 1023" using pow2_pos[of e] by simp
  have r: "representable (pow2 e)" using assms(3) by (rule representable_pow2)
  show f: "is_fin (fl q)" and b: "pow2 e \<le> val (fl q)" and "val (fl q) \<le> 1"
    using rnd_between[of "pow2 e" 1 q False, OF r _ assms(1,2) p] by (simp_all add: fl_def)
  have "0 < val (fl q)" using b pow2_pos[of e] by (rule less_le_trans[rotated])
  then show "0 < fl q" using f by (simp add: zero_less_iff)
  show "f64_ok (fl q)" using f by (simp add: fl_def rnd_f64_ok)
qed

end
