(* ===== verification/GoText.thy ===== *)
theory GoText
  imports Float64
begin

text \<open>
  The parts of Go's \<open>strings\<close>, \<open>strconv\<close>, \<open>unicode/utf8\<close> and \<open>fmt\<close> the program uses,
  on byte strings: decimal and fixed-point formatting (\<open>%d\<close>, \<open>%.nf\<close>), quoting (\<open>%q\<close>),
  column padding, prefix and suffix tests, trimming, case folding against ASCII words,
  splitting and integer parsing. \<open>%q\<close> leaves every well-formed non-ASCII rune as it is:
  Go does so for the printable ones.
\<close>

subsection \<open>Decimal integers\<close>

definition digit_char :: "int \<Rightarrow> char" where
  "digit_char d = char_of (48 + d)"

function dec_digits :: "int \<Rightarrow> gostring" where
  "dec_digits n = (if n < 10 then [digit_char n] else dec_digits (n div 10) @ [digit_char (n mod 10)])"
  by pat_completeness auto
termination by (relation "measure nat") auto

declare dec_digits.simps [simp del]

definition dec_int :: "int \<Rightarrow> gostring" where
  "dec_int n = (if n < 0 then ''-'' @ dec_digits (- n) else dec_digits n)"

text \<open>\<open>%d\<close> of an \<open>int\<close> or \<open>int64\<close>.\<close>

definition fmt_d :: "i64 \<Rightarrow> gostring" where
  "fmt_d w = dec_int (sint w)"

definition pad_zeros :: "nat \<Rightarrow> gostring \<Rightarrow> gostring" where
  "pad_zeros n s = replicate (n - length s) (CHR ''0'') @ s"

text \<open>\<open>%.nf\<close>: the exact decimal value rounded to \<open>n\<close> places, ties to even.\<close>

definition fmt_f :: "nat \<Rightarrow> f64 \<Rightarrow> gostring" where
  "fmt_f n x =
     (case x of
        NaN \<Rightarrow> ''NaN''
      | Inf s \<Rightarrow> (if s then ''-Inf'' else ''+Inf'')
      | _ \<Rightarrow>
         (let k = rhe (\<bar>val x\<bar> * 10 ^ n); whole = dec_digits (k div 10 ^ n)
          in (if signbit x then ''-'' else '''') @ whole @
             (if n = 0 then '''' else ''.'' @ pad_zeros n (dec_digits (k mod 10 ^ n)))))"

lemma dec_digits_nonempty [simp]: "dec_digits n \<noteq> []"
  by (subst dec_digits.simps) simp

lemma dec_int_nonempty [simp]: "dec_int n \<noteq> []"
  by (simp add: dec_int_def)

lemma fmt_d_nonempty [simp]: "fmt_d w \<noteq> []"
  by (simp add: fmt_d_def)

lemma fmt_f_nonempty [simp]: "fmt_f n x \<noteq> []"
  by (cases x) (auto simp: fmt_f_def Let_def)

subsection \<open>UTF-8\<close>

definition byte :: "char \<Rightarrow> int" where
  "byte c = of_char c"

definition in_range :: "int \<Rightarrow> int \<Rightarrow> char \<Rightarrow> bool" where
  "in_range lo hi c \<longleftrightarrow> lo \<le> byte c \<and> byte c \<le> hi"

text \<open>Length of the well-formed rune at the head of the string, 0 if there is none.\<close>

definition rune_len :: "gostring \<Rightarrow> nat" where
  "rune_len s =
     (case s of [] \<Rightarrow> 0
      | a # s1 \<Rightarrow>
        if byte a < 0x80 then 1 else
        (case s1 of [] \<Rightarrow> 0
         | b # s2 \<Rightarrow>
           if in_range 0xC2 0xDF a then (if in_range 0x80 0xBF b then 2 else 0) else
           (case s2 of [] \<Rightarrow> 0
            | c # s3 \<Rightarrow>
              if in_range 0xE0 0xEF a then
                (if in_range (if byte a = 0xE0 then 0xA0 else 0x80) (if byte a = 0xED then 0x9F else 0xBF) b
                    \<and> in_range 0x80 0xBF c then 3 else 0)
              else
              (case s3 of [] \<Rightarrow> 0
               | d # _ \<Rightarrow>
                 if in_range 0xF0 0xF4 a \<and>
                    in_range (if byte a = 0xF0 then 0x90 else 0x80) (if byte a = 0xF4 then 0x8F else 0xBF) b
                    \<and> in_range 0x80 0xBF c \<and> in_range 0x80 0xBF d then 4 else 0))))"

text \<open>
  The runes of a string, in order, each with its bytes; the flag is false for a byte that
  starts no well-formed rune, which Go decodes as \<open>utf8.RuneError\<close> of width 1.
\<close>

function runes :: "gostring \<Rightarrow> (bool \<times> gostring) list" where
  "runes [] = []"
| "runes (c # cs) =
     (if rune_len (c # cs) = 0 then (False, [c]) # runes cs
      else (True, take (rune_len (c # cs)) (c # cs)) # runes (drop (rune_len (c # cs) - 1) cs))"
  by pat_completeness auto
termination by (relation "measure length") auto

text \<open>\<open>string(r)\<close> of decoded runes: an ill-formed byte becomes U+FFFD.\<close>

definition rune_bytes :: "bool \<times> gostring \<Rightarrow> gostring" where
  "rune_bytes r = (if fst r then snd r else [CHR 0xEF, CHR 0xBF, CHR 0xBD])"

definition rune_count :: "gostring \<Rightarrow> nat" where
  "rune_count s = length (runes s)"

lemma runes_concat: "concat (map snd (runes s)) = s"
proof (induction s rule: runes.induct)
  case (2 c cs)
  show ?case
  proof (cases "rune_len (c # cs)")
    case 0
    then show ?thesis using 2 by simp
  next
    case (Suc k)
    then have "concat (map snd (runes (drop k cs))) = drop k cs" using "2.IH"(2) by simp
    then show ?thesis using Suc by simp
  qed
qed simp

text \<open>On ASCII strings the runes are the bytes.\<close>

lemma runes_ascii: "\<forall>c \<in> set s. byte c < 0x80 \<Longrightarrow> runes s = map (\<lambda>c. (True, [c])) s"
  by (induction s) (auto simp: rune_len_def)

subsection \<open>Quoting\<close>

definition hex_char :: "int \<Rightarrow> char" where
  "hex_char d = (if d < 10 then char_of (48 + d) else char_of (87 + d))"

definition hex_escape :: "char \<Rightarrow> gostring" where
  "hex_escape c = [CHR 0x5C, CHR ''x'', hex_char (byte c div 16), hex_char (byte c mod 16)]"

definition quote_byte :: "char \<Rightarrow> gostring" where
  "quote_byte c =
     (if c = CHR 0x22 \<or> c = CHR 0x5C then [CHR 0x5C, c]
      else if 0x20 \<le> byte c \<and> byte c < 0x7F then [c]
      else if c = CHR 0x07 then [CHR 0x5C, CHR ''a'']
      else if c = CHR 0x08 then [CHR 0x5C, CHR ''b'']
      else if c = CHR 0x0C then [CHR 0x5C, CHR ''f'']
      else if c = CHR 0x0A then [CHR 0x5C, CHR ''n'']
      else if c = CHR 0x0D then [CHR 0x5C, CHR ''r'']
      else if c = CHR 0x09 then [CHR 0x5C, CHR ''t'']
      else if c = CHR 0x0B then [CHR 0x5C, CHR ''v'']
      else hex_escape c)"

definition quote_rune :: "bool \<times> gostring \<Rightarrow> gostring" where
  "quote_rune r =
     (case snd r of [c] \<Rightarrow> if fst r then quote_byte c else hex_escape c | bs \<Rightarrow> bs)"

definition go_quote :: "gostring \<Rightarrow> gostring" where
  "go_quote s = dquote @ concat (map quote_rune (runes s)) @ dquote"

subsection \<open>Columns\<close>

definition pad_right :: "nat \<Rightarrow> gostring \<Rightarrow> gostring" where
  "pad_right n s = s @ replicate (n - rune_count s) (CHR '' '')"

definition pad_left :: "nat \<Rightarrow> gostring \<Rightarrow> gostring" where
  "pad_left n s = replicate (n - rune_count s) (CHR '' '') @ s"

subsection \<open>Prefixes, suffixes, case\<close>

definition hasPrefix :: "gostring \<Rightarrow> gostring \<Rightarrow> bool" where
  "hasPrefix s p \<longleftrightarrow> take (length p) s = p"

definition hasSuffix :: "gostring \<Rightarrow> gostring \<Rightarrow> bool" where
  "hasSuffix s p \<longleftrightarrow> length p \<le> length s \<and> drop (length s - length p) s = p"

lemma hasPrefix_prefix: "hasPrefix s p \<longleftrightarrow> prefix p s"
  unfolding hasPrefix_def prefix_def by (metis append_eq_conv_conj append_take_drop_id)

lemma hasSuffix_suffix: "hasSuffix s p \<longleftrightarrow> suffix p s"
  unfolding hasSuffix_def suffix_def
  by (metis append_eq_append_conv2 append_eq_conv_conj append_take_drop_id diff_diff_cancel
      length_append length_drop le_add2 add_diff_cancel_right')

definition ascii_lower :: "char \<Rightarrow> char" where
  "ascii_lower c = (if in_range 65 90 c then char_of (byte c + 32) else c)"

text \<open>
  \<open>strings.ToLower\<close> and \<open>strings.EqualFold\<close> as far as they matter for comparing with the
  ASCII words \<open>empty\<close> and \<open>dead\<close>: no rune outside ASCII folds to one of their letters.
\<close>

definition to_lower :: "gostring \<Rightarrow> gostring" where
  "to_lower s = map ascii_lower s"

definition equal_fold :: "gostring \<Rightarrow> gostring \<Rightarrow> bool" where
  "equal_fold s t \<longleftrightarrow> to_lower s = to_lower t"

subsection \<open>Trimming white space\<close>

definition space_tokens :: "gostring list" where
  "space_tokens =
     [[CHR 0x20], [CHR 0x09], [CHR 0x0A], [CHR 0x0B], [CHR 0x0C], [CHR 0x0D],
      [CHR 0xC2, CHR 0x85], [CHR 0xC2, CHR 0xA0], [CHR 0xE1, CHR 0x9A, CHR 0x80],
      [CHR 0xE2, CHR 0x80, CHR 0x80], [CHR 0xE2, CHR 0x80, CHR 0x81], [CHR 0xE2, CHR 0x80, CHR 0x82],
      [CHR 0xE2, CHR 0x80, CHR 0x83], [CHR 0xE2, CHR 0x80, CHR 0x84], [CHR 0xE2, CHR 0x80, CHR 0x85],
      [CHR 0xE2, CHR 0x80, CHR 0x86], [CHR 0xE2, CHR 0x80, CHR 0x87], [CHR 0xE2, CHR 0x80, CHR 0x88],
      [CHR 0xE2, CHR 0x80, CHR 0x89], [CHR 0xE2, CHR 0x80, CHR 0x8A], [CHR 0xE2, CHR 0x80, CHR 0xA8],
      [CHR 0xE2, CHR 0x80, CHR 0xA9], [CHR 0xE2, CHR 0x80, CHR 0xAF], [CHR 0xE2, CHR 0x81, CHR 0x9F],
      [CHR 0xE3, CHR 0x80, CHR 0x80]]"

function trim_tokens :: "gostring list \<Rightarrow> gostring \<Rightarrow> gostring" where
  "trim_tokens toks s =
     (case find (\<lambda>t. t \<noteq> [] \<and> hasPrefix s t) toks of
        None \<Rightarrow> s
      | Some t \<Rightarrow> trim_tokens toks (drop (length t) s))"
  by pat_completeness auto
termination
proof (relation "measure (\<lambda>(toks, s). length s)")
  fix toks s t
  assume "find (\<lambda>t. t \<noteq> [] \<and> hasPrefix s t) toks = Some t"
  then have "t \<noteq> []" "prefix t s" by (auto simp: find_Some_iff hasPrefix_prefix)
  then have "0 < length t" "length t \<le> length s" by (auto dest: prefix_length_le)
  then have "length s - length t < length s" by linarith
  then show "((toks, drop (length t) s), toks, s) \<in> measure (\<lambda>(toks, s). length s)" by simp
qed simp

declare trim_tokens.simps [simp del]

definition trim_space :: "gostring \<Rightarrow> gostring" where
  "trim_space s = rev (trim_tokens (map rev space_tokens) (rev (trim_tokens space_tokens s)))"

subsection \<open>Splitting and parsing\<close>

text \<open>\<open>strings.Split(s, sep)\<close> for a one-byte separator: always at least one part.\<close>

fun split_on :: "char \<Rightarrow> gostring \<Rightarrow> gostring list" where
  "split_on sep [] = [[]]"
| "split_on sep (c # cs) =
     (if c = sep then [] # split_on sep cs
      else (case split_on sep cs of [] \<Rightarrow> [[c]] | p # ps \<Rightarrow> (c # p) # ps))"

fun parse_digits :: "int \<Rightarrow> gostring \<Rightarrow> int option" where
  "parse_digits n [] = Some n"
| "parse_digits n (c # cs) =
     (if in_range 48 57 c then parse_digits (10 * n + (byte c - 48)) cs else None)"

text \<open>\<open>strconv.ParseInt(s, 10, 64)\<close>: \<^const>\<open>None\<close> for a syntax or range error.\<close>

definition parse_int :: "gostring \<Rightarrow> i64 option" where
  "parse_int s =
     (let (negative, ds) = (case s of c # cs \<Rightarrow> if c = CHR ''-'' then (True, cs)
                                             else if c = CHR ''+'' then (False, cs) else (False, s)
                                   | [] \<Rightarrow> (False, s))
      in if ds = [] then None
         else case parse_digits 0 ds of
                None \<Rightarrow> None
              | Some n \<Rightarrow>
                  (let k = (if negative then - n else n)
                   in if - (2 ^ 63) \<le> k \<and> k < 2 ^ 63 then Some (word_of_int k) else None))"

end
