(* ===== verification/Cost.thy ===== *)
theory Cost
  imports GoText
begin

text \<open>
  Package \<open>internal/cost\<close> (\<open>cost.go\<close>): the cost model, the derivation of unit prices
  (\<open>Resolve\<close>) and the allocation of the monthly cost to topics (\<open>Allocate\<close>).
\<close>

subsection \<open>Data\<close>

record weights =
  Storage :: f64
  Throughput :: f64
  Partition :: f64

record costModel =
  cm_Provider :: gostring
  cm_MonthlyCostEUR :: f64
  cm_StorageEURPerGBMo :: f64
  cm_NetworkEURPerGB :: f64
  cm_Weights :: weights

record unitPrices =
  StorageEURPerGBMo :: f64
  StorageBasis :: gostring
  NetworkEURPerGB :: f64
  NetworkBasis :: gostring

record topicCostInput =
  in_Name :: gostring
  in_RetainedBytes :: i64
  in_BytesInPerSec :: f64
  in_BytesOutPerSec :: f64
  in_Partitions :: i64

record topicCost =
  tc_Name :: gostring
  tc_EUR :: f64
  tc_Basis :: gostring

definition bytesPerGB :: f64 where
  "bytesPerGB = fl 1000000000"

definition secondsPerMonth :: f64 where
  "secondsPerMonth = fl (30 * 24 * 3600)"

definition defaultWeights :: weights where
  "defaultWeights = \<lparr>Storage = fl (40 / 100), Throughput = fl (40 / 100), Partition = fl (20 / 100)\<rparr>"

text \<open>\<open>w == (Weights{})\<close>: the zero struct.\<close>

definition weights_unset :: "weights \<Rightarrow> bool" where
  "weights_unset w \<longleftrightarrow> feq (Storage w) 0 \<and> feq (Throughput w) 0 \<and> feq (Partition w) 0"

definition effective_weights :: "costModel \<Rightarrow> weights" where
  "effective_weights m = (if weights_unset (cm_Weights m) then defaultWeights else cm_Weights m)"

subsection \<open>Unit prices\<close>

definition providerPreset :: "gostring \<Rightarrow> f64 \<times> f64" where
  "providerPreset provider =
     (if provider = ''confluent'' then (fl (12 / 100), fl (4 / 100))
      else if provider = ''msk'' then (fl (11 / 100), fl (2 / 100))
      else (fl (8 / 100), fl (1 / 100)))"

definition providerLabel :: "gostring \<Rightarrow> gostring" where
  "providerLabel p = (if p = '''' then ''self-hosted'' else p)"

definition resolve :: "costModel \<Rightarrow> i64 \<Rightarrow> unitPrices" where
  "resolve m totalRetainedBytes =
     (let w = effective_weights m;
          (presetStorage, presetNetwork) = providerPreset (cm_Provider m);
          (storage, storageBasis) =
            (if 0 < cm_StorageEURPerGBMo m
             then (cm_StorageEURPerGBMo m,
                   ''configured ('' @ fmt_f 4 (cm_StorageEURPerGBMo m) @ '' '' @ utf_euro @ ''/GB-mo)'')
             else if 0 < cm_MonthlyCostEUR m \<and> 0 <s totalRetainedBytes
             then (let totalGB = of_i64 totalRetainedBytes / bytesPerGB;
                       storagePortion = cm_MonthlyCostEUR m * Storage w
                   in (storagePortion / totalGB,
                       ''derived: '' @ fmt_f 0 (cm_MonthlyCostEUR m) @ utf_euro @ ''/mo '' @ utf_times @ '' '' @
                       fmt_f 0 (Storage w * fl 100) @ ''% storage weight '' @ utf_divide @ '' '' @
                       fmt_f 1 totalGB @ '' GB retained''))
             else (presetStorage,
                   ''assumed: '' @ providerLabel (cm_Provider m) @ '' preset ('' @ fmt_f 4 presetStorage @ '' '' @
                   utf_euro @ ''/GB-mo) '' @ utf_emdash @ '' give --cost for a derived rate''));
          (network, networkBasis) =
            (if 0 < cm_NetworkEURPerGB m
             then (cm_NetworkEURPerGB m,
                   ''configured ('' @ fmt_f 4 (cm_NetworkEURPerGB m) @ '' '' @ utf_euro @ ''/GB)'')
             else (presetNetwork,
                   ''assumed: '' @ providerLabel (cm_Provider m) @ '' preset ('' @ fmt_f 4 presetNetwork @ '' '' @
                   utf_euro @ ''/GB)''))
      in \<lparr>StorageEURPerGBMo = storage, StorageBasis = storageBasis,
          NetworkEURPerGB = network, NetworkBasis = networkBasis\<rparr>)"

definition monthlyGB :: "f64 \<Rightarrow> f64" where
  "monthlyGB bytesPerSec = bytesPerSec * secondsPerMonth / bytesPerGB"

subsection \<open>Allocation\<close>

definition alloc_totals :: "topicCostInput list \<Rightarrow> f64 \<times> f64 \<times> i64" where
  "alloc_totals topics =
     fold (\<lambda>t (totBytes, totThru, totParts).
             (totBytes + of_i64 (in_RetainedBytes t),
              totThru + (in_BytesInPerSec t + in_BytesOutPerSec t),
              totParts + in_Partitions t))
       topics (0, 0, 0)"

definition weightedShare :: "weights \<Rightarrow> topicCostInput \<Rightarrow> f64 \<Rightarrow> f64 \<Rightarrow> i64 \<Rightarrow> f64" where
  "weightedShare w t totBytes totThru totParts =
     (let s0 = 0;
          s1 = (if 0 < totBytes then s0 + Storage w * (of_i64 (in_RetainedBytes t) / totBytes) else s0);
          s2 = (if 0 < totThru
                then s1 + Throughput w * ((in_BytesInPerSec t + in_BytesOutPerSec t) / totThru) else s1);
          s3 = (if 0 <s totParts
                then s2 + Partition w * (of_i64 (in_Partitions t) / of_i64 totParts) else s2)
      in s3)"

definition allocate_one :: "costModel \<Rightarrow> weights \<Rightarrow> f64 \<times> f64 \<times> i64 \<Rightarrow> topicCostInput \<Rightarrow> topicCost" where
  "allocate_one m w totals t =
     (case totals of (totBytes, totThru, totParts) \<Rightarrow>
       if cm_MonthlyCostEUR m \<le> 0
       then \<lparr>tc_Name = in_Name t, tc_EUR = 0,
             tc_Basis = ''no cluster cost given '' @ utf_emdash @ '' set --cost to allocate''\<rparr>
       else \<lparr>tc_Name = in_Name t,
             tc_EUR = cm_MonthlyCostEUR m * weightedShare w t totBytes totThru totParts,
             tc_Basis = ''allocated from '' @ fmt_f 0 (cm_MonthlyCostEUR m) @ utf_euro @ ''/mo using '' @
               fmt_f 0 (Storage w * fl 100) @ ''/'' @ fmt_f 0 (Throughput w * fl 100) @ ''/'' @
               fmt_f 0 (Partition w * fl 100) @ '' weights''\<rparr>)"

definition allocate :: "costModel \<Rightarrow> topicCostInput list \<Rightarrow> topicCost list" where
  "allocate m topics = map (allocate_one m (effective_weights m) (alloc_totals topics)) topics"

subsection \<open>Prices from a cost model\<close>

text \<open>Prices as the rules can use them: finite, the storage price not negative, the network
  price positive.\<close>

definition prices_ok :: "unitPrices \<Rightarrow> bool" where
  "prices_ok p \<longleftrightarrow> is_fin (StorageEURPerGBMo p) \<and> 0 \<le> StorageEURPerGBMo p \<and>
     f64_ok (NetworkEURPerGB p) \<and> 0 < NetworkEURPerGB p"

lemma prices_okD:
  assumes "prices_ok p"
  shows "is_fin (StorageEURPerGBMo p)" "0 \<le> StorageEURPerGBMo p"
    "is_fin (NetworkEURPerGB p)" "0 < NetworkEURPerGB p"
  using assms by (simp_all add: prices_ok_def f64_ok_def)



text \<open>A cost model as the command line builds it: finite numbers, default weights.\<close>

definition model_ok :: "costModel \<Rightarrow> bool" where
  "model_ok cm \<longleftrightarrow> is_fin (cm_MonthlyCostEUR cm) \<and> val (cm_MonthlyCostEUR cm) \<le> pow2 900 \<and>
     is_fin (cm_StorageEURPerGBMo cm) \<and> f64_ok (cm_NetworkEURPerGB cm) \<and>
     effective_weights cm = defaultWeights"

lemma weight_bounds:
  "is_fin (Storage defaultWeights)" "0 < val (Storage defaultWeights)" "val (Storage defaultWeights) \<le> 1"
  "is_fin (Throughput defaultWeights)" "0 < val (Throughput defaultWeights)" "val (Throughput defaultWeights) \<le> 1"
  "is_fin (Partition defaultWeights)" "0 < val (Partition defaultWeights)" "val (Partition defaultWeights) \<le> 1"
  using fl_between[of "- 2" "40 / 100"] fl_between[of "- 3" "20 / 100"]
  by (simp_all add: defaultWeights_def pow2_def)

lemma preset_ok:
  "is_fin (fst (providerPreset p))" "0 < fst (providerPreset p)"
  "f64_ok (snd (providerPreset p))" "0 < snd (providerPreset p)"
  using fl_between[of "- 4" "12 / 100"] fl_between[of "- 4" "11 / 100"] fl_between[of "- 4" "8 / 100"]
    fl_between[of "- 5" "4 / 100"] fl_between[of "- 6" "2 / 100"] fl_between[of "- 7" "1 / 100"]
  by (auto simp: providerPreset_def pow2_def)

lemma derived_rate_ok:
  assumes "is_fin c" "0 < c" "val c \<le> pow2 900" "is_fin w" "0 < val w" "val w \<le> 1" "0 < sint n"
  shows "is_fin (c * w / (of_i64 n / fl 1000000000))" "0 \<le> c * w / (of_i64 n / fl 1000000000)"
proof -
  let ?t = "of_i64 n / fl 1000000000" and ?cw = "c * w"
  have one: "1 \<le> val (of_i64 n)"
    using of_i64_mono[of 1 n] assms(7) by (simp add: of_i64_def[of 1] le_fin)
  have r: "representable (pow2 (- 30))" "representable (pow2 63)" by (rule representable_pow2; simp)+
  have b: "pow2 63 \<le> pow2 1023" "pow2 (- 30) \<le> pow2 1023" by (rule pow2_mono; simp)+
  have q: "pow2 (- 30) \<le> val (of_i64 n) / 1000000000"
    using one by (simp add: pow2_def field_simps)
  have q2: "val (of_i64 n) / 1000000000 \<le> pow2 63"
    using of_i64_abs_le[of n] by (simp add: pow2_def)
  have t: "is_fin ?t" "pow2 (- 30) \<le> val ?t"
    using rnd_between[OF r q q2, of "signbit (of_i64 n)"] b by (simp_all add: div_fin)
  have c0: "0 \<le> val c" using assms(1,2) by (simp add: zero_less_iff)
  have cw: "is_fin ?cw" "0 \<le> val ?cw" "val ?cw \<le> pow2 900"
    using mul_le_left[OF assms(1,4) c0 _ assms(6,3)] assms(5) representable_pow2[of 900] pow2_mono[of 900 1023]
    by simp_all
  have tpos: "0 < val ?t" using t(2) pow2_pos[of "- 30"] by linarith
  have "val ?cw / val ?t \<le> pow2 900 / pow2 (- 30)"
    using cw t(2) tpos by (intro frac_le) auto
  also have "\<dots> = pow2 930" by (simp flip: pow2_diff)
  finally have d: "val ?cw / val ?t \<le> pow2 930" .
  have "representable (pow2 930)" "pow2 930 \<le> pow2 1023"
    by (rule representable_pow2, simp, rule pow2_mono, simp)
  then show "is_fin (c * w / ?t)" "0 \<le> c * w / ?t"
    using rnd_between[of 0 "pow2 930" "val ?cw / val ?t"] cw t(1) tpos d
    by (simp_all add: div_fin le_fin)
qed

lemma resolve_prices_ok:
  assumes "model_ok cm"
  shows "prices_ok (resolve cm n)"
proof -
  have m: "is_fin (cm_MonthlyCostEUR cm)" "val (cm_MonthlyCostEUR cm) \<le> pow2 900"
    "is_fin (cm_StorageEURPerGBMo cm)" "f64_ok (cm_NetworkEURPerGB cm)"
    "effective_weights cm = defaultWeights" using assms by (auto simp: model_ok_def)
  note d = derived_rate_ok[OF m(1) _ m(2) weight_bounds(1-3)]
  show ?thesis
    using m(3,4) preset_ok[of "cm_Provider cm"] d[of n] zero_less_imp_le
    by (auto simp: prices_ok_def resolve_def m(5) Let_def bytesPerGB_def signed_cmp
        split: prod.splits)
qed


end
