(* ===== verification/GoRegexp.thy ===== *)
theory GoRegexp
  imports GoText
begin

text \<open>
  Matching of Go's \<open>regexp\<close> on the bytes of the subject: classes of bytes, the assertions on a
  position, sequence, alternation and repetition. A compiled pattern is a program together
  with its source (\<open>Regexp.String\<close>). The other operators are abbreviations of these as far as
  whether there is a match goes (\<open>x+\<close> is \<open>xx*\<close>, \<open>x?\<close> is \<open>x|\<close>, a counted repetition is a sequence,
  greediness does not matter), and a class of runes is an alternation of sequences of bytes, on
  subjects that are valid UTF-8. Case-insensitive literals carry the Unicode simple folds of
  their letters (\<open>s\<close> also matches U+017F, \<open>k\<close> U+212A).
\<close>

datatype re =
  ReEmpty
| ReClass "char list"
| ReBegin \<comment> \<open>\<open>\A\<close>, and \<open>^\<close> outside \<open>(?m)\<close>\<close>
| ReEnd \<comment> \<open>\<open>\z\<close>, and \<open>$\<close> outside \<open>(?m)\<close>\<close>
| ReBeginLine
| ReEndLine
| ReWordBoundary bool \<comment> \<open>\<open>\b\<close>, or with False \<open>\B\<close>\<close>
| ReSeq re re
| ReAlt re re
| ReStar re

record regexp =
  re_source :: gostring
  re_prog :: re

definition word_at :: "gostring \<Rightarrow> nat \<Rightarrow> bool" where
  "word_at s i \<longleftrightarrow> i < length s \<and>
     (in_range 48 57 (s ! i) \<or> in_range 65 90 (s ! i) \<or> in_range 97 122 (s ! i) \<or> s ! i = CHR ''_'')"

definition word_boundary :: "gostring \<Rightarrow> nat \<Rightarrow> bool" where
  "word_boundary s i \<longleftrightarrow> (0 < i \<and> word_at s (i - 1)) \<noteq> word_at s i"

text \<open>The positions after any number of steps; a step that stays in place adds nothing, so as
  many steps as there are positions left are enough.\<close>

fun star_ends :: "(nat \<Rightarrow> nat list) \<Rightarrow> nat \<Rightarrow> nat \<Rightarrow> nat list" where
  "star_ends f 0 i = [i]"
| "star_ends f (Suc n) i = i # concat (map (star_ends f n) (filter (\<lambda>j. i < j) (f i)))"

text \<open>The positions at which a match starting at position \<open>i\<close> of \<open>s\<close> can end.\<close>

fun re_ends :: "re \<Rightarrow> gostring \<Rightarrow> nat \<Rightarrow> nat list" where
  "re_ends ReEmpty s i = [i]"
| "re_ends (ReClass cs) s i = (if i < length s \<and> s ! i \<in> set cs then [Suc i] else [])"
| "re_ends ReBegin s i = (if i = 0 then [i] else [])"
| "re_ends ReEnd s i = (if i = length s then [i] else [])"
| "re_ends ReBeginLine s i = (if i = 0 \<or> s ! (i - 1) = CHR 0x0A then [i] else [])"
| "re_ends ReEndLine s i = (if i = length s \<or> s ! i = CHR 0x0A then [i] else [])"
| "re_ends (ReWordBoundary b) s i = (if word_boundary s i = b then [i] else [])"
| "re_ends (ReSeq r1 r2) s i = concat (map (re_ends r2 s) (re_ends r1 s i))"
| "re_ends (ReAlt r1 r2) s i = re_ends r1 s i @ re_ends r2 s i"
| "re_ends (ReStar r) s i = star_ends (re_ends r s) (length s - i) i"

text \<open>\<open>Regexp.MatchString\<close>: an unanchored search.\<close>

definition matchString :: "regexp \<Rightarrow> gostring \<Rightarrow> bool" where
  "matchString r s \<longleftrightarrow> list_ex (\<lambda>i. re_ends (re_prog r) s i \<noteq> []) [0..<Suc (length s)]"

fun re_lit :: "gostring \<Rightarrow> re" where
  "re_lit [] = ReEmpty"
| "re_lit (c # cs) = ReSeq (ReClass [c]) (re_lit cs)"

definition fold_char :: "char \<Rightarrow> re" where
  "fold_char c =
     (let both = ReClass [c, char_of (byte c - 32)]
      in if c = CHR ''s'' then ReAlt both (re_lit [CHR 0xC5, CHR 0xBF])
         else if c = CHR ''k'' then ReAlt both (re_lit [CHR 0xE2, CHR 0x84, CHR 0xAA])
         else both)"

text \<open>A lower-case literal under \<open>(?i)\<close>.\<close>

fun re_fold_lit :: "gostring \<Rightarrow> re" where
  "re_fold_lit [] = ReEmpty"
| "re_fold_lit (c # cs) = ReSeq (fold_char c) (re_fold_lit cs)"

fun re_alts :: "re list \<Rightarrow> re" where
  "re_alts [] = ReClass []"
| "re_alts [r] = r"
| "re_alts (r # rs) = ReAlt r (re_alts rs)"

subsection \<open>The language of a pattern without assertions\<close>

fun anchor_free :: "re \<Rightarrow> bool" where
  "anchor_free ReEmpty = True"
| "anchor_free (ReClass cs) = True"
| "anchor_free (ReSeq r1 r2) = (anchor_free r1 \<and> anchor_free r2)"
| "anchor_free (ReAlt r1 r2) = (anchor_free r1 \<and> anchor_free r2)"
| "anchor_free (ReStar r) = anchor_free r"
| "anchor_free r = False"

fun re_lang :: "re \<Rightarrow> gostring set" where
  "re_lang ReEmpty = {[]}"
| "re_lang (ReClass cs) = (\<lambda>c. [c]) ` set cs"
| "re_lang (ReSeq r1 r2) = {v @ w | v w. v \<in> re_lang r1 \<and> w \<in> re_lang r2}"
| "re_lang (ReAlt r1 r2) = re_lang r1 \<union> re_lang r2"
| "re_lang (ReStar r) = {concat vs | vs. set vs \<subseteq> re_lang r}"
| "re_lang r = {}"

lemma prefix_append_iff: "prefix (v @ w) s \<longleftrightarrow> prefix v s \<and> prefix w (drop (length v) s)"
  by (auto simp: prefix_def)

lemma bex_append: "(\<exists>u \<in> {v @ w | v w. v \<in> A \<and> w \<in> B}. P u) \<longleftrightarrow> (\<exists>v \<in> A. \<exists>w \<in> B. P (v @ w))"
  by blast

lemma star_ends_words:
  assumes f: "\<And>i j. i \<le> length s \<Longrightarrow> j \<in> set (f i) \<longleftrightarrow> (\<exists>v \<in> A. prefix v (drop i s) \<and> j = i + length v)"
    and "i \<le> length s" "length s - i \<le> n"
  shows "j \<in> set (star_ends f n i) \<longleftrightarrow> (\<exists>vs. set vs \<subseteq> A \<and> prefix (concat vs) (drop i s) \<and> j = i + length (concat vs))"
  using assms(2,3)
proof (induction n arbitrary: i)
  case 0
  then have "drop i s = []" by simp
  then show ?case by (auto intro: exI[of _ "[]"])
next
  case (Suc n)
  have app: "prefix (v @ w) (drop i s) \<longleftrightarrow> prefix v (drop i s) \<and> prefix w (drop (i + length v) s)" for v w
    by (simp add: prefix_append_iff add.commute)
  have len: "prefix v (drop i s) \<Longrightarrow> i + length v \<le> length s" for v
    using prefix_length_le[of v "drop i s"] Suc.prems(1) by simp
  have IH: "j \<in> set (star_ends f n (i + length v)) \<longleftrightarrow>
      (\<exists>vs. set vs \<subseteq> A \<and> prefix (concat vs) (drop (i + length v) s) \<and> j = i + length v + length (concat vs))"
    if "prefix v (drop i s)" "v \<noteq> []" for v
    using len[OF that(1)] that(2) Suc.prems(2) by (intro Suc.IH) (cases v; simp)+
  show ?case
  proof
    assume "j \<in> set (star_ends f (Suc n) i)"
    then consider "j = i" | k where "k \<in> set (f i)" "i < k" "j \<in> set (star_ends f n k)" by auto
    then show "\<exists>vs. set vs \<subseteq> A \<and> prefix (concat vs) (drop i s) \<and> j = i + length (concat vs)"
    proof cases
      case 1
      then show ?thesis by (intro exI[of _ "[]"]) simp
    next
      case 2
      obtain v where v: "v \<in> A" "prefix v (drop i s)" "k = i + length v" using f[OF Suc.prems(1)] 2(1) by blast
      then have "v \<noteq> []" using 2(2) by auto
      then obtain vs where "set vs \<subseteq> A" "prefix (concat vs) (drop (i + length v) s)" "j = i + length v + length (concat vs)"
        using IH[OF v(2)] 2(3) v(3) by blast
      then show ?thesis using v app by (intro exI[of _ "v # vs"]) simp
    qed
  next
    assume "\<exists>vs. set vs \<subseteq> A \<and> prefix (concat vs) (drop i s) \<and> j = i + length (concat vs)"
    then obtain vs where vs: "set vs \<subseteq> A" "prefix (concat vs) (drop i s)" "j = i + length (concat vs)" by blast
    then show "j \<in> set (star_ends f (Suc n) i)"
    proof (induction vs)
      case (Cons v vs)
      show ?case
      proof (cases "v = []")
        case False
        have p: "prefix v (drop i s)" "prefix (concat vs) (drop (i + length v) s)" using Cons.prems(2) app by auto
        have "j \<in> set (star_ends f n (i + length v))"
          using IH[OF p(1) False] Cons.prems p(2) by (auto intro!: exI[of _ vs])
        moreover have "i + length v \<in> set (f i)" using f[OF Suc.prems(1)] p(1) Cons.prems(1) by auto
        ultimately show ?thesis using False by (auto intro!: bexI[of _ "i + length v"])
      qed (use Cons in simp)
    qed simp
  qed
qed

lemma re_ends_lang:
  "anchor_free r \<Longrightarrow> i \<le> length s \<Longrightarrow>
   j \<in> set (re_ends r s i) \<longleftrightarrow> (\<exists>v \<in> re_lang r. prefix v (drop i s) \<and> j = i + length v)"
proof (induction r arbitrary: i j)
  case (ReClass cs)
  show ?case
  proof (cases "i < length s")
    case True
    then have "drop i s = s ! i # drop (Suc i) s" by (rule Cons_nth_drop_Suc[symmetric])
    with True show ?thesis by auto
  qed (use ReClass in auto)
next
  case (ReSeq r1 r2)
  have len: "prefix v (drop i s) \<Longrightarrow> i + length v \<le> length s" for v
    using prefix_length_le[of v "drop i s"] ReSeq.prems(2) by simp
  have app: "prefix (v @ w) (drop i s) \<longleftrightarrow> prefix v (drop i s) \<and> prefix w (drop (i + length v) s)" for v w
    by (simp add: prefix_append_iff add.commute)
  have "j \<in> set (re_ends (ReSeq r1 r2) s i) \<longleftrightarrow> (\<exists>v \<in> re_lang r1. prefix v (drop i s) \<and> j \<in> set (re_ends r2 s (i + length v)))"
    using ReSeq.IH(1)[OF _ ReSeq.prems(2)] ReSeq.prems(1) by auto
  also have "\<dots> \<longleftrightarrow> (\<exists>v \<in> re_lang r1. prefix v (drop i s) \<and>
      (\<exists>w \<in> re_lang r2. prefix w (drop (i + length v) s) \<and> j = i + length v + length w))"
    using ReSeq.IH(2) ReSeq.prems(1) len by auto
  also have "\<dots> \<longleftrightarrow> (\<exists>u \<in> re_lang (ReSeq r1 r2). prefix u (drop i s) \<and> j = i + length u)"
    unfolding re_lang.simps bex_append by (auto simp: app add.assoc)
  finally show ?case .
next
  case (ReStar r)
  have "j' \<in> set (re_ends r s i') \<longleftrightarrow> (\<exists>v \<in> re_lang r. prefix v (drop i' s) \<and> j' = i' + length v)" if "i' \<le> length s" for i' j'
    using ReStar.IH that ReStar.prems(1) by simp
  from star_ends_words[of s "re_ends r s" "re_lang r", OF this ReStar.prems(2)] show ?case by auto
qed auto

lemma re_alts_anchor_free: "\<forall>r \<in> set rs. anchor_free r \<Longrightarrow> anchor_free (re_alts rs)"
  by (induction rs rule: re_alts.induct) auto

lemma re_lang_alts: "re_lang (re_alts rs) = (\<Union>r \<in> set rs. re_lang r)"
  by (induction rs rule: re_alts.induct) auto

lemma re_lit_anchor_free [simp]: "anchor_free (re_lit s)"
  by (induction s) auto

lemma re_fold_lit_anchor_free [simp]: "anchor_free (re_fold_lit s)"
  by (induction s) (auto simp: fold_char_def Let_def)

end
