(* ===== verification/FloatTextFacts.thy ===== *)
theory FloatTextFacts
  imports GoFloatText
begin

text \<open>
  Printing a finite \<open>float64\<close> and parsing the text gives the number back. The steps: the
  decimal digits of an integer read back; seventeen digits identify a number, so a shortest
  decimal exists; both layouts of its digits denote the same scaled number.
\<close>

subsection \<open>Decimal digits read back\<close>

definition digits :: "gostring \<Rightarrow> bool" where
  "digits s \<longleftrightarrow> list_all (in_range 48 57) s"

definition num_of :: "int \<Rightarrow> gostring \<Rightarrow> int" where
  "num_of n s = fold (\<lambda>c n. 10 * n + (byte c - 48)) s n"

lemma digits_simps [simp]: "digits []" "digits (c # s) \<longleftrightarrow> in_range 48 57 c \<and> digits s"
  "digits (s @ t) \<longleftrightarrow> digits s \<and> digits t"
  by (auto simp: digits_def)

lemma num_of_simps [simp]: "num_of n [] = n" "num_of n (c # s) = num_of (10 * n + (byte c - 48)) s"
  "num_of n (s @ t) = num_of (num_of n s) t"
  by (simp_all add: num_of_def)

lemma num_of_shift: "num_of n s = n * 10 ^ length s + num_of 0 s"
proof (induction s arbitrary: n)
  case (Cons c s)
  show ?case using Cons[of "10 * n + (byte c - 48)"] Cons[of "byte c - 48"] by (simp add: algebra_simps)
qed simp

lemma num_of_nonneg: "digits s \<Longrightarrow> 0 \<le> num_of 0 s"
proof (induction s rule: rev_induct)
  case (snoc c s)
  then show ?case by (simp add: in_range_def)
qed simp

lemma byte_digit_char: "0 \<le> d \<Longrightarrow> d < 10 \<Longrightarrow> byte (digit_char d) = 48 + d"
  by (simp add: byte_def digit_char_def)

lemma digits_dec_digits [simp]: "0 \<le> n \<Longrightarrow> digits (dec_digits n)"
proof (induction n rule: dec_digits.induct)
  case (1 n)
  then show ?case by (subst dec_digits.simps) (auto simp: in_range_def byte_digit_char)
qed

lemma num_of_dec_digits [simp]: "0 \<le> n \<Longrightarrow> num_of 0 (dec_digits n) = n"
proof (induction n rule: dec_digits.induct)
  case (1 n)
  then show ?case by (subst dec_digits.simps) (auto simp: byte_digit_char)
qed

lemma dec_digits_length: "0 < n \<Longrightarrow> 10 ^ (length (dec_digits n) - 1) \<le> n \<and> n < 10 ^ length (dec_digits n)"
proof (induction n rule: dec_digits.induct)
  case (1 n)
  show ?case
  proof (cases "n < 10")
    case True
    then have "dec_digits n = [digit_char n]" by (simp add: dec_digits.simps)
    then show ?thesis using True 1 by simp
  next
    case False
    let ?l = "length (dec_digits (n div 10))"
    have ih: "10 ^ (?l - 1) \<le> n div 10" "n div 10 < 10 ^ ?l" using 1 False by auto
    have l: "length (dec_digits n) = Suc ?l" using False by (subst dec_digits.simps) simp
    have "10 ^ ?l = 10 * (10 :: int) ^ (?l - 1)"
      by (metis Suc_diff_1 dec_digits_nonempty length_greater_0_conv power_Suc)
    then have "10 ^ ?l \<le> n" using ih(1) by linarith
    moreover have "n < 10 * 10 ^ ?l" using ih(2) by linarith
    ultimately show ?thesis using l by simp
  qed
qed

lemma parse_digits_eq: "digits s \<Longrightarrow> parse_digits n s = Some (num_of n s)"
  by (induction s arbitrary: n) (auto simp: algebra_simps)


subsection \<open>The decimal exponent\<close>

lemma length_dec_digits_pos [simp]: "0 < length (dec_digits n)"
  by simp

lemma ilog10_bounds:
  assumes "0 < q"
  shows "pow10 (ilog10 q) \<le> q \<and> q < pow10 (ilog10 q + 1)"
proof (cases "1 \<le> q")
  case True
  let ?l = "length (dec_digits \<lfloor>q\<rfloor>)"
  have "0 < \<lfloor>q\<rfloor>" using True by simp
  from dec_digits_length[OF this] have b: "10 ^ (?l - 1) \<le> \<lfloor>q\<rfloor>" "\<lfloor>q\<rfloor> < 10 ^ ?l" by auto
  have k: "ilog10 q = int (?l - 1)" using True length_dec_digits_pos[of "\<lfloor>q\<rfloor>"]
    by (simp add: ilog10_def of_nat_diff del: length_dec_digits_pos length_greater_0_conv)
  have k1: "int (?l - 1) + 1 = int ?l" using length_dec_digits_pos[of "\<lfloor>q\<rfloor>"]
    by (simp add: of_nat_diff del: length_dec_digits_pos length_greater_0_conv)
  have "rat_of_int (10 ^ (?l - 1)) \<le> q" using b(1) by (simp only: le_floor_iff)
  moreover have "q < rat_of_int (10 ^ ?l)" using b(2) by (simp only: floor_less_iff)
  moreover have "pow10 (ilog10 q) = 10 ^ (?l - 1)" "pow10 (ilog10 q + 1) = 10 ^ ?l"
    by (simp_all only: k k1 pow10_nat)
  ultimately show ?thesis by simp
next
  case False
  let ?n = "\<lceil>1 / q\<rceil> - 1" and ?l = "length (dec_digits (\<lceil>1 / q\<rceil> - 1))"
  have "1 < 1 / q" using False assms by (simp add: field_simps)
  then have "0 < ?n" by (simp add: less_ceiling_iff)
  from dec_digits_length[OF this] have b: "10 ^ (?l - 1) \<le> ?n" "?n < 10 ^ ?l" by auto
  have k: "ilog10 q = - int ?l" using False by (simp add: ilog10_def)
  have "\<lceil>1 / q\<rceil> \<le> 10 ^ ?l" using b(2) by simp
  then have "1 / q \<le> rat_of_int (10 ^ ?l)" by (simp only: ceiling_le_iff)
  then have up: "1 \<le> q * 10 ^ ?l" using assms by (simp add: field_simps)
  have "10 ^ (?l - 1) < \<lceil>1 / q\<rceil>" using b(1) by simp
  then have "rat_of_int (10 ^ (?l - 1)) < 1 / q" by (simp only: less_ceiling_iff)
  then have lo: "q * 10 ^ (?l - 1) < 1" using assms by (simp add: field_simps)
  have "pow10 (- int ?l) = 1 / 10 ^ ?l" by (simp add: pow10_def)
  moreover have "pow10 (- int ?l + 1) = 1 / 10 ^ (?l - 1)"
  proof -
    have eq: "- int ?l + 1 = - int (?l - 1)" using length_dec_digits_pos[of ?n]
      by (simp add: of_nat_diff del: length_dec_digits_pos length_greater_0_conv)
    show ?thesis by (simp only: eq) (simp add: pow10_def nat_diff_distrib)
  qed
  moreover have "1 / 10 ^ ?l \<le> q" using up by (simp only: pos_divide_le_eq zero_less_power zero_less_numeral)
  moreover have "q < 1 / 10 ^ (?l - 1)" using lo by (simp only: pos_less_divide_eq zero_less_power zero_less_numeral)
  ultimately show ?thesis unfolding k by simp
qed

lemma ilog10_range:
  assumes "pow2 (- 1074) \<le> q" "q < fbound"
  shows "- 324 \<le> ilog10 q" "ilog10 q \<le> 308"
proof -
  have "0 < q" using assms(1) pow2_pos[of "- 1074"] by linarith
  then have b: "pow10 (ilog10 q) \<le> q" "q < pow10 (ilog10 q + 1)" using ilog10_bounds by auto
  have "pow10 (- 324) < pow2 (- 1074)" by (simp add: pow10_def pow2_def)
  then have "pow10 (- 324) < pow10 (ilog10 q + 1)" using b(2) assms(1) by linarith
  then show "- 324 \<le> ilog10 q" by (simp add: pow10_less_iff)
  have "fbound < pow10 309" by (simp add: pow10_def fbound_def)
  then have "pow10 (ilog10 q) < pow10 309" using b(1) assms(2) by linarith
  then show "ilog10 q \<le> 308" by (simp add: pow10_less_iff)
qed

lemma pow2_52: "pow2 52 = of_int (2 ^ 52)"
  by (simp add: pow2_def)

subsection \<open>Seventeen digits identify a number\<close>

lemma representable_split:
  assumes "representable q" "0 < q"
  shows "\<exists>n. q = of_int n * pow2 (fexp q) \<and> 0 < n \<and> n < 2 ^ 53 \<and> (fexp q = - 1074 \<or> 2 ^ 52 \<le> n)"
proof -
  have "q = of_int (rhe (q / pow2 (fexp q))) * pow2 (fexp q)"
    using rne_representable[OF assms(1)] assms(2) by (simp add: rne_def)
  then obtain n where q: "q = of_int n * pow2 (fexp q)" by blast
  have "0 < n" using assms(2) q pow2_pos[of "fexp q"] by (metis zero_less_mult_pos2 of_int_0_less_iff)
  have lb: "pow2 (ilog2 q) \<le> q" "q < pow2 (ilog2 q + 1)" using ilog2_bounds[of q] assms(2) by auto
  have "ilog2 q + 1 \<le> 53 + fexp q" by (simp add: fexp_def)
  then have "q < pow2 (53 + fexp q)" using lb(2) pow2_mono[of "ilog2 q + 1" "53 + fexp q"] by linarith
  then have "rat_of_int n * pow2 (fexp q) < of_int (2 ^ 53) * pow2 (fexp q)"
    using q by (simp add: pow2_add pow2_53)
  then have n: "n < 2 ^ 53" by (simp only: mult_less_cancel_right_pos pow2_pos of_int_less_iff)
  have "2 ^ 52 \<le> n" if "fexp q \<noteq> - 1074"
  proof -
    have "fexp q = ilog2 q - 52" using that by (simp add: fexp_def)
    then have "pow2 (52 + fexp q) \<le> q" using lb(1) by simp
    moreover have "pow2 (52 + fexp q) = of_int (2 ^ 52) * pow2 (fexp q)" by (simp only: pow2_add pow2_52)
    ultimately have "rat_of_int (2 ^ 52) * pow2 (fexp q) \<le> of_int n * pow2 (fexp q)" using q by simp
    then show ?thesis by (simp only: mult_le_cancel_right_pos pow2_pos of_int_le_iff)
  qed
  then show ?thesis using q \<open>0 < n\<close> n by blast
qed


lemma rhe_eqI: "\<bar>x - of_int n\<bar> < 1 / 2 \<Longrightarrow> rhe x = n"
proof -
  assume "\<bar>x - of_int n\<bar> < 1 / 2"
  then have "\<bar>rat_of_int (rhe x) - of_int n\<bar> < 1" using rhe_err[of x] by linarith
  then have "\<bar>rat_of_int (rhe x - n)\<bar> < 1" by simp
  then show "rhe x = n" by linarith
qed

lemma rne_near:
  assumes "representable q" "0 < q" "\<bar>c - q\<bar> < q * pow2 (- 54)"
  shows "rne c = q"
proof -
  obtain n where q: "q = of_int n * pow2 (fexp q)" and n: "0 < n" "n < 2 ^ 53"
    and norm: "fexp q = - 1074 \<or> 2 ^ 52 \<le> n"
    using representable_split[OF assms(1,2)] by blast
  define f where "f = fexp q"
  have half: "q * pow2 (- 54) < pow2 f / 2"
  proof -
    have "rat_of_int n < of_int (2 ^ 53)" using n(2) by (simp only: of_int_less_iff)
    then have "q < of_int (2 ^ 53) * pow2 f" unfolding q[folded f_def] by simp
    then have "q * pow2 (- 54) < of_int (2 ^ 53) * pow2 f * pow2 (- 54)" by simp
    also have "\<dots> = pow2 f / 2" by (simp add: pow2_def)
    finally show ?thesis .
  qed
  have near: "\<bar>c - q\<bar> < pow2 f / 2" using assms(3) half by linarith
  have "q * pow2 (- 54) < q" using assms(2) by (simp add: pow2_def)
  then have c: "0 < c" using assms(3) by linarith
  have up: "c < pow2 (53 + f)"
  proof -
    have "rat_of_int n \<le> of_int (2 ^ 53 - 1)" using n(2) by (simp only: of_int_le_iff)
    then have "q \<le> of_int (2 ^ 53 - 1) * pow2 f" unfolding q[folded f_def] by simp
    also have "\<dots> = pow2 (53 + f) - pow2 f" by (simp add: pow2_add pow2_53 algebra_simps)
    finally show ?thesis using near pow2_pos[of f] by linarith
  qed
  have same: "rne c = q" if "fexp c = f"
  proof -
    have "\<bar>c / pow2 f - of_int n\<bar> = \<bar>c - q\<bar> / pow2 f"
      using q[folded f_def] by (simp add: field_simps abs_divide)
    also have "\<dots> < 1 / 2" using near by (simp add: field_simps)
    finally have "rhe (c / pow2 f) = n" by (rule rhe_eqI)
    then show ?thesis using c that q[folded f_def] by (simp add: rne_def)
  qed
  have "ilog2 c < 53 + f" using up c by (intro ilog2_le) auto
  moreover have f: "- 1074 \<le> f" by (simp add: f_def fexp_def)
  ultimately have le: "fexp c \<le> f" by (simp add: fexp_def)
  show ?thesis
  proof (cases "fexp c = f")
    case False
    then have lt: "fexp c < f" using le by simp
    then have "f \<noteq> - 1074" by (auto simp: fexp_def)
    then have n52: "2 ^ 52 \<le> n" using norm by (simp add: f_def)
    have "ilog2 c < 52 + f" using lt by (simp add: fexp_def)
    then have "c < pow2 (52 + f)"
      using ilog2_bounds(2)[of c] c pow2_mono[of "ilog2 c + 1" "52 + f"] by simp
    then have "c < of_int (2 ^ 52) * pow2 f" by (simp only: pow2_add pow2_52)
    moreover have "of_int n * pow2 f < c + pow2 f / 2" using near q[folded f_def] by linarith
    ultimately have "rat_of_int n * pow2 f < of_int (2 ^ 52) * pow2 f + pow2 f"
      using pow2_pos[of f] by linarith
    also have "\<dots> = of_int (2 ^ 52 + 1) * pow2 f" by (simp add: distrib_right)
    finally have "n < 2 ^ 52 + 1" by (simp only: mult_less_cancel_right_pos pow2_pos of_int_less_iff)
    then have n: "n = 2 ^ 52" using n52 by simp
    have q': "q = of_int (2 ^ 53) * pow2 (f - 1)" using q[folded f_def] pow2_Suc[of "f - 1"] by (simp add: n)
    have "\<bar>c - q\<bar> < of_int (2 ^ 53) * pow2 (f - 1) * pow2 (- 54)" using assms(3) q' by simp
    also have "\<dots> = pow2 (f - 1) / 2" by (simp add: pow2_def)
    finally have near': "\<bar>c - q\<bar> < pow2 (f - 1) / 2" .
    have "pow2 (51 + f) = of_int (2 ^ 52) * pow2 (f - 1)"
      by (simp only: pow2_add[of 52, symmetric] pow2_52[symmetric]) simp
    moreover have "of_int (2 ^ 53) * pow2 (f - 1) - pow2 (f - 1) / 2 < c" using near' q' by linarith
    ultimately have "pow2 (51 + f) \<le> c" using pow2_pos[of "f - 1"] by (simp del: pow2_pos)
    then have "51 + f \<le> ilog2 c" using c by (intro ilog2_ge) simp
    then have fc: "fexp c = f - 1" using lt f by (simp add: fexp_def)
    have "\<bar>c / pow2 (f - 1) - of_int (2 ^ 53)\<bar> = \<bar>c - q\<bar> / pow2 (f - 1)"
      using q' by (simp add: field_simps abs_divide)
    also have "\<dots> < 1 / 2" using near' by (simp add: field_simps)
    finally have "rhe (c / pow2 (f - 1)) = 2 ^ 53" by (rule rhe_eqI)
    then show ?thesis using c fc q' by (simp add: rne_def)
  qed (rule same)
qed


lemma find_SomeI: "x \<in> set xs \<Longrightarrow> P x \<Longrightarrow> \<exists>y. find P xs = Some y \<and> y \<in> set xs \<and> P y"
  by (induction xs) auto

lemma shortest_correct:
  assumes "representable q" "0 < q"
  shows "rne (dec_val (shortest q)) = q" "\<exists>n. 1 \<le> n \<and> n \<le> 17 \<and> shortest q \<in> set (neighbours q n)"
proof -
  define e where "e = ilog10 q - 16"
  define x where "x = q / pow10 e"
  define p where "p = (if x - of_int \<lfloor>x\<rfloor> \<le> 1 / 2 then (\<lfloor>x\<rfloor>, e) else (\<lfloor>x\<rfloor> + 1, e))"
  have p17: "p \<in> set (neighbours q 17)" by (simp add: neighbours_def Let_def p_def x_def e_def)
  have fl: "of_int \<lfloor>x\<rfloor> \<le> x" "x < of_int \<lfloor>x\<rfloor> + 1" by linarith+
  have "\<bar>of_int (fst p) - x\<bar> \<le> 1 / 2" unfolding p_def using fl by (auto simp: abs_le_iff)
  moreover have "dec_val p - q = (of_int (fst p) - x) * pow10 e"
    by (simp add: dec_val_def p_def x_def field_simps)
  ultimately have "\<bar>dec_val p - q\<bar> \<le> 1 / 2 * pow10 e"
    using mult_right_mono[of "\<bar>of_int (fst p) - x\<bar>" "1 / 2" "pow10 e"] pow10_pos[of e]
    by (simp only: abs_mult abs_of_pos less_imp_le)
  also have "\<dots> < q * pow2 (- 54)"
  proof -
    have "pow10 (ilog10 q) = 10 ^ 16 * pow10 e" using pow10_add[of 16 e] by (simp add: e_def pow10_def[of 16])
    then have "10 ^ 16 * pow10 e \<le> q" using ilog10_bounds[OF assms(2)] by simp
    moreover have "1 / 2 * pow10 e < 10 ^ 16 * pow10 e * pow2 (- 54)"
      using pow10_pos[of e] by (simp add: pow2_def)
    moreover have "10 ^ 16 * pow10 e * pow2 (- 54) \<le> q * pow2 (- 54)"
      using calculation(1) by (intro mult_right_mono) auto
    ultimately show ?thesis by linarith
  qed
  finally have "rne (dec_val p) = q" by (rule rne_near[OF assms])
  moreover have "p \<in> set (concat (map (neighbours q) [1..<18]))" using p17 by force
  ultimately obtain r where "find (\<lambda>p. rne (dec_val p) = q) (concat (map (neighbours q) [1..<18])) = Some r"
    and r: "r \<in> set (concat (map (neighbours q) [1..<18]))" "rne (dec_val r) = q"
    using find_SomeI[of p _ "\<lambda>p. rne (dec_val p) = q"] by blast
  then have s: "shortest q = r" by (simp add: shortest_def)
  show "rne (dec_val (shortest q)) = q" using r s by simp
  show "\<exists>n. 1 \<le> n \<and> n \<le> 17 \<and> shortest q \<in> set (neighbours q n)" using r(1) s by fastforce
qed

text \<open>The digits of a candidate are a positive number, of at most one digit more.\<close>

lemma neighbours_digits:
  assumes "0 < q" "1 \<le> n" "p \<in> set (neighbours q n)"
  shows "10 ^ (n - 1) \<le> fst p" "fst p \<le> 10 ^ n" "snd p = ilog10 q - int n + 1"
proof -
  define e where "e = ilog10 q - int n + 1"
  define x where "x = q / pow10 e"
  have p: "p = (\<lfloor>x\<rfloor>, e) \<or> p = (\<lfloor>x\<rfloor> + 1, e)"
    using assms(3) by (auto simp: neighbours_def Let_def x_def e_def split: if_splits)
  have "pow10 (ilog10 q) = 10 ^ (n - 1) * pow10 e"
    using pow10_add[of "int (n - 1)" e] pow10_nat[of "n - 1"] assms(2) by (simp add: e_def of_nat_diff)
  then have "10 ^ (n - 1) * pow10 e \<le> q" using ilog10_bounds[OF assms(1)] by simp
  then have "rat_of_int (10 ^ (n - 1)) \<le> x" by (simp add: x_def field_simps)
  then have lo: "10 ^ (n - 1) \<le> \<lfloor>x\<rfloor>" by (simp only: le_floor_iff)
  have "pow10 (ilog10 q + 1) = 10 ^ n * pow10 e"
    using pow10_add[of "int n" e] pow10_nat[of n] by (simp add: e_def)
  then have "q < 10 ^ n * pow10 e" using ilog10_bounds[OF assms(1)] by simp
  then have "x < rat_of_int (10 ^ n)" by (simp add: x_def field_simps)
  then have hi: "\<lfloor>x\<rfloor> < 10 ^ n" by (simp only: floor_less_iff)
  show "10 ^ (n - 1) \<le> fst p" "fst p \<le> 10 ^ n" "snd p = ilog10 q - int n + 1"
    using p lo hi by (auto simp: e_def)
qed


subsection \<open>Reading a layout\<close>

definition num_char :: "char \<Rightarrow> bool" where
  "num_char c \<longleftrightarrow> in_range 48 57 c \<or> c \<in> set ''.e+-''"

lemma digit_facts: "in_range 48 57 c \<Longrightarrow> c \<noteq> CHR ''_'' \<and> c \<noteq> CHR ''.'' \<and> c \<noteq> CHR ''+'' \<and> c \<noteq> CHR ''-'' \<and> ascii_lower c = c"
  by (auto simp: in_range_def byte_def ascii_lower_def)

lemma digits_num_char: "digits s \<Longrightarrow> list_all num_char s"
  by (auto simp: digits_def num_char_def list_all_iff)

lemma read_mantissa_digits:
  "digits ds \<Longrightarrow> read_mantissa 10 dot m k saw (ds @ r) =
     read_mantissa 10 dot (num_of m ds) (if dot then k + int (length ds) else k) (saw \<or> ds \<noteq> []) r"
  by (induction ds arbitrary: m k saw) (auto simp: digit_facts digit_val_def add.assoc)

lemma read_mantissa_e: "read_mantissa 10 dot m k saw (CHR ''e'' # r) = (m, k, saw, CHR ''e'' # r)"
  by (simp add: digit_val_def in_range_def byte_def ascii_lower_def)

lemma read_exp_digits_eq:
  "digits ds \<Longrightarrow> 0 \<le> n \<Longrightarrow> num_of n ds < 10000 \<Longrightarrow> read_exp_digits n ds = (num_of n ds, [])"
proof (induction ds arbitrary: n)
  case (Cons c ds)
  have c: "0 \<le> byte c - 48" using Cons.prems by (simp add: in_range_def)
  have "10 * n + (byte c - 48) \<le> num_of (10 * n + (byte c - 48)) ds"
    using num_of_shift[of "10 * n + (byte c - 48)" ds] c Cons.prems(2)
      mult_left_mono[of 1 "10 ^ length ds" "10 * n + (byte c - 48)"] num_of_nonneg[of ds] Cons.prems(1) by simp
  then have "n < 10000" using Cons.prems c by simp
  then show ?case using Cons c by (simp add: digit_facts mult.commute)
qed simp

lemma read_exponent_eq:
  assumes "0 \<le> n" "n < 10000"
  shows "read_exponent (CHR ''e'') (CHR ''e'' # CHR ''+'' # dec_digits n) = Some (True, n, [])"
    "read_exponent (CHR ''e'') (CHR ''e'' # CHR ''-'' # dec_digits n) = Some (True, - n, [])"
proof -
  obtain d ds where d: "dec_digits n = d # ds" by (metis dec_digits_nonempty list.exhaust)
  then have "in_range 48 57 d" using digits_dec_digits[OF assms(1)] by simp
  moreover have "read_exp_digits 0 (dec_digits n) = (n, [])"
    using read_exp_digits_eq[of "dec_digits n" 0] assms by simp
  ultimately show "read_exponent (CHR ''e'') (CHR ''e'' # CHR ''+'' # dec_digits n) = Some (True, n, [])"
    "read_exponent (CHR ''e'') (CHR ''e'' # CHR ''-'' # dec_digits n) = Some (True, - n, [])"
    by (simp_all add: read_exponent_def strip_sign_def ascii_lower_def in_range_def byte_def d)
qed

lemma num_char_plain:
  assumes "list_all num_char s"
  shows "CHR ''_'' \<notin> set s" "\<not> hex_prefixed s"
proof -
  show "CHR ''_'' \<notin> set s" using assms by (auto simp: list_all_iff num_char_def in_range_def byte_def)
  have "num_char (s ! 1)" if "2 < length s" using assms that by (simp add: list_all_length)
  then show "\<not> hex_prefixed s"
    by (auto simp: hex_prefixed_def num_char_def ascii_lower_def in_range_def byte_def)
qed

lemma read_number_plain:
  assumes t: "t = d # u" "in_range 48 57 d" "list_all num_char t"
    and m: "read_mantissa 10 False 0 0 False t = (m, k, True, r)"
    and e: "read_exponent (CHR ''e'') r = Some (present, e, [])"
  shows "read_number t = Some (of_int m * pow10 (e - k))"
    "read_number (CHR ''-'' # t) = Some (of_int m * pow10 (e - k))"
    "strip_sign t = (False, t)" "special t = None" "special (CHR ''-'' # t) = None"
proof -
  have s: "strip_sign t = (False, t)" "strip_sign (CHR ''-'' # t) = (True, t)"
    using digit_facts[OF t(2)] by (simp_all add: strip_sign_def t(1))
  note p = num_char_plain[OF t(3)]
  show "strip_sign t = (False, t)" by (rule s)
  show "read_number t = Some (of_int m * pow10 (e - k))"
    "read_number (CHR ''-'' # t) = Some (of_int m * pow10 (e - k))"
    using m e p by (simp_all add: read_number_def s Let_def)
  have "ascii_lower d \<noteq> CHR ''i''" "ascii_lower d \<noteq> CHR ''n''"
    using t(2) digit_facts[OF t(2)] by (auto simp: in_range_def byte_def)
  then have "to_lower t \<notin> {''inf'', ''infinity'', ''nan''}" by (auto simp: to_lower_def t(1))
  moreover have "to_lower (CHR ''-'' # t) \<noteq> ''nan''" by (simp add: to_lower_def ascii_lower_def in_range_def byte_def)
  ultimately show "special t = None" "special (CHR ''-'' # t) = None" by (auto simp: special_def s)
qed

lemma num_of_zeros: "num_of n (zeros j) = n * 10 ^ nat j" "digits (zeros j)"
proof -
  have "num_of n (replicate i (CHR ''0'')) = n * 10 ^ i" for i
    by (induction i arbitrary: n) (simp_all add: byte_def)
  then show "num_of n (zeros j) = n * 10 ^ nat j" by (simp add: zeros_def)
  show "digits (zeros j)" by (simp add: zeros_def digits_def list_all_iff in_range_def byte_def)
qed

lemma zero_digit: "in_range 48 57 (CHR ''0'')"
  by (simp add: in_range_def byte_def)

text \<open>A text that starts with a digit and denotes a number, with or without a sign.\<close>

definition denotes :: "gostring \<Rightarrow> rat \<Rightarrow> bool" where
  "denotes t q \<longleftrightarrow> (\<exists>d u. t = d # u \<and> in_range 48 57 d) \<and> list_all num_char t \<and>
     read_number t = Some q \<and> read_number (CHR ''-'' # t) = Some q \<and>
     special t = None \<and> special (CHR ''-'' # t) = None"

lemma denotesI:
  assumes "t = d # u" "in_range 48 57 d" "list_all num_char t"
    "read_mantissa 10 False 0 0 False t = (m, k, True, r)"
    "read_exponent (CHR ''e'') r = Some (present, e, [])" "of_int m * pow10 (e - k) = q"
  shows "denotes t q"
  using read_number_plain[OF assms(1-5)] assms by (auto simp: denotes_def)

lemma layout_f_denotes:
  assumes "digits ds" "ds \<noteq> []"
  shows "denotes (layout_f ds dp) (of_int (num_of 0 ds) * pow10 (dp - int (length ds)))"
proof -
  consider (small) "dp \<le> 0" | (big) "0 < dp" "int (length ds) \<le> dp" | (mid) "0 < dp" "dp < int (length ds)"
    by linarith
  then show ?thesis
  proof cases
    case small
    have d: "digits (zeros (- dp) @ ds)" using assms(1) num_of_zeros(2) by simp
    have "read_mantissa 10 False 0 0 False (''0.'' @ zeros (- dp) @ ds) = (num_of 0 ds, int (length (zeros (- dp) @ ds)), True, [])"
      using read_mantissa_digits[OF d, of True 0 0 True "[]"] by (simp add: digit_val_def zero_digit num_of_zeros byte_def)
    then show ?thesis
      using small d digits_num_char[OF d]
      by (intro denotesI[of _ "CHR ''0''" _ "num_of 0 ds" "int (length (zeros (- dp) @ ds))" "[]" False 0])
        (simp_all add: layout_f_def zero_digit read_exponent_def zeros_def num_char_def algebra_simps)
  next
    case big
    let ?t = "ds @ zeros (dp - int (length ds))"
    have d: "digits ?t" using assms(1) num_of_zeros(2) by simp
    obtain c u where c: "ds = c # u" using assms(2) by (cases ds) auto
    have m: "read_mantissa 10 False 0 0 False ?t = (num_of 0 ?t, 0, True, [])"
      using read_mantissa_digits[OF d, of False 0 0 False "[]"] assms(2) by simp
    have "pow10 (dp - int (length ds)) = 10 ^ nat (dp - int (length ds))" using big by (simp add: pow10_def)
    then have v: "of_int (num_of 0 ?t) * pow10 (0 - 0) = of_int (num_of 0 ds) * pow10 (dp - int (length ds))"
      by (simp add: num_of_zeros pow10_def[of 0])
    have t: "layout_f ds dp = ?t" using big by (simp add: layout_f_def)
    show ?thesis unfolding t
    proof (rule denotesI)
      show "?t = c # (u @ zeros (dp - int (length ds)))" by (simp only: c append_Cons)
      show "in_range 48 57 c" using assms(1) c by simp
      show "list_all num_char ?t" by (rule digits_num_char[OF d])
      show "read_mantissa 10 False 0 0 False ?t = (num_of 0 ?t, 0, True, [])" by (rule m)
      show "read_exponent (CHR ''e'') [] = Some (False, 0, [])" by (simp add: read_exponent_def)
      show "of_int (num_of 0 ?t) * pow10 (0 - 0) = of_int (num_of 0 ds) * pow10 (dp - int (length ds))" by (rule v)
    qed
  next
    case mid
    define a b where "a = take (nat dp) ds" and "b = drop (nat dp) ds"
    have ab: "ds = a @ b" "a \<noteq> []" "length b = length ds - nat dp" using mid assms(2) by (auto simp: a_def b_def)
    then have dab: "digits a" "digits b" using assms(1) by auto
    obtain c u where c: "a = c # u" using ab(2) by (cases a) auto
    have "read_mantissa 10 False 0 0 False (a @ ''.'' @ b) = (num_of 0 ds, int (length b), True, [])"
      using read_mantissa_digits[OF dab(1), of False 0 0 False "''.'' @ b"]
        read_mantissa_digits[OF dab(2), of True "num_of 0 a" 0 True "[]"] ab(1,2) by simp
    moreover have "layout_f ds dp = a @ ''.'' @ b" using mid by (simp add: layout_f_def a_def b_def)
    moreover have "int (length b) = int (length ds) - dp" using ab(3) mid by simp
    ultimately show ?thesis
      using digits_num_char[OF dab(1)] digits_num_char[OF dab(2)] dab
      by (intro denotesI[of _ c "u @ ''.'' @ b" "num_of 0 ds" "int (length b)" "[]" False 0])
        (simp_all add: c read_exponent_def num_char_def)
  qed
qed

lemma layout_e_denotes:
  assumes "digits ds" "ds \<noteq> []" "\<bar>dp - 1\<bar> < 10000"
  shows "denotes (layout_e ds dp) (of_int (num_of 0 ds) * pow10 (dp - int (length ds)))"
proof -
  obtain c u where c: "ds = c # u" using assms(2) by (cases ds) auto
  define ex where "ex = CHR ''e'' # (if dp - 1 < 0 then CHR ''-'' else CHR ''+'') # dec_digits \<bar>dp - 1\<bar>"
  have ex: "read_exponent (CHR ''e'') ex = Some (True, dp - 1, [])"
    using read_exponent_eq[of "\<bar>dp - 1\<bar>"] assms(3) by (auto simp: ex_def)
  have nc: "list_all num_char ex" using digits_num_char[OF digits_dec_digits[of "\<bar>dp - 1\<bar>"]] by (simp add: ex_def num_char_def)
  have t: "layout_e ds dp = c # (if u = [] then '''' else ''.'' @ u) @ ex"
    by (simp add: layout_e_def c ex_def)
  have u: "digits u" "in_range 48 57 c" using assms(1) c by auto
  have first: "read_mantissa 10 False 0 0 False (c # r) = read_mantissa 10 False (byte c - 48) 0 True r" for r
    using u(2) digit_facts[OF u(2)] by (simp add: digit_val_def)
  have stop: "read_mantissa 10 dot m k saw ex = (m, k, saw, ex)" for dot m k saw
    unfolding ex_def by (rule read_mantissa_e)
  have n: "num_of 0 ds = num_of (byte c - 48) u" by (simp add: c)
  have m: "read_mantissa 10 False 0 0 False (layout_e ds dp) = (num_of 0 ds, int (length u), True, ex)"
    unfolding t n using read_mantissa_digits[OF u(1), of True "byte c - 48" 0 True ex]
    by (cases "u = []") (simp_all add: first stop del: read_mantissa.simps(2), simp add: first)
  have "list_all num_char (layout_e ds dp)"
    unfolding t using u nc digits_num_char[OF u(1)] by (simp add: num_char_def)
  moreover have "of_int (num_of 0 ds) * pow10 (dp - 1 - int (length u)) =
      of_int (num_of 0 ds) * pow10 (dp - int (length ds))"
    by (simp add: c algebra_simps)
  ultimately show ?thesis using denotesI[OF t u(2) _ m ex] by blast
qed

lemma strip_zeros_split: "\<exists>j. s = strip_zeros s @ replicate j (CHR ''0'')"
proof -
  have "\<exists>j. takeWhile (\<lambda>c. c = z) s = replicate j z" for z :: char and s
  proof (induction s)
    case (Cons a s)
    then obtain j where "takeWhile (\<lambda>c. c = z) s = replicate j z" by blast
    then have "takeWhile (\<lambda>c. c = z) (a # s) = replicate (if a = z then Suc j else 0) z" by simp
    then show ?case by blast
  qed (auto intro: exI[of _ 0])
  then obtain j where "takeWhile (\<lambda>c. c = CHR ''0'') (rev s) = replicate j (CHR ''0'')" by blast
  then have "rev s = replicate j (CHR ''0'') @ dropWhile (\<lambda>c. c = CHR ''0'') (rev s)"
    by (metis takeWhile_dropWhile_id)
  then have "s = rev (replicate j (CHR ''0'') @ dropWhile (\<lambda>c. c = CHR ''0'') (rev s))" by (metis rev_rev_ident)
  then show ?thesis by (auto simp: strip_zeros_def)
qed

lemma strip_zeros_digits:
  assumes "digits s" "0 < num_of 0 s"
  shows "digits (strip_zeros s)" "strip_zeros s \<noteq> []"
    "of_int (num_of 0 (strip_zeros s)) * pow10 (int (length s) + e - int (length (strip_zeros s))) =
       of_int (num_of 0 s) * pow10 e"
proof -
  obtain j where j: "s = strip_zeros s @ replicate j (CHR ''0'')" using strip_zeros_split by blast
  then have "digits (strip_zeros s @ replicate j (CHR ''0''))" using assms(1) by simp
  then show "digits (strip_zeros s)" by simp
  have z: "num_of n (replicate j (CHR ''0'')) = n * 10 ^ j" for n
    using num_of_zeros(1)[of n "int j"] by (simp add: zeros_def)
  have n: "num_of 0 s = num_of 0 (strip_zeros s) * 10 ^ j" by (subst j) (simp add: z)
  then show "strip_zeros s \<noteq> []" using assms(2) by auto
  have "int (length s) = int (length (strip_zeros s)) + int j" by (subst j) simp
  then have "pow10 (int (length s) + e - int (length (strip_zeros s))) = 10 ^ j * pow10 e"
    by (simp add: pow10_add pow10_nat)
  then show "of_int (num_of 0 (strip_zeros s)) * pow10 (int (length s) + e - int (length (strip_zeros s))) =
      of_int (num_of 0 s) * pow10 e"
    by (simp add: n)
qed

subsection \<open>Printing, then parsing\<close>

lemma float_text_denotes:
  assumes "representable q" "0 < q" "pow2 (- 1074) \<le> q" "q < fbound"
  shows "\<exists>c. denotes (float_text q) c \<and> rne c = q"
proof -
  let ?p = "shortest q"
  obtain n where n: "1 \<le> n" "n \<le> 17" "?p \<in> set (neighbours q n)" and r: "rne (dec_val ?p) = q"
    using shortest_correct[OF assms(1,2)] by blast
  note d = neighbours_digits[OF assms(2) n(1,3)]
  have pos: "0 < fst ?p" using d(1) by (meson less_le_trans zero_less_numeral zero_less_power)
  let ?all = "dec_digits (fst ?p)"
  have all: "digits ?all" "num_of 0 ?all = fst ?p" using pos by simp_all
  note z = strip_zeros_digits[OF all(1), unfolded all(2), OF pos]
  have v: "of_int (num_of 0 (strip_zeros ?all)) * pow10 (int (length ?all) + snd ?p - int (length (strip_zeros ?all))) = dec_val ?p"
    unfolding z(3) dec_val_def ..
  have "10 ^ (length ?all - 1) \<le> fst ?p" using dec_digits_length[OF pos] by simp
  then have "(10 :: int) ^ (length ?all - 1) \<le> 10 ^ n" using d(2) by linarith
  then have "length ?all - 1 \<le> n" by (simp only: power_increasing_iff)
  then have "\<bar>int (length ?all) + snd ?p - 1\<bar> < 10000"
    using d(3) ilog10_range[OF assms(3,4)] n(1,2) by linarith
  then have "denotes (layout_e (strip_zeros ?all) (int (length ?all) + snd ?p)) (dec_val ?p)"
    using layout_e_denotes[OF z(1,2)] unfolding v[symmetric] by blast
  moreover have "denotes (layout_f (strip_zeros ?all) (int (length ?all) + snd ?p)) (dec_val ?p)"
    using layout_f_denotes[OF z(1,2)] unfolding v[symmetric] by blast
  ultimately have "denotes (float_text q) (dec_val ?p)"
    unfolding float_text_def Let_def
    by (cases "Fin q < fl (1 / 1000000) \<or> fl (10 ^ 21) \<le> Fin q") (simp_all only: if_True if_False)
  then show ?thesis using r by blast
qed

lemma representable_least:
  assumes "representable q" "0 < q"
  shows "pow2 (- 1074) \<le> q"
proof -
  obtain n where q: "q = of_int n * pow2 (fexp q)" "0 < n" using representable_split[OF assms] by blast
  have "pow2 (- 1074) \<le> pow2 (fexp q)" by (rule pow2_mono) (simp add: fexp_def)
  also have "\<dots> \<le> of_int n * pow2 (fexp q)" using q(2) by simp
  finally show ?thesis using q(1) by simp
qed

lemma representable_abs: "representable q \<Longrightarrow> representable \<bar>q\<bar>"
proof (cases "q < 0")
  case True
  assume "representable q"
  then obtain n e where "q = of_int n * pow2 e \<and> \<bar>n\<bar> < 2 ^ 53 \<and> - 1074 \<le> e"
    by (auto simp: representable_def)
  then show "representable \<bar>q\<bar>" using True unfolding representable_def
    by (intro exI[of _ "- n"] exI[of _ e]) simp
qed simp

lemma json_float_denotes:
  assumes "f64_ok x" "0 < \<bar>val x\<bar>"
  obtains t c where "json_float x = Some ((if val x < 0 then ''-'' else '''') @ t)" "denotes t c" "rne c = \<bar>val x\<bar>"
proof -
  obtain q where x: "x = Fin q" "q \<noteq> 0" using assms by (cases x) (auto simp: f64_ok_def)
  have "representable \<bar>q\<bar>" using assms(1) x by (simp add: f64_ok_def representable_abs)
  moreover have "\<bar>q\<bar> < fbound" using assms(1) x by (simp add: f64_ok_def)
  ultimately obtain c where "denotes (float_text \<bar>q\<bar>) c" "rne c = \<bar>q\<bar>"
    using float_text_denotes[of "\<bar>q\<bar>"] representable_least[of "\<bar>q\<bar>"] x(2) by auto
  then show thesis using that[of "float_text \<bar>q\<bar>" c] x by (simp add: json_float_def)
qed

lemma ParseFloat_zero: "ParseFloat ''-0'' = Inr NZero" "ParseFloat ''0'' = Inr (Fin 0)"
proof -
  have "special ''-0'' = None" "special ''0'' = None" by code_simp+
  moreover have "read_number ''-0'' = Some 0" "read_number ''0'' = Some 0"
    by (simp_all add: read_number_def strip_sign_def hex_prefixed_def digit_val_def in_range_def read_exponent_def byte_def)
  moreover have "rnd s 0 = mkz s 0" for s using fbound_pos by (simp add: rnd_def rne_0 not_le[symmetric] del: not_le)
  ultimately show "ParseFloat ''-0'' = Inr NZero" "ParseFloat ''0'' = Inr (Fin 0)"
    by (simp_all add: ParseFloat_def strip_sign_def mkz_def)
qed

lemma ParseFloat_json_float:
  assumes "f64_ok x"
  shows "\<exists>t. json_float x = Some t \<and> ParseFloat t = Inr x"
proof (cases "val x = 0")
  case True
  then have "x = NZero \<or> x = Fin 0" using assms by (cases x) (auto simp: f64_ok_def)
  moreover note ParseFloat_zero
  ultimately show ?thesis by (auto simp: json_float_def)
next
  case False
  then obtain t c where t: "json_float x = Some ((if val x < 0 then ''-'' else '''') @ t)" "denotes t c" "rne c = \<bar>val x\<bar>"
    using json_float_denotes[OF assms] by auto
  obtain q where x: "x = Fin q" "q \<noteq> 0" using assms False by (cases x) (auto simp: f64_ok_def)
  have b: "\<bar>q\<bar> < fbound" using assms x by (simp add: f64_ok_def)
  obtain d u where d: "t = d # u" "in_range 48 57 d" using t(2) by (auto simp: denotes_def)
  have s: "strip_sign t = (False, t)" "strip_sign (CHR ''-'' # t) = (True, t)"
    using digit_facts[OF d(2)] by (simp_all add: strip_sign_def d(1))
  have r: "rnd False c = Fin q" if "\<not> q < 0"
    using t(3) that x b by (auto simp: rnd_def Let_def mkz_def)
  have "rne (- c) = q" if "q < 0" using t(3) that x by simp
  then have r': "rnd True (- c) = Fin q" if "q < 0"
    using that x b by (auto simp: rnd_def Let_def mkz_def)
  show ?thesis
    using t(1,2) x r r' by (auto simp: denotes_def ParseFloat_def s Let_def)
qed

lemma json_float_None: "json_float x = None \<longleftrightarrow> \<not> is_fin x"
  by (cases x) (auto simp: json_float_def)

end
