(* ===== verification/GoTime.thy ===== *)
theory GoTime
  imports FloatTextFacts
begin

text \<open>
  Go's \<open>time\<close> package as the program uses it: instants with a zone, their RFC 3339 form in
  JSON and its parser with the leniencies of \<open>time.Parse\<close>, and \<open>time.ParseDuration\<close>. The
  calendar is the proleptic Gregorian one.
\<close>

text \<open>A \<open>time.Time\<close>: its nanoseconds since 1970 and the offset of its zone; the zero time is the
  start of year 1.\<close>

record gotime =
  UnixNano :: int
  ZoneMinutes :: int

definition utc :: "int \<Rightarrow> gotime" where
  "utc n = \<lparr>UnixNano = n, ZoneMinutes = 0\<rparr>"

definition zero_time :: gotime where
  "zero_time = utc (- 62135596800000000000)"

definition IsZero :: "gotime \<Rightarrow> bool" where
  "IsZero t \<longleftrightarrow> UnixNano t = UnixNano zero_time"

subsection \<open>The calendar\<close>

definition is_leap :: "int \<Rightarrow> bool" where
  "is_leap y \<longleftrightarrow> y mod 4 = 0 \<and> (y mod 100 \<noteq> 0 \<or> y mod 400 = 0)"

definition month_days :: "int \<Rightarrow> int list" where
  "month_days y = [31, if is_leap y then 29 else 28, 31, 30, 31, 30, 31, 31, 30, 31, 30, 31]"

text \<open>Days from the start of year 1.\<close>

definition days_before_year :: "int \<Rightarrow> int" where
  "days_before_year y = 365 * (y - 1) + (y - 1) div 4 - (y - 1) div 100 + (y - 1) div 400"

definition days_of_date :: "int \<Rightarrow> int \<Rightarrow> int \<Rightarrow> int" where
  "days_of_date y m d = days_before_year y + sum_list (take (nat (m - 1)) (month_days y)) + (d - 1)"

fun month_scan :: "int list \<Rightarrow> int \<Rightarrow> int \<Rightarrow> int \<times> int" where
  "month_scan [] m d = (m, d)"
| "month_scan (l # ls) m d = (if d < l then (m, d) else month_scan ls (m + 1) (d - l))"

text \<open>Year, month and day, through the cycles of 400, 100, 4 and 1 years.\<close>

definition year_of_days :: "int \<Rightarrow> int \<times> int" where
  "year_of_days n =
     (let a = n div 146097; r = n mod 146097;
          b = min (r div 36524) 3; r1 = r - 36524 * b;
          c = r1 div 1461; r2 = r1 mod 1461;
          d = min (r2 div 365) 3
      in (400 * a + 100 * b + 4 * c + d + 1, r2 - 365 * d))"

definition date_of_days :: "int \<Rightarrow> int \<times> int \<times> int" where
  "date_of_days n =
     (let (y, yday) = year_of_days n; (m, d) = month_scan (month_days y) 1 yday in (y, m, d + 1))"

text \<open>From year 1 to 1970.\<close>

definition epoch_days :: int where
  "epoch_days = 719162"

subsection \<open>RFC 3339\<close>

definition two :: "int \<Rightarrow> gostring" where
  "two n = pad_zeros 2 (dec_digits n)"

definition frac_text :: "int \<Rightarrow> gostring" where
  "frac_text nanos = (if nanos = 0 then '''' else ''.'' @ strip_zeros (pad_zeros 9 (dec_digits nanos)))"

definition zone_text :: "int \<Rightarrow> gostring" where
  "zone_text z =
     (if z = 0 then ''Z''
      else (if z < 0 then ''-'' else ''+'') @ two (\<bar>z\<bar> div 60) @ '':'' @ two (\<bar>z\<bar> mod 60))"

definition local_seconds :: "gotime \<Rightarrow> int" where
  "local_seconds t = UnixNano t div 1000000000 + ZoneMinutes t * 60"

definition clock_text :: "int \<Rightarrow> gostring" where
  "clock_text sod = two (sod div 3600) @ '':'' @ two (sod div 60 mod 60) @ '':'' @ two (sod mod 60)"

definition rfc3339_text :: "gotime \<Rightarrow> gostring" where
  "rfc3339_text t =
     (let s = local_seconds t; (y, m, d) = date_of_days (s div 86400 + epoch_days)
      in pad_zeros 4 (dec_digits y) @ ''-'' @ two m @ ''-'' @ two d @ ''T'' @ clock_text (s mod 86400) @
         frac_text (UnixNano t mod 1000000000) @ zone_text (ZoneMinutes t))"

definition year_of :: "gotime \<Rightarrow> int" where
  "year_of t = fst (date_of_days (local_seconds t div 86400 + epoch_days))"

text \<open>\<open>Time.MarshalJSON\<close>, without the quotes.\<close>

definition MarshalTime :: "gotime \<Rightarrow> gostring + gostring" where
  "MarshalTime t =
     (if \<not> (0 \<le> year_of t \<and> year_of t \<le> 9999) then Inl ''Time.MarshalJSON: year outside of range [0,9999]''
      else if 24 \<le> \<bar>ZoneMinutes t\<bar> div 60 then Inl ''Time.MarshalJSON: timezone hour outside of range [0,23]''
      else Inr (rfc3339_text t))"

text \<open>Parsing: two digits (\<open>getnum\<close>), the hour also as one; a comma or a point before the
  fraction, which is cut after nine digits.\<close>

definition getnum :: "bool \<Rightarrow> gostring \<Rightarrow> (int \<times> gostring) option" where
  "getnum fixed s =
     (case s of
        [] \<Rightarrow> None
      | a # r \<Rightarrow>
          if \<not> in_range 48 57 a then None
          else (case r of
                  b # r' \<Rightarrow>
                    if in_range 48 57 b then Some (10 * (byte a - 48) + (byte b - 48), r')
                    else if fixed then None else Some (byte a - 48, r)
                | [] \<Rightarrow> if fixed then None else Some (byte a - 48, r)))"

definition getfour :: "gostring \<Rightarrow> (int \<times> gostring) option" where
  "getfour s =
     (if length s < 4 then None
      else map_option (\<lambda>n. (n, drop 4 s)) (parse_digits 0 (take 4 s)))"

definition expect :: "char \<Rightarrow> gostring \<Rightarrow> gostring option" where
  "expect c s = (case s of d # r \<Rightarrow> if d = c then Some r else None | [] \<Rightarrow> None)"

definition guard :: "bool \<Rightarrow> unit option" where
  "guard b = (if b then Some () else None)"

definition read_fraction :: "gostring \<Rightarrow> int \<times> gostring" where
  "read_fraction s =
     (case s of
        p # d # r \<Rightarrow>
          if (p = CHR ''.'' \<or> p = CHR '','') \<and> in_range 48 57 d
          then let ds = takeWhile (in_range 48 57) (d # r); ds9 = take 9 ds
            in (num_of 0 ds9 * 10 ^ (9 - length ds9), drop (length ds) (d # r))
          else (0, s)
      | _ \<Rightarrow> (0, s))"

definition read_zone :: "gostring \<Rightarrow> (int \<times> gostring) option" where
  "read_zone s =
     (case s of
        [] \<Rightarrow> None
      | c # r \<Rightarrow>
          if c = CHR ''Z'' then Some (0, r)
          else if length s < 6 \<or> s ! 3 \<noteq> CHR '':'' then None
          else case (getnum True (take 2 r), getnum True (take 2 (drop 3 r))) of
              (Some (hh, _), Some (mm, _)) \<Rightarrow>
                if 24 < hh \<or> 60 < mm then None
                else if c = CHR ''+'' then Some (hh * 60 + mm, drop 5 r)
                else if c = CHR ''-'' then Some (- (hh * 60 + mm), drop 5 r)
                else None
            | _ \<Rightarrow> None)"

definition civil :: "int \<Rightarrow> int \<Rightarrow> int \<Rightarrow> int \<Rightarrow> int \<Rightarrow> int" where
  "civil y m d sod z = (days_of_date y m d - epoch_days) * 86400 + sod - z * 60"

definition ParseRFC3339 :: "gostring \<Rightarrow> gotime option" where
  "ParseRFC3339 s0 =
     Option.bind (getfour s0) (\<lambda>(y, s). Option.bind (expect (CHR ''-'') s) (\<lambda>s.
     Option.bind (getnum True s) (\<lambda>(m, s). Option.bind (expect (CHR ''-'') s) (\<lambda>s.
     Option.bind (getnum True s) (\<lambda>(d, s). Option.bind (expect (CHR ''T'') s) (\<lambda>s.
     Option.bind (getnum False s) (\<lambda>(hh, s). Option.bind (expect (CHR '':'') s) (\<lambda>s.
     Option.bind (getnum True s) (\<lambda>(mi, s). Option.bind (expect (CHR '':'') s) (\<lambda>s.
     Option.bind (getnum True s) (\<lambda>(se, s).
     let (nanos, s) = read_fraction s in
     Option.bind (read_zone s) (\<lambda>(z, s).
       if s = [] \<and> 1 \<le> m \<and> m \<le> 12 \<and> hh < 24 \<and> mi < 60 \<and> se < 60 \<and>
          1 \<le> d \<and> d \<le> month_days y ! nat (m - 1)
       then Some \<lparr>UnixNano = civil y m d (hh * 3600 + mi * 60 + se) z * 1000000000 + nanos,
                  ZoneMinutes = z\<rparr>
       else None))))))))))))"

subsection \<open>\<open>time.ParseDuration\<close>\<close>

definition unitMap :: "gostring \<Rightarrow> int option" where
  "unitMap u =
     map_of [(''ns'', 1), (''us'', 1000), ([CHR 0xC2, CHR 0xB5, CHR ''s''], 1000),
             ([CHR 0xCE, CHR 0xBC, CHR ''s''], 1000), (''ms'', 1000000), (''s'', 1000000000),
             (''m'', 60000000000), (''h'', 3600000000000)] u"

text \<open>\<^const>\<open>None\<close> on overflow.\<close>

fun leadingInt :: "int \<Rightarrow> gostring \<Rightarrow> (int \<times> gostring) option" where
  "leadingInt x [] = Some (x, [])"
| "leadingInt x (c # cs) =
     (if \<not> in_range 48 57 c then Some (x, c # cs)
      else if 2 ^ 63 div 10 < x \<or> 2 ^ 63 < x * 10 + (byte c - 48) then None
      else leadingInt (x * 10 + (byte c - 48)) cs)"

text \<open>Digits that no longer fit are skipped; \<open>k\<close> counts those that did.\<close>

fun leadingFraction :: "bool \<Rightarrow> int \<Rightarrow> nat \<Rightarrow> gostring \<Rightarrow> int \<times> nat \<times> gostring" where
  "leadingFraction over x k [] = (x, k, [])"
| "leadingFraction over x k (c # cs) =
     (if \<not> in_range 48 57 c then (x, k, c # cs)
      else if over \<or> (2 ^ 63 - 1) div 10 < x \<or> 2 ^ 63 < x * 10 + (byte c - 48) then leadingFraction True x k cs
      else leadingFraction False (x * 10 + (byte c - 48)) (Suc k) cs)"

text \<open>One number with its unit.\<close>

definition duration_term :: "gostring \<Rightarrow> (int \<times> gostring) option" where
  "duration_term s =
     Option.bind (leadingInt 0 s) (\<lambda>(v, s1).
       let (f, k, s2, post) =
             (case s1 of
                c # r \<Rightarrow>
                  if c = CHR ''.'' then (case leadingFraction False 0 0 r of (f, k, r') \<Rightarrow> (f, k, r', r' \<noteq> r))
                  else (0, 0, s1, False)
              | [] \<Rightarrow> (0, 0, s1, False));
           u = takeWhile (\<lambda>c. \<not> (c = CHR ''.'' \<or> in_range 48 57 c)) s2
       in if s1 = s \<and> \<not> post then None
          else Option.bind (unitMap u) (\<lambda>unit.
            if 2 ^ 63 div unit < v then None
            else let w = v * unit + (if 0 < f
                   then trunc_rat (val (fl (of_int f) * (fl (of_int unit) / fl (10 ^ k)))) else 0)
              in if 2 ^ 63 < w then None else Some (w, drop (length u) s2)))"

lemma leadingInt_length: "leadingInt x s = Some (v, r) \<Longrightarrow> length r \<le> length s"
  by (induction x s rule: leadingInt.induct) (auto split: if_splits)

lemma leadingFraction_length: "leadingFraction b x k s = (f, k', r) \<Longrightarrow> length r \<le> length s"
  by (induction b x k s rule: leadingFraction.induct) (auto split: if_splits)

lemma unitMap_nonempty: "unitMap u = Some n \<Longrightarrow> u \<noteq> []"
  by (auto simp: unitMap_def split: if_splits)

lemma duration_term_shorter: "duration_term s = Some (v, r) \<Longrightarrow> length r < length s"
proof -
  assume t: "duration_term s = Some (v, r)"
  obtain v0 s1 where l: "leadingInt 0 s = Some (v0, s1)"
    using t by (auto simp: duration_term_def bind_eq_Some_conv)
  define q where "q = (case s1 of
                c # r \<Rightarrow>
                  if c = CHR ''.'' then (case leadingFraction False 0 0 r of (f, k, r') \<Rightarrow> (f, k, r', r' \<noteq> r))
                  else (0, 0, s1, False)
              | [] \<Rightarrow> (0, 0, s1, False))"
  obtain f k s2 post where q: "q = (f, k, s2, post)" by (cases q) auto
  have s2: "length s2 \<le> length s1"
    using q by (auto simp: q_def dest: leadingFraction_length split: list.splits if_splits prod.splits)
  let ?u = "takeWhile (\<lambda>c. \<not> (c = CHR ''.'' \<or> in_range 48 57 c)) s2"
  have "unitMap ?u \<noteq> None" and r: "r = drop (length ?u) s2"
    using t unfolding duration_term_def l
    by (auto simp: q_def[symmetric] q Let_def bind_eq_Some_conv split: if_splits)
  then have "?u \<noteq> []" using unitMap_nonempty by blast
  then have "0 < length ?u" "length ?u \<le> length s2" by (auto intro: length_takeWhile_le)
  then show "length r < length s" using r s2 leadingInt_length[OF l] by (simp del: length_greater_0_conv)
qed

function duration_sum :: "int \<Rightarrow> gostring \<Rightarrow> int option" where
  "duration_sum d s =
     (if s = [] then Some d
      else case duration_term s of
          None \<Rightarrow> None
        | Some (v, r) \<Rightarrow> if 2 ^ 63 < d + v then None else duration_sum (d + v) r)"
  by pat_completeness auto
termination by (relation "measure (\<lambda>(d, s). length s)") (auto dest: duration_term_shorter)

declare duration_sum.simps [simp del]

definition ParseDuration :: "gostring \<Rightarrow> i64 option" where
  "ParseDuration s =
     (let (negative, t) = strip_sign s
      in if t = ''0'' then Some 0
         else if t = [] then None
         else case duration_sum 0 t of
             None \<Rightarrow> None
           | Some d \<Rightarrow>
               if negative then Some (word_of_int (- d))
               else if 2 ^ 63 - 1 < d then None else Some (word_of_int d))"

end
