(* ===== verification/RuleTypes.thy ===== *)
theory RuleTypes
  imports Cost GoRegexp GoTime
begin

text \<open>
  The data model of \<open>internal/rules\<close> (\<open>types.go\<close>): snapshots, findings and
  remediations; the thresholds of the eight rules with their defaults (the \<open>R*Config\<close>
  structs and \<open>default*\<close> functions); the helpers of \<open>helpers.go\<close>; and the loop every
  evaluator is: it walks over topics or groups and, for each, skips it, appends one
  finding, or panics.
\<close>

subsection \<open>Snapshots\<close>

record clusterInfo =
  ClusterName :: gostring
  ClusterProvider :: gostring

record topic =
  Name :: gostring
  Partitions :: i64
  ReplicationFactor :: i64
  RetentionMs :: i64
  CompressionType :: gostring
  CleanupPolicy :: gostring
  RetainedBytes :: i64
  BytesInPerSec :: f64
  BytesOutPerSec :: f64
  ThroughputSource :: gostring
  PartitionBytes :: "i64 list"
  EarliestOffset :: i64
  LatestOffset :: i64
  MaxConsumerLagMs :: i64
  ActiveConsumers :: i64

record consumerGrp =
  GroupID :: gostring
  State :: gostring
  LastCommitAgeDays :: i64

record broker =
  BrokerID :: i64
  LogDirBytes :: i64

record snapshot =
  TakenAt :: gotime
  Cluster :: clusterInfo
  Topics :: "topic list"
  Groups :: "consumerGrp list"
  Brokers :: "broker list"

text \<open>\<open>SnapshotHistory.Latest\<close>, oldest first.\<close>

definition latest :: "snapshot list \<Rightarrow> snapshot option" where
  "latest h = (if h = [] then None else Some (last h))"

subsection \<open>Findings\<close>

datatype severity = SeverityInfo | SeverityWarning | SeverityCritical | SeverityPlan
datatype confidence = ConfidenceLow | ConfidenceMedium | ConfidenceHigh

fun severity_str :: "severity \<Rightarrow> gostring" where
  "severity_str SeverityInfo = ''info''"
| "severity_str SeverityWarning = ''warning''"
| "severity_str SeverityCritical = ''critical''"
| "severity_str SeverityPlan = ''plan''"

fun confidence_str :: "confidence \<Rightarrow> gostring" where
  "confidence_str ConfidenceLow = ''low''"
| "confidence_str ConfidenceMedium = ''medium''"
| "confidence_str ConfidenceHigh = ''high''"

record remediation =
  Summary :: gostring
  KafkaConfigsCmd :: gostring
  TerraformDiff :: gostring
  StrimziYAML :: gostring
  OneClick :: bool

text \<open>Evidence is a \<open>map[string]any\<close>: its entries, with different keys.\<close>

datatype evidence = EvFloat f64 | EvInt i64 | EvStr gostring | EvBool bool

record finding =
  RuleID :: gostring
  RuleVersion :: i64
  Title :: gostring
  Severity :: severity
  ResourceKey :: gostring
  Evidence :: "(gostring \<times> evidence) list"
  EstSavingEUR :: f64
  Basis :: gostring
  Confidence :: confidence
  Remediation :: remediation

subsection \<open>Thresholds\<close>

record r1Config =
  R1_MaxBytesInPerSec :: f64
  R1_MinRetainedBytes :: i64

definition defaultR1 :: r1Config where
  "defaultR1 = \<lparr>R1_MaxBytesInPerSec = fl 1, R1_MinRetainedBytes = 1073741824\<rparr>"

record r2Config =
  R2_MinEmptyDays :: i64

definition defaultR2 :: r2Config where
  "defaultR2 = \<lparr>R2_MinEmptyDays = 30\<rparr>"

definition dayMs :: i64 where
  "dayMs = 24 * 60 * 60 * 1000"

record r3Config =
  R3_LagMultiplier :: f64
  R3_MinRetainedBytes :: i64
  R3_MinFloorMs :: i64

definition defaultR3 :: r3Config where
  "defaultR3 = \<lparr>R3_LagMultiplier = fl 4, R3_MinRetainedBytes = 5368709120, R3_MinFloorMs = dayMs\<rparr>"

record r4Config =
  R4_MinPartitions :: i64
  R4_MaxBytesPerPartSec :: f64
  R4_TargetBytesPerPart :: f64
  R4_ConfluentPerPartitionEURMo :: f64

definition defaultR4 :: r4Config where
  "defaultR4 = \<lparr>R4_MinPartitions = 12, R4_MaxBytesPerPartSec = fl 1024,
     R4_TargetBytesPerPart = fl 1048576, R4_ConfluentPerPartitionEURMo = fl (5 / 10)\<rparr>"

record r5Config =
  R5_MinBytesInPerSec :: f64
  R5_AssumedRatio :: f64

definition defaultR5 :: r5Config where
  "defaultR5 = \<lparr>R5_MinBytesInPerSec = fl 1048576, R5_AssumedRatio = fl (65 / 100)\<rparr>"

record r6Config =
  R6_NamePattern :: "regexp option"
  R6_TriggerRF :: i64
  R6_ProposedRF :: i64

definition r6_separators :: gostring where
  "r6_separators = ''._-''"

definition r6_words :: "gostring list" where
  "r6_words = [''dev'', ''test'', ''tmp'', ''temp'', ''staging'', ''sandbox'']"

text \<open>\<open>(?i)(^|[._-])(dev|test|tmp|temp|staging|sandbox)([._-]|$)\<close>\<close>

definition r6_pattern :: regexp where
  "r6_pattern =
     \<lparr>re_source = ''(?i)(^|[._-])(dev|test|tmp|temp|staging|sandbox)([._-]|$)'',
      re_prog = ReSeq (ReAlt ReBegin (ReClass r6_separators))
                  (ReSeq (re_alts (map re_fold_lit r6_words))
                    (ReAlt (ReClass r6_separators) ReEnd))\<rparr>"

definition defaultR6 :: r6Config where
  "defaultR6 = \<lparr>R6_NamePattern = Some r6_pattern, R6_TriggerRF = 3, R6_ProposedRF = 2\<rparr>"

record r7Config =
  R7_SkewFactor :: f64
  R7_MinTopicBytes :: i64
  R7_MinPartitions :: i64

definition defaultR7 :: r7Config where
  "defaultR7 = \<lparr>R7_SkewFactor = fl 3, R7_MinTopicBytes = 1073741824, R7_MinPartitions = 3\<rparr>"

definition streamsInternalSuffixes :: "gostring list" where
  "streamsInternalSuffixes = [''-changelog'', ''-repartition'']"

record r8Config =
  R8_MinRetainedBytes :: i64
  R8_Suffixes :: "gostring list"

definition defaultR8 :: r8Config where
  "defaultR8 = \<lparr>R8_MinRetainedBytes = 268435456, R8_Suffixes = streamsInternalSuffixes\<rparr>"

record ruleConfig =
  Now :: gotime
  Disabled :: "gostring \<rightharpoonup> bool"
  R1 :: r1Config
  R2 :: r2Config
  R3 :: r3Config
  R4 :: r4Config
  R5 :: r5Config
  R6 :: r6Config
  R7 :: r7Config
  R8 :: r8Config

definition defaultConfig :: "gotime \<Rightarrow> ruleConfig" where
  "defaultConfig now =
     \<lparr>Now = now, Disabled = Map.empty, R1 = defaultR1, R2 = defaultR2, R3 = defaultR3,
      R4 = defaultR4, R5 = defaultR5, R6 = defaultR6, R7 = defaultR7, R8 = defaultR8\<rparr>"

record evalCtx =
  snap :: snapshot
  prices :: unitPrices
  cfg :: ruleConfig

subsection \<open>Helpers\<close>

definition round2 :: "f64 \<Rightarrow> f64" where
  "round2 f = fround (f * fl 100) / fl 100"

definition maxI64 :: "i64 \<Rightarrow> i64 \<Rightarrow> i64" where
  "maxI64 a b = (if b <s a then a else b)"

definition minF :: "f64 \<Rightarrow> f64 \<Rightarrow> f64" where
  "minF a b = (if a < b then a else b)"

definition gb :: "i64 \<Rightarrow> f64" where
  "gb bytes = of_i64 bytes / fl 1000000000"

definition severityForBytes :: "i64 \<Rightarrow> severity" where
  "severityForBytes b =
     (if 107374182400 \<le>s b then SeverityCritical
      else if 10737418240 \<le>s b then SeverityWarning
      else SeverityInfo)"

end
