(* ===== verification/RuleLoop.thy ===== *)
theory RuleLoop
  imports RuleTypes
begin

text \<open>
  What the eight evaluators share. Each is a loop over topics or groups whose body, for
  one element, skips it (\<open>continue\<close>), appends a finding, or panics; \<open>walk\<close> is the loop.
  The locale \<open>waste_rule\<close> states the contract of a rule (identity, resource key, a
  non-empty basis, never one-click for a plan, no panic and no negative or NaN saving
  under the default thresholds) and derives what the engine relies on; each rule's theory
  interprets it.
\<close>

datatype 'a step = Panic | Skip | Emit 'a

fun walk :: "('r \<Rightarrow> 'a step) \<Rightarrow> 'r list \<Rightarrow> 'a list option" where
  "walk f [] = Some []"
| "walk f (x # xs) =
     (case f x of Panic \<Rightarrow> None | Skip \<Rightarrow> walk f xs | Emit y \<Rightarrow> map_option ((#) y) (walk f xs))"

lemma walk_defined: "(\<And>x. x \<in> set xs \<Longrightarrow> f x \<noteq> Panic) \<Longrightarrow> \<exists>ys. walk f xs = Some ys"
proof (induction xs)
  case (Cons x xs)
  then obtain ys where "walk f xs = Some ys" by auto
  with Cons.prems[of x] show ?case by (cases "f x") auto
qed simp

lemma walk_set: "walk f xs = Some ys \<Longrightarrow> y \<in> set ys \<longleftrightarrow> (\<exists>x \<in> set xs. f x = Emit y)"
  by (induction xs arbitrary: ys) (auto split: step.splits)

lemma walk_image:
  assumes "walk f xs = Some ys" "\<And>x y. x \<in> set xs \<Longrightarrow> f x = Emit y \<longleftrightarrow> P x \<and> y = g x"
  shows "set ys = g ` {x \<in> set xs. P x}"
  using walk_set[OF assms(1)] assms(2) by blast

lemma walk_panic: "walk f xs = None \<longleftrightarrow> (\<exists>x \<in> set xs. f x = Panic)"
  by (induction xs) (auto split: step.splits)

lemma walk_subseq:
  assumes "walk f xs = Some ys" "\<And>x y. x \<in> set xs \<Longrightarrow> f x = Emit y \<Longrightarrow> g y = h x"
  shows "subseq (map g ys) (map h xs)"
  using assms by (induction xs arbitrary: ys) (auto split: step.splits intro: list_emb.intros)

lemma walk_append:
  "walk f (xs @ ys) = (case walk f xs of None \<Rightarrow> None | Some as \<Rightarrow> map_option ((@) as) (walk f ys))"
  by (induction xs; cases "walk f ys") (auto split: step.splits option.splits)

subsection \<open>Contexts the sign properties are stated for\<close>

definition topic_ok :: "topic \<Rightarrow> bool" where
  "topic_ok t \<longleftrightarrow> is_fin (BytesInPerSec t) \<and> 0 \<le> BytesInPerSec t \<and> 0 \<le> sint (RetainedBytes t)"

definition default_thresholds :: "ruleConfig \<Rightarrow> bool" where
  "default_thresholds c \<longleftrightarrow>
     R1 c = defaultR1 \<and> R2 c = defaultR2 \<and> R3 c = defaultR3 \<and> R4 c = defaultR4 \<and>
     R5 c = defaultR5 \<and> R6 c = defaultR6 \<and> R7 c = defaultR7 \<and> R8 c = defaultR8"

definition ctx_ok :: "evalCtx \<Rightarrow> bool" where
  "ctx_ok ctx \<longleftrightarrow> prices_ok (prices ctx) \<and> list_all topic_ok (Topics (snap ctx)) \<and>
     default_thresholds (cfg ctx)"

lemma default_thresholds_default [simp]: "default_thresholds (defaultConfig now)"
  by (simp add: default_thresholds_def defaultConfig_def)

lemma ctx_okD:
  assumes "ctx_ok ctx"
  shows "prices_ok (prices ctx)" "default_thresholds (cfg ctx)"
    "t \<in> set (Topics (snap ctx)) \<Longrightarrow> topic_ok t"
  using assms by (auto simp: ctx_ok_def list_all_iff)

subsection \<open>The contract of a rule\<close>

definition resource_key :: "gostring \<Rightarrow> gostring \<Rightarrow> gostring" where
  "resource_key rid name = rid @ '':'' @ name"

lemma resource_key_inject [simp]: "resource_key rid a = resource_key rid b \<longleftrightarrow> a = b"
  by (simp add: resource_key_def)

definition distinct_resources :: "evalCtx \<Rightarrow> bool" where
  "distinct_resources ctx \<longleftrightarrow>
     distinct (map Name (Topics (snap ctx))) \<and> distinct (map GroupID (Groups (snap ctx)))"

definition known_names :: "evalCtx \<Rightarrow> gostring set" where
  "known_names ctx = Name ` set (Topics (snap ctx)) \<union> GroupID ` set (Groups (snap ctx))"

text \<open>What the engine needs of an evaluator.\<close>

locale engine_rule =
  fixes id :: gostring and ev :: "evalCtx \<Rightarrow> finding list option"
  assumes ev_defined: "default_thresholds (cfg ctx) \<Longrightarrow> \<exists>fs. ev ctx = Some fs"
    and ev_id: "ev ctx = Some fs \<Longrightarrow> f \<in> set fs \<Longrightarrow> RuleID f = id"
    and ev_key: "ev ctx = Some fs \<Longrightarrow> f \<in> set fs \<Longrightarrow>
      \<exists>n \<in> known_names ctx. ResourceKey f = resource_key id n"
    and ev_basis: "ev ctx = Some fs \<Longrightarrow> f \<in> set fs \<Longrightarrow> Basis f \<noteq> []"
    and ev_plan: "ev ctx = Some fs \<Longrightarrow> f \<in> set fs \<Longrightarrow> Severity f = SeverityPlan \<Longrightarrow>
      \<not> OneClick (Remediation f)"
    and ev_saving: "ctx_ok ctx \<Longrightarrow> ev ctx = Some fs \<Longrightarrow> f \<in> set fs \<Longrightarrow> 0 \<le> EstSavingEUR f"
    and ev_distinct: "distinct_resources ctx \<Longrightarrow> ev ctx = Some fs \<Longrightarrow> distinct (map ResourceKey fs)"

text \<open>What each rule provides: its loop body.\<close>

locale waste_rule =
  fixes rid :: gostring
    and resources :: "evalCtx \<Rightarrow> 'r list"
    and name :: "'r \<Rightarrow> gostring"
    and body :: "evalCtx \<Rightarrow> 'r \<Rightarrow> finding step"
  assumes names_distinct: "distinct_resources ctx \<Longrightarrow> distinct (map name (resources ctx))"
    and names_known: "name ` set (resources ctx) \<subseteq> known_names ctx"
    and rule_id: "body ctx r = Emit f \<Longrightarrow> RuleID f = rid"
    and rule_key: "body ctx r = Emit f \<Longrightarrow> ResourceKey f = resource_key rid (name r)"
    and rule_basis: "body ctx r = Emit f \<Longrightarrow> Basis f \<noteq> []"
    and rule_plan: "body ctx r = Emit f \<Longrightarrow> Severity f = SeverityPlan \<Longrightarrow> \<not> OneClick (Remediation f)"
    and rule_no_panic: "default_thresholds (cfg ctx) \<Longrightarrow> body ctx r \<noteq> Panic"
    and rule_saving: "ctx_ok ctx \<Longrightarrow> r \<in> set (resources ctx) \<Longrightarrow> body ctx r = Emit f \<Longrightarrow>
      0 \<le> EstSavingEUR f"
begin

lemma findings_defined: "default_thresholds (cfg ctx) \<Longrightarrow> \<exists>fs. walk (body ctx) (resources ctx) = Some fs"
  by (rule walk_defined) (rule rule_no_panic)

lemma findings_origin:
  assumes "walk (body ctx) (resources ctx) = Some fs" "f \<in> set fs"
  obtains r where "r \<in> set (resources ctx)" "body ctx r = Emit f"
  using assms walk_set[of "body ctx" "resources ctx" fs f] by auto

lemma findings_contract:
  assumes "walk (body ctx) (resources ctx) = Some fs" "f \<in> set fs"
  shows "RuleID f = rid" "Basis f \<noteq> []" "Severity f = SeverityPlan \<Longrightarrow> \<not> OneClick (Remediation f)"
    "\<exists>r \<in> set (resources ctx). ResourceKey f = resource_key rid (name r)"
    "ctx_ok ctx \<Longrightarrow> 0 \<le> EstSavingEUR f"
  using findings_origin[OF assms] rule_id rule_key rule_basis rule_plan rule_saving by metis+

lemma findings_keys:
  assumes "walk (body ctx) (resources ctx) = Some fs"
  shows "subseq (map ResourceKey fs) (map (\<lambda>r. resource_key rid (name r)) (resources ctx))"
  using assms by (rule walk_subseq) (rule rule_key)

text \<open>At most one finding per resource.\<close>

lemma findings_distinct:
  assumes "walk (body ctx) (resources ctx) = Some fs" "distinct (map name (resources ctx))"
  shows "distinct (map ResourceKey fs)"
proof (rule subseq_distinct[OF findings_keys[OF assms(1)]])
  have "distinct (map (resource_key rid) (map name (resources ctx)))"
    using assms(2) by (simp only: distinct_map) (auto simp: inj_on_def)
  then show "distinct (map (\<lambda>r. resource_key rid (name r)) (resources ctx))"
    by (simp add: comp_def)
qed

end

sublocale waste_rule \<subseteq> engine_rule rid "\<lambda>ctx. walk (body ctx) (resources ctx)"
proof unfold_locales
  fix ctx fs f
  assume o: "walk (body ctx) (resources ctx) = Some fs" "f \<in> set fs"
  show "\<exists>n \<in> known_names ctx. ResourceKey f = resource_key rid n"
    using findings_contract(4)[OF o] names_known[of ctx] by auto
qed (auto simp: findings_defined findings_contract intro: findings_distinct names_distinct)

subsection \<open>Arithmetic the rules share\<close>

lemma round2_nonneg [f64_nonneg]: "0 \<le> x \<Longrightarrow> 0 \<le> round2 x"
  unfolding round2_def
  by (intro div_pos_nonneg fround_nonneg mul_pos_nonneg) (simp_all add: less_fin)

lemma round2_mono: "x \<le> y \<Longrightarrow> round2 x \<le> round2 y"
  unfolding round2_def by (intro div_mono_pos fround_mono mul_mono_pos) simp_all

lemma gb_nonneg [f64_nonneg]: "0 \<le> sint b \<Longrightarrow> 0 \<le> gb b"
  unfolding gb_def by (intro div_pos_nonneg of_i64_nonneg) (simp_all add: less_fin)

lemma gb_rnd: "gb b = rnd (signbit (of_i64 b)) (val (of_i64 b) / 1000000000)"
  by (simp add: gb_def div_fin)

lemma gb_fin [simp]: "is_fin (gb b)" and gb_le: "val (gb b) \<le> pow2 34"
proof -
  let ?q = "val (of_i64 b) / 1000000000"
  have "\<bar>val (of_i64 b)\<bar> \<le> 2 ^ 63" by (rule of_i64_abs_le)
  then have q: "\<bar>?q\<bar> \<le> pow2 34" by (simp add: pow2_def)
  also have "pow2 34 \<le> pow2 1023" by (rule pow2_mono) simp
  finally show f: "is_fin (gb b)" unfolding gb_rnd by (rule rnd_fin_small)
  have "rne ?q \<le> pow2 34" using q by (intro rne_le_representable representable_pow2) auto
  moreover have "val (gb b) = rne ?q" using f unfolding gb_rnd by (rule rnd_val)
  ultimately show "val (gb b) \<le> pow2 34" by simp
qed


text \<open>The storage bill of a topic, as the rules price it.\<close>

definition storage_bill :: "unitPrices \<Rightarrow> topic \<Rightarrow> f64" where
  "storage_bill p t = round2 (gb (RetainedBytes t) * StorageEURPerGBMo p)"

lemma storage_share_le:
  assumes "prices_ok p" "x \<le> gb (RetainedBytes t)" "is_fin x"
  shows "round2 (x * StorageEURPerGBMo p) \<le> storage_bill p t"
  unfolding storage_bill_def using prices_okD[OF assms(1)] assms
  by (intro round2_mono mul_mono_fin) (simp_all add: le_fin)

end
