(* ===== verification/DemoData.thy ===== *)
theory DemoData
  imports RuleLoop
begin

text \<open>
  The snapshot embedded in the command line tool (\<open>cmd/brod/sample_snapshot.json\<close>), the
  concrete input of the witnesses: five topics and two groups, one for each of the rules
  R1 to R6.
\<close>

definition demo_topic :: "gostring \<Rightarrow> i64 \<Rightarrow> i64 \<Rightarrow> gostring \<Rightarrow> i64 \<Rightarrow> rat \<Rightarrow> rat \<Rightarrow> i64 \<Rightarrow> i64 \<Rightarrow> i64 \<Rightarrow> topic" where
  "demo_topic nm parts retention ctype retained rin rout latestOff lag consumers =
     \<lparr>Name = nm, Partitions = parts, ReplicationFactor = 3, RetentionMs = retention,
      CompressionType = ctype, CleanupPolicy = ''delete'', RetainedBytes = retained,
      BytesInPerSec = fl rin, BytesOutPerSec = fl rout, ThroughputSource = ''metrics'',
      PartitionBytes = [], EarliestOffset = 0, LatestOffset = latestOff,
      MaxConsumerLagMs = lag, ActiveConsumers = consumers\<rparr>"

definition events_raw :: topic where
  "events_raw = demo_topic ''events.raw'' 6 604800000 ''none'' 42949672960 2097152 1048576 9000000 (- 1) 2"

definition clicks :: topic where
  "clicks = demo_topic ''clicks'' 6 2592000000 ''zstd'' 32212254720 2048 1024 120000 3600000 3"

definition legacy_dump :: topic where
  "legacy_dump = demo_topic ''legacy.dump'' 3 (- 1) ''zstd'' 21474836480 0 0 4500 (- 1) 0"

definition dev_orders :: topic where
  "dev_orders = demo_topic ''dev.orders'' 3 86400000 ''zstd'' 10737418240 1000 500 80000 (- 1) 1"

definition metrics_fine :: topic where
  "metrics_fine = demo_topic ''metrics.fine'' 48 259200000 ''zstd'' 8589934592 10240 5120 700000 (- 1) 1"

definition etl_legacy :: consumerGrp where
  "etl_legacy = \<lparr>GroupID = ''etl-legacy'', State = ''Empty'', LastCommitAgeDays = 95\<rparr>"

definition billing :: consumerGrp where
  "billing = \<lparr>GroupID = ''billing'', State = ''Stable'', LastCommitAgeDays = 0\<rparr>"

definition sample_snapshot :: snapshot where
  "sample_snapshot =
     \<lparr>TakenAt = utc 1781524800000000000, Cluster = \<lparr>ClusterName = ''demo-prod'', ClusterProvider = ''self''\<rparr>,
      Topics = [events_raw, clicks, legacy_dump, dev_orders, metrics_fine],
      Groups = [billing, etl_legacy],
      Brokers = [\<lparr>BrokerID = 1, LogDirBytes = 60000000000\<rparr>, \<lparr>BrokerID = 2, LogDirBytes = 58000000000\<rparr>,
                 \<lparr>BrokerID = 3, LogDirBytes = 59000000000\<rparr>]\<rparr>"

text \<open>No cost given: the preset prices.\<close>

definition demo_model :: costModel where
  "demo_model =
     \<lparr>cm_Provider = ''self'', cm_MonthlyCostEUR = fl 0, cm_StorageEURPerGBMo = fl 0,
      cm_NetworkEURPerGB = fl 0, cm_Weights = defaultWeights\<rparr>"

definition demo_ctx :: evalCtx where
  "demo_ctx = \<lparr>snap = sample_snapshot, prices = resolve demo_model 115964116992, cfg = defaultConfig zero_time\<rparr>"

lemma events_raw_simps [simp]:
  "Name events_raw = ''events.raw''" "Partitions events_raw = 6" "ReplicationFactor events_raw = 3" "RetentionMs events_raw = 604800000"
  "CompressionType events_raw = ''none''" "RetainedBytes events_raw = 42949672960" "BytesInPerSec events_raw = Fin 2097152"
  "BytesOutPerSec events_raw = Fin 1048576" "PartitionBytes events_raw = []" "MaxConsumerLagMs events_raw = - 1" "ActiveConsumers events_raw = 2"
  by (simp_all add: events_raw_def demo_topic_def)

lemma clicks_simps [simp]:
  "Name clicks = ''clicks''" "Partitions clicks = 6" "ReplicationFactor clicks = 3" "RetentionMs clicks = 2592000000"
  "CompressionType clicks = ''zstd''" "RetainedBytes clicks = 32212254720" "BytesInPerSec clicks = Fin 2048"
  "BytesOutPerSec clicks = Fin 1024" "PartitionBytes clicks = []" "MaxConsumerLagMs clicks = 3600000" "ActiveConsumers clicks = 3"
  by (simp_all add: clicks_def demo_topic_def)

lemma legacy_dump_simps [simp]:
  "Name legacy_dump = ''legacy.dump''" "Partitions legacy_dump = 3" "ReplicationFactor legacy_dump = 3" "RetentionMs legacy_dump = - 1"
  "CompressionType legacy_dump = ''zstd''" "RetainedBytes legacy_dump = 21474836480" "BytesInPerSec legacy_dump = Fin 0"
  "BytesOutPerSec legacy_dump = Fin 0" "PartitionBytes legacy_dump = []" "MaxConsumerLagMs legacy_dump = - 1" "ActiveConsumers legacy_dump = 0"
  by (simp_all add: legacy_dump_def demo_topic_def)

lemma dev_orders_simps [simp]:
  "Name dev_orders = ''dev.orders''" "Partitions dev_orders = 3" "ReplicationFactor dev_orders = 3" "RetentionMs dev_orders = 86400000"
  "CompressionType dev_orders = ''zstd''" "RetainedBytes dev_orders = 10737418240" "BytesInPerSec dev_orders = Fin 1000"
  "BytesOutPerSec dev_orders = Fin 500" "PartitionBytes dev_orders = []" "MaxConsumerLagMs dev_orders = - 1" "ActiveConsumers dev_orders = 1"
  by (simp_all add: dev_orders_def demo_topic_def)

lemma metrics_fine_simps [simp]:
  "Name metrics_fine = ''metrics.fine''" "Partitions metrics_fine = 48" "ReplicationFactor metrics_fine = 3" "RetentionMs metrics_fine = 259200000"
  "CompressionType metrics_fine = ''zstd''" "RetainedBytes metrics_fine = 8589934592" "BytesInPerSec metrics_fine = Fin 10240"
  "BytesOutPerSec metrics_fine = Fin 5120" "PartitionBytes metrics_fine = []" "MaxConsumerLagMs metrics_fine = - 1" "ActiveConsumers metrics_fine = 1"
  by (simp_all add: metrics_fine_def demo_topic_def)

lemma demo_group_simps [simp]:
  "GroupID billing = ''billing''" "State billing = ''Stable''" "LastCommitAgeDays billing = 0"
  "GroupID etl_legacy = ''etl-legacy''" "State etl_legacy = ''Empty''" "LastCommitAgeDays etl_legacy = 95"
  by (simp_all add: billing_def etl_legacy_def)

lemma demo_snapshot_simps [simp]:
  "Topics sample_snapshot = [events_raw, clicks, legacy_dump, dev_orders, metrics_fine]"
  "Groups sample_snapshot = [billing, etl_legacy]" "Cluster sample_snapshot = \<lparr>ClusterName = ''demo-prod'', ClusterProvider = ''self''\<rparr>"
  by (simp_all add: sample_snapshot_def)

lemma demo_ctx_simps [simp]:
  "snap demo_ctx = sample_snapshot" "cfg demo_ctx = defaultConfig zero_time" "prices demo_ctx = resolve demo_model 115964116992"
  by (simp_all add: demo_ctx_def)

lemma default_cfg [simp]:
  "R1 (defaultConfig now) = defaultR1" "R2 (defaultConfig now) = defaultR2" "R3 (defaultConfig now) = defaultR3"
  "R4 (defaultConfig now) = defaultR4" "R5 (defaultConfig now) = defaultR5" "R6 (defaultConfig now) = defaultR6"
  "R7 (defaultConfig now) = defaultR7" "R8 (defaultConfig now) = defaultR8" "Disabled (defaultConfig now) = Map.empty"
  by (simp_all add: defaultConfig_def)

lemma demo_model_ok: "model_ok demo_model"
proof -
  have "\<not> weights_unset defaultWeights"
    using weight_bounds by (auto simp: weights_unset_def feq_fin)
  then show ?thesis
    by (simp add: model_ok_def demo_model_def effective_weights_def f64_ok_def)
qed

lemma demo_topics_ok: "list_all topic_ok (Topics sample_snapshot)"
  by (simp add: topic_ok_def le_fin)

lemma demo_ctx_ok: "ctx_ok demo_ctx"
  using resolve_prices_ok[OF demo_model_ok] demo_topics_ok by (simp add: ctx_ok_def)

end
