(* ===== verification/R8Internal.thy ===== *)
theory R8Internal
  imports DemoData
begin

text \<open>
  R8, idle-but-retained Kafka Streams internal topics (\<open>r8_internal.go\<close>): a topic with an
  internal suffix, of which no consumer group id is a prefix, is orphaned.
\<close>

fun matchSuffix :: "gostring \<Rightarrow> gostring list \<Rightarrow> gostring" where
  "matchSuffix name [] = ''''"
| "matchSuffix name (s # rest) = (if hasSuffix name s then s else matchSuffix name rest)"

definition isStreamsInternal :: "gostring \<Rightarrow> bool" where
  "isStreamsInternal name \<longleftrightarrow> matchSuffix name streamsInternalSuffixes \<noteq> ''''"

fun hasOwningApp :: "gostring \<Rightarrow> consumerGrp list \<Rightarrow> bool" where
  "hasOwningApp t [] = False"
| "hasOwningApp t (g # groups) =
     (if GroupID g \<noteq> '''' \<and> hasPrefix t (GroupID g) then True else hasOwningApp t groups)"

definition r8_finding :: "evalCtx \<Rightarrow> topic \<Rightarrow> gostring \<Rightarrow> finding" where
  "r8_finding ctx t sfx =
     (let retainedGB = gb (RetainedBytes t);
          eur = retainedGB * StorageEURPerGBMo (prices ctx)
      in \<lparr>RuleID = ''R8'', RuleVersion = 1,
          Title = ''Orphaned internal topic '' @ go_quote (Name t) @ '': '' @ fmt_f 1 retainedGB @
            '' GB, owning app gone'',
          Severity = severityForBytes (RetainedBytes t),
          ResourceKey = ''R8:'' @ Name t,
          Evidence =
            [(''suffix'', EvStr sfx),
             (''retained_gb'', EvFloat (round2 retainedGB)),
             (''owning_group_present'', EvBool False),
             (''approximation'', EvStr (''single snapshot '' @ utf_emdash @
                '' confirm the Streams/Connect app is truly gone before deleting''))],
          EstSavingEUR = round2 eur,
          Basis = ''APPROXIMATION: no consumer group is a prefix of '' @ go_quote (Name t) @
            '' (Streams application.id absent) '' @ utf_rarrow @ '' orphaned. '' @
            fmt_f 1 retainedGB @ '' GB '' @ utf_times @ '' '' @
            fmt_f 4 (StorageEURPerGBMo (prices ctx)) @ '' '' @ utf_euro @ ''/GB-mo. Storage basis: '' @
            StorageBasis (prices ctx),
          Confidence = ConfidenceMedium,
          Remediation =
            \<lparr>Summary = ''Delete orphaned internal topic '' @ go_quote (Name t) @
               '' after confirming no Kafka Streams/Connect app owns it.'',
             KafkaConfigsCmd = ''kafka-topics --delete --topic '' @ Name t,
             TerraformDiff = '''', StrimziYAML = '''', OneClick = False\<rparr>\<rparr>)"

definition r8_body :: "evalCtx \<Rightarrow> topic \<Rightarrow> finding step" where
  "r8_body ctx t =
     (let c = R8 (cfg ctx); sfx = matchSuffix (Name t) (R8_Suffixes c)
      in if sfx = '''' then Skip
         else if RetainedBytes t <s R8_MinRetainedBytes c then Skip
         else if hasOwningApp (Name t) (Groups (snap ctx)) then Skip
         else Emit (r8_finding ctx t sfx))"

definition evalR8 :: "evalCtx \<Rightarrow> finding list option" where
  "evalR8 ctx = walk (r8_body ctx) (Topics (snap ctx))"

subsection \<open>Suffixes and owners\<close>

lemma matchSuffix_nonempty_iff:
  "matchSuffix name ss \<noteq> '''' \<longleftrightarrow> (\<exists>s \<in> set (takeWhile (\<lambda>s. s \<noteq> '''') ss). hasSuffix name s)"
  by (induction ss) (auto simp: hasSuffix_def)

lemma isStreamsInternal_iff:
  "isStreamsInternal name \<longleftrightarrow> suffix ''-changelog'' name \<or> suffix ''-repartition'' name"
  by (simp add: isStreamsInternal_def matchSuffix_nonempty_iff streamsInternalSuffixes_def
      hasSuffix_suffix)

lemma hasOwningApp_iff:
  "hasOwningApp t gs \<longleftrightarrow> (\<exists>g \<in> set gs. GroupID g \<noteq> '''' \<and> prefix (GroupID g) t)"
  by (induction gs) (auto simp: hasPrefix_prefix)

subsection \<open>The contract\<close>

lemma r8_emit:
  "r8_body ctx t = Emit f \<longleftrightarrow>
     matchSuffix (Name t) (R8_Suffixes (R8 (cfg ctx))) \<noteq> '''' \<and>
     R8_MinRetainedBytes (R8 (cfg ctx)) \<le>s RetainedBytes t \<and>
     \<not> hasOwningApp (Name t) (Groups (snap ctx)) \<and>
     f = r8_finding ctx t (matchSuffix (Name t) (R8_Suffixes (R8 (cfg ctx))))"
  by (auto simp: r8_body_def Let_def signed_cmp)

lemma r8_no_panic: "r8_body ctx t \<noteq> Panic"
  by (simp add: r8_body_def Let_def)

lemma r8_finding_shape [finding_shape]:
  "RuleID (r8_finding ctx t s) = ''R8''"
  "ResourceKey (r8_finding ctx t s) = resource_key ''R8'' (Name t)"
  "Basis (r8_finding ctx t s) \<noteq> ''''"
  "OneClick (Remediation (r8_finding ctx t s)) = False"
  "EstSavingEUR (r8_finding ctx t s) = round2 (gb (RetainedBytes t) * StorageEURPerGBMo (prices ctx))"
  by (simp_all add: r8_finding_def Let_def resource_key_def)

interpretation r8: waste_rule "''R8''" "\<lambda>ctx. Topics (snap ctx)" Name r8_body
proof unfold_locales
  fix ctx t f
  assume ok: "ctx_ok ctx" "t \<in> set (Topics (snap ctx))" and f: "r8_body ctx t = Emit f"
  have "0 \<le> sint (RetainedBytes t)" using ctx_okD(3)[OF ok] by (simp add: topic_ok_def)
  with f prices_okD[OF ctx_okD(1)[OF ok(1)]] show "0 \<le> EstSavingEUR f"
    by (auto simp: r8_emit finding_shape intro!: f64_nonneg)
qed (auto simp: r8_emit r8_no_panic finding_shape simp: distinct_resources_def known_names_def)

lemma r8_bounded:
  assumes "ctx_ok ctx" "r8_body ctx t = Emit f"
  shows "EstSavingEUR f \<le> storage_bill (prices ctx) t"
  using assms storage_share_le[OF ctx_okD(1)[OF assms(1)], of "gb (RetainedBytes t)" t]
  by (auto simp: r8_emit finding_shape le_fin)

end
