(* ===== verification/R1DeadTopic.thy ===== *)
theory R1DeadTopic
  imports R8Internal
begin

text \<open>
  R1, dead topics (\<open>r1_dead_topic.go\<close>): next to no ingest, no active consumer, enough
  retained bytes, and not a Kafka Streams internal topic (those are R8's).
\<close>

definition r1_finding :: "evalCtx \<Rightarrow> topic \<Rightarrow> finding" where
  "r1_finding ctx t =
     (let retainedGB = gb (RetainedBytes t);
          eur = retainedGB * StorageEURPerGBMo (prices ctx)
      in \<lparr>RuleID = ''R1'', RuleVersion = 2,
          Title = ''Topic '' @ go_quote (Name t) @ '' looks dead: '' @ fmt_f 1 retainedGB @
            '' GB retained, no traffic, no consumers'',
          Severity = severityForBytes (RetainedBytes t),
          ResourceKey = ''R1:'' @ Name t,
          Evidence =
            [(''bytes_in_per_sec'', EvFloat (BytesInPerSec t)),
             (''active_consumers'', EvInt (ActiveConsumers t)),
             (''retained_gb'', EvFloat (round2 retainedGB)),
             (''approximation'', EvStr (''single snapshot '' @ utf_emdash @
                '' SaaS confirms over 30d before booking''))],
          EstSavingEUR = round2 eur,
          Basis = ''APPROXIMATION (single snapshot): '' @ fmt_f 1 retainedGB @ '' GB '' @ utf_times @
            '' '' @ fmt_f 4 (StorageEURPerGBMo (prices ctx)) @ '' '' @ utf_euro @
            ''/GB-mo. Storage basis: '' @ StorageBasis (prices ctx),
          Confidence = ConfidenceLow,
          Remediation =
            \<lparr>Summary = ''Delete topic '' @ go_quote (Name t) @
               '' after confirming no producers/consumers depend on it.'',
             KafkaConfigsCmd = ''kafka-topics --delete --topic '' @ Name t,
             TerraformDiff = ''- resource '' @ dquote @ ''kafka_topic'' @ dquote @ '' '' @
               go_quote (Name t) @ '' { ... }'',
             StrimziYAML = '''', OneClick = False\<rparr>\<rparr>)"

definition r1_body :: "evalCtx \<Rightarrow> topic \<Rightarrow> finding step" where
  "r1_body ctx t =
     (let c = R1 (cfg ctx)
      in if isStreamsInternal (Name t) then Skip
         else if R1_MaxBytesInPerSec c < BytesInPerSec t then Skip
         else if 0 <s ActiveConsumers t then Skip
         else if RetainedBytes t <s R1_MinRetainedBytes c then Skip
         else Emit (r1_finding ctx t))"

definition evalR1 :: "evalCtx \<Rightarrow> finding list option" where
  "evalR1 ctx = walk (r1_body ctx) (Topics (snap ctx))"

lemma r1_emit:
  "r1_body ctx t = Emit f \<longleftrightarrow>
     \<not> isStreamsInternal (Name t) \<and>
     \<not> R1_MaxBytesInPerSec (R1 (cfg ctx)) < BytesInPerSec t \<and>
     sint (ActiveConsumers t) \<le> 0 \<and>
     R1_MinRetainedBytes (R1 (cfg ctx)) \<le>s RetainedBytes t \<and>
     f = r1_finding ctx t"
  by (auto simp: r1_body_def Let_def signed_cmp)

lemma r1_no_panic: "r1_body ctx t \<noteq> Panic"
  by (simp add: r1_body_def Let_def)

lemma r1_finding_shape [finding_shape]:
  "RuleID (r1_finding ctx t) = ''R1''"
  "ResourceKey (r1_finding ctx t) = resource_key ''R1'' (Name t)"
  "Basis (r1_finding ctx t) \<noteq> ''''"
  "OneClick (Remediation (r1_finding ctx t)) = False"
  "EstSavingEUR (r1_finding ctx t) = round2 (gb (RetainedBytes t) * StorageEURPerGBMo (prices ctx))"
  by (simp_all add: r1_finding_def Let_def resource_key_def)

interpretation r1: waste_rule "''R1''" "\<lambda>ctx. Topics (snap ctx)" Name r1_body
proof unfold_locales
  fix ctx t f
  assume ok: "ctx_ok ctx" "t \<in> set (Topics (snap ctx))" and f: "r1_body ctx t = Emit f"
  have "0 \<le> sint (RetainedBytes t)" using ctx_okD(3)[OF ok] by (simp add: topic_ok_def)
  with f prices_okD[OF ctx_okD(1)[OF ok(1)]] show "0 \<le> EstSavingEUR f"
    by (auto simp: r1_emit finding_shape intro!: f64_nonneg)
qed (auto simp: r1_emit r1_no_panic finding_shape simp: distinct_resources_def known_names_def)

lemma r1_bounded:
  assumes "ctx_ok ctx" "r1_body ctx t = Emit f"
  shows "EstSavingEUR f \<le> storage_bill (prices ctx) t"
  using assms storage_share_le[OF ctx_okD(1)[OF assms(1)], of "gb (RetainedBytes t)" t]
  by (auto simp: r1_emit finding_shape le_fin)

end
