(* ===== verification/R2ZombieGroup.thy ===== *)
theory R2ZombieGroup
  imports DemoData
begin

text \<open>
  R2, zombie consumer groups (\<open>r2_zombie_group.go\<close>): empty for at least the configured
  number of days; groups whose age is unknown (negative) are skipped.
\<close>

definition r2_finding :: "consumerGrp \<Rightarrow> finding" where
  "r2_finding g =
     \<lparr>RuleID = ''R2'', RuleVersion = 1,
      Title = ''Zombie consumer group '' @ go_quote (GroupID g) @ '': empty for '' @
        fmt_d (LastCommitAgeDays g) @ ''d'',
      Severity = SeverityInfo,
      ResourceKey = ''R2:'' @ GroupID g,
      Evidence =
        [(''state'', EvStr ''Empty''),
         (''last_commit_age_days'', EvInt (LastCommitAgeDays g))],
      EstSavingEUR = 0,
      Basis = ''hygiene finding '' @ utf_emdash @ '' '' @ utf_euro @
        ''0 savings; clears stale committed-offset state for a long-empty group'',
      Confidence = ConfidenceHigh,
      Remediation =
        \<lparr>Summary = ''Delete the long-empty consumer group '' @ go_quote (GroupID g) @
           '' (bundle into a cleanup PR).'',
         KafkaConfigsCmd = ''kafka-consumer-groups --delete --group '' @ GroupID g,
         TerraformDiff = '''', StrimziYAML = '''', OneClick = False\<rparr>\<rparr>"

definition r2_body :: "evalCtx \<Rightarrow> consumerGrp \<Rightarrow> finding step" where
  "r2_body ctx g =
     (if \<not> equal_fold (trim_space (State g)) ''Empty'' then Skip
      else if LastCommitAgeDays g <s 0 then Skip
      else if LastCommitAgeDays g <s R2_MinEmptyDays (R2 (cfg ctx)) then Skip
      else Emit (r2_finding g))"

definition evalR2 :: "evalCtx \<Rightarrow> finding list option" where
  "evalR2 ctx = walk (r2_body ctx) (Groups (snap ctx))"

lemma r2_emit:
  "r2_body ctx g = Emit f \<longleftrightarrow>
     equal_fold (trim_space (State g)) ''Empty'' \<and>
     0 \<le> sint (LastCommitAgeDays g) \<and>
     R2_MinEmptyDays (R2 (cfg ctx)) \<le>s LastCommitAgeDays g \<and>
     f = r2_finding g"
  by (auto simp: r2_body_def signed_cmp)

lemma r2_no_panic: "r2_body ctx g \<noteq> Panic"
  by (simp add: r2_body_def)

lemma r2_finding_shape [finding_shape]:
  "RuleID (r2_finding g) = ''R2''"
  "ResourceKey (r2_finding g) = resource_key ''R2'' (GroupID g)"
  "Basis (r2_finding g) \<noteq> ''''"
  "OneClick (Remediation (r2_finding g)) = False"
  "EstSavingEUR (r2_finding g) = 0"
  by (simp_all add: r2_finding_def resource_key_def)

interpretation r2: waste_rule "''R2''" "\<lambda>ctx. Groups (snap ctx)" GroupID r2_body
  by unfold_locales (auto simp: r2_emit r2_no_panic finding_shape le_fin distinct_resources_def known_names_def)

end
