(* ===== verification/R3Retention.thy ===== *)
theory R3Retention
  imports DemoData
begin

text \<open>
  R3, retention overkill (\<open>r3_retention.go\<close>): the retention exceeds a multiple of the
  largest consumer lag; the proposal is twice the lag, but at least the floor. The
  multiplication by two is the 64-bit one and wraps.
\<close>

text \<open>\<open>Snapshot.lookupBytesInPerSec\<close>: the first topic of that name.\<close>

fun lookup_in :: "topic list \<Rightarrow> gostring \<Rightarrow> f64" where
  "lookup_in [] name = 0"
| "lookup_in (t # ts) name = (if Name t = name then BytesInPerSec t else lookup_in ts name)"

definition lookupBytesInPerSec :: "snapshot \<Rightarrow> gostring \<Rightarrow> f64" where
  "lookupBytesInPerSec s name = lookup_in (Topics s) name"

definition durMs :: "i64 \<Rightarrow> gostring" where
  "durMs ms =
     (if ms <s 0 then utf_infinity
      else (let d = of_i64 ms / of_i64 dayMs
            in if fl 1 \<le> d then fmt_f 1 d @ ''d''
               else fmt_f 1 (of_i64 ms / fl (60 * 60 * 1000)) @ ''h''))"

definition r3_proposed :: "r3Config \<Rightarrow> topic \<Rightarrow> i64" where
  "r3_proposed c t = maxI64 (R3_MinFloorMs c) (2 * MaxConsumerLagMs t)"

text \<open>Projected bytes at the proposed retention, never more than what is on disk.\<close>

definition r3_projected :: "snapshot \<Rightarrow> topic \<Rightarrow> i64 \<Rightarrow> f64" where
  "r3_projected s t proposed =
     minF (lookupBytesInPerSec s (Name t) * of_i64 proposed / fl 1000) (of_i64 (RetainedBytes t))"

definition r3_savedGB :: "snapshot \<Rightarrow> topic \<Rightarrow> i64 \<Rightarrow> f64" where
  "r3_savedGB s t proposed = (of_i64 (RetainedBytes t) - r3_projected s t proposed) / fl 1000000000"

definition r3_finding :: "evalCtx \<Rightarrow> topic \<Rightarrow> i64 \<Rightarrow> finding" where
  "r3_finding ctx t proposed =
     (let projected = r3_projected (snap ctx) t proposed;
          savedGB = r3_savedGB (snap ctx) t proposed;
          eur = savedGB * StorageEURPerGBMo (prices ctx)
      in \<lparr>RuleID = ''R3'', RuleVersion = 1,
          Title = ''Topic '' @ go_quote (Name t) @ '' keeps '' @ durMs (RetentionMs t) @
            '' retention vs '' @ durMs (MaxConsumerLagMs t) @ '' consumption horizon'',
          Severity = SeverityWarning,
          ResourceKey = ''R3:'' @ Name t,
          Evidence =
            [(''retention_ms'', EvInt (RetentionMs t)),
             (''proposed_retention_ms'', EvInt proposed),
             (''max_consumer_lag_ms'', EvInt (MaxConsumerLagMs t)),
             (''retained_gb'', EvFloat (round2 (gb (RetainedBytes t)))),
             (''projected_gb'', EvFloat (round2 (projected / fl 1000000000)))],
          EstSavingEUR = round2 eur,
          Basis = ''('' @ fmt_f 1 (gb (RetainedBytes t)) @ '' GB current '' @ utf_minus @ '' '' @
            fmt_f 1 (projected / fl 1000000000) @ '' GB projected at '' @ durMs proposed @ '') '' @
            utf_times @ '' '' @ fmt_f 4 (StorageEURPerGBMo (prices ctx)) @ '' '' @ utf_euro @
            ''/GB-mo; projected = bytes-in '' @ utf_times @ '' proposed retention. Storage basis: '' @
            StorageBasis (prices ctx),
          Confidence = ConfidenceMedium,
          Remediation =
            \<lparr>Summary = ''Lower retention.ms on '' @ go_quote (Name t) @ '' to '' @ fmt_d proposed @
               '' ('' @ durMs proposed @ '').'',
             KafkaConfigsCmd = ''kafka-configs --alter --topic '' @ Name t @
               '' --add-config retention.ms='' @ fmt_d proposed,
             TerraformDiff = ''  config = {'' @ newline @
               ''-   '' @ dquote @ ''retention.ms'' @ dquote @ '' = '' @ dquote @ fmt_d (RetentionMs t) @ dquote @ newline @
               ''+   '' @ dquote @ ''retention.ms'' @ dquote @ '' = '' @ dquote @ fmt_d proposed @ dquote @ newline @
               ''  }'',
             StrimziYAML = ''    config:'' @ newline @ ''      retention.ms: '' @ fmt_d proposed,
             OneClick = True\<rparr>\<rparr>)"

definition r3_body :: "evalCtx \<Rightarrow> topic \<Rightarrow> finding step" where
  "r3_body ctx t =
     (let c = R3 (cfg ctx)
      in if RetainedBytes t <s R3_MinRetainedBytes c then Skip
         else if MaxConsumerLagMs t <s 0 then Skip
         else if 0 \<le>s RetentionMs t \<and>
                 of_i64 (RetentionMs t) \<le> R3_LagMultiplier c * of_i64 (MaxConsumerLagMs t) then Skip
         else (let proposed = r3_proposed c t
               in if 0 \<le>s RetentionMs t \<and> RetentionMs t \<le>s proposed then Skip
                  else if r3_savedGB (snap ctx) t proposed \<le> 0 then Skip
                  else Emit (r3_finding ctx t proposed)))"

definition evalR3 :: "evalCtx \<Rightarrow> finding list option" where
  "evalR3 ctx = walk (r3_body ctx) (Topics (snap ctx))"

subsection \<open>The contract\<close>

lemma r3_emit:
  "r3_body ctx t = Emit f \<longleftrightarrow>
     (let c = R3 (cfg ctx); p = r3_proposed c t
      in R3_MinRetainedBytes c \<le>s RetainedBytes t \<and> 0 \<le> sint (MaxConsumerLagMs t) \<and>
         (0 \<le> sint (RetentionMs t) \<longrightarrow>
            \<not> of_i64 (RetentionMs t) \<le> R3_LagMultiplier c * of_i64 (MaxConsumerLagMs t) \<and>
            sint p < sint (RetentionMs t)) \<and>
         \<not> r3_savedGB (snap ctx) t p \<le> 0 \<and> f = r3_finding ctx t p)"
  by (auto simp: r3_body_def Let_def signed_cmp)

lemma r3_no_panic: "r3_body ctx t \<noteq> Panic"
  by (simp add: r3_body_def Let_def)

lemma r3_finding_shape [finding_shape]:
  "RuleID (r3_finding ctx t p) = ''R3''"
  "ResourceKey (r3_finding ctx t p) = resource_key ''R3'' (Name t)"
  "Basis (r3_finding ctx t p) \<noteq> ''''"
  "Severity (r3_finding ctx t p) = SeverityWarning"
  "EstSavingEUR (r3_finding ctx t p) = round2 (r3_savedGB (snap ctx) t p * StorageEURPerGBMo (prices ctx))"
  "Evidence (r3_finding ctx t p) =
     [(''retention_ms'', EvInt (RetentionMs t)),
      (''proposed_retention_ms'', EvInt p),
      (''max_consumer_lag_ms'', EvInt (MaxConsumerLagMs t)),
      (''retained_gb'', EvFloat (round2 (gb (RetainedBytes t)))),
      (''projected_gb'', EvFloat (round2 (r3_projected (snap ctx) t p / fl 1000000000)))]"
  by (simp_all add: r3_finding_def Let_def resource_key_def)

lemma minF_bounds:
  assumes "0 \<le> a" "0 \<le> b" "is_fin b"
  shows "is_fin (minF a b)" "0 \<le> minF a b" "val (minF a b) \<le> val b"
proof -
  have "is_fin a" if "a < b"
    using that assms(1) by (auto simp: zero_le_iff less_f64_def flt_def)
  then show "is_fin (minF a b)" "0 \<le> minF a b" "val (minF a b) \<le> val b"
    using assms less_fin[of a b] by (auto simp: minF_def)
qed

lemma lookup_in_ok: "list_all topic_ok ts \<Longrightarrow> is_fin (lookup_in ts n) \<and> 0 \<le> lookup_in ts n"
  by (induction ts) (auto simp: topic_ok_def le_fin)

lemma r3_projected_bounds:
  assumes "list_all topic_ok (Topics s)" "0 \<le> sint (RetainedBytes t)" "0 \<le> sint p"
  shows "is_fin (r3_projected s t p)" "0 \<le> r3_projected s t p"
    "val (r3_projected s t p) \<le> val (of_i64 (RetainedBytes t))"
proof -
  have l: "is_fin (lookupBytesInPerSec s (Name t))" "0 \<le> lookupBytesInPerSec s (Name t)"
    using lookup_in_ok[OF assms(1)] by (auto simp: lookupBytesInPerSec_def)
  have "0 \<le> lookupBytesInPerSec s (Name t) * of_i64 p / fl 1000"
    using l assms by (intro div_pos_nonneg mul_nonneg of_i64_nonneg) (simp_all add: less_fin)
  from minF_bounds[OF this of_i64_nonneg[OF assms(2)] of_i64_fin]
  show "is_fin (r3_projected s t p)" "0 \<le> r3_projected s t p"
    "val (r3_projected s t p) \<le> val (of_i64 (RetainedBytes t))"
    by (simp_all add: r3_projected_def)
qed

text \<open>What is saved is between nothing and what is on disk.\<close>

lemma r3_saved_bounds:
  assumes "list_all topic_ok (Topics s)" "0 \<le> sint (RetainedBytes t)" "0 \<le> sint p"
  shows "is_fin (r3_savedGB s t p)" "0 \<le> r3_savedGB s t p"
proof -
  let ?d = "of_i64 (RetainedBytes t) - r3_projected s t p"
  note b = r3_projected_bounds[OF assms]
  have "(2 ^ 63 :: rat) = pow2 63" by (simp add: pow2_def)
  then have m: "val (of_i64 (RetainedBytes t)) \<le> pow2 63" using of_i64_abs_le[of "RetainedBytes t"] by simp
  have p: "pow2 63 \<le> pow2 1023" by (rule pow2_mono) simp
  have p63: "representable (pow2 63)" by (rule representable_pow2) simp
  have "0 \<le> val (r3_projected s t p)" using b by (simp add: le_fin)
  note d = sub_between[OF of_i64_fin b(1) this b(3) m p63 p]
  have "r3_savedGB s t p = rnd (signbit ?d \<noteq> False) (val ?d / 1000000000)"
    using d(1) by (simp add: r3_savedGB_def div_fin)
  moreover have "0 \<le> val ?d / 1000000000" "val ?d / 1000000000 \<le> pow2 63"
    using d(2,3) by auto
  ultimately show "is_fin (r3_savedGB s t p)" "0 \<le> r3_savedGB s t p"
    using rnd_between[of 0 "pow2 63" "val ?d / 1000000000"] p p63 by (simp_all add: le_fin)
qed

lemma r3_proposed_floor: "sint (R3_MinFloorMs c) \<le> sint (r3_proposed c t)"
  by (auto simp: r3_proposed_def maxI64_def signed_cmp)

lemma dayMs_val: "sint dayMs = 86400000"
  by (simp add: dayMs_def)

interpretation r3: waste_rule "''R3''" "\<lambda>ctx. Topics (snap ctx)" Name r3_body
proof unfold_locales
  fix ctx t f
  assume ok: "ctx_ok ctx" "t \<in> set (Topics (snap ctx))" and f: "r3_body ctx t = Emit f"
  let ?p = "r3_proposed (R3 (cfg ctx)) t"
  have ret: "0 \<le> sint (RetainedBytes t)" using ctx_okD(3)[OF ok] by (simp add: topic_ok_def)
  have "R3 (cfg ctx) = defaultR3" using ctx_okD(2)[OF ok(1)] by (simp add: default_thresholds_def)
  then have "0 \<le> sint ?p"
    using r3_proposed_floor[of "R3 (cfg ctx)" t] dayMs_val by (simp add: defaultR3_def)
  moreover have "list_all topic_ok (Topics (snap ctx))" using ok(1) by (simp add: ctx_ok_def)
  ultimately have "is_fin (r3_savedGB (snap ctx) t ?p)" "0 \<le> r3_savedGB (snap ctx) t ?p"
    using ret r3_saved_bounds by blast+
  with f prices_okD[OF ctx_okD(1)[OF ok(1)]] show "0 \<le> EstSavingEUR f"
    by (auto simp: r3_emit Let_def finding_shape intro!: f64_nonneg)
qed (auto simp: r3_emit r3_no_panic finding_shape Let_def simp: distinct_resources_def known_names_def)

subsection \<open>What R3 proposes\<close>

lemma r3_twice_lag:
  assumes "0 \<le> sint (MaxConsumerLagMs t)" "sint (MaxConsumerLagMs t) < 2 ^ 62"
  shows "2 * sint (MaxConsumerLagMs t) \<le> sint (r3_proposed c t)"
proof -
  have "sint (2 * MaxConsumerLagMs t) = sint (2 :: i64) * sint (MaxConsumerLagMs t)"
    by (rule sint_mult_in_range) (use assms in \<open>simp_all add: sint_2\<close>)
  then show ?thesis by (auto simp: r3_proposed_def maxI64_def signed_cmp)
qed

lemma r3_saved_le_gb:
  assumes "list_all topic_ok (Topics s)" "0 \<le> sint (RetainedBytes t)" "0 \<le> sint p"
  shows "val (r3_savedGB s t p) \<le> val (gb (RetainedBytes t))"
proof -
  let ?a = "of_i64 (RetainedBytes t)" and ?d = "of_i64 (RetainedBytes t) - r3_projected s t p"
  note b = r3_projected_bounds[OF assms]
  have a: "0 \<le> val (r3_projected s t p)" using b by (simp add: le_fin)
  have ra: "representable (val ?a)" by (simp add: of_i64_val rne_is_representable)
  have "val ?a \<le> 2 ^ 63" using of_i64_abs_le[of "RetainedBytes t"] by simp
  also have "\<dots> \<le> pow2 1023" using pow2_mono[of 63 1023] by (simp add: pow2_def)
  finally have "val ?a \<le> pow2 1023" .
  note d = sub_between[OF of_i64_fin b(1) a b(3) order_refl ra this]
  have "r3_savedGB s t p \<le> gb (RetainedBytes t)"
    using d by (simp add: r3_savedGB_def gb_def div_fin) (intro rnd_mono divide_right_mono, auto)
  then show ?thesis using r3_saved_bounds(1)[OF assms] by (simp add: le_fin)
qed

lemma r3_bounded:
  assumes "ctx_ok ctx" "0 \<le> sint (RetainedBytes t)" "r3_body ctx t = Emit f"
  shows "EstSavingEUR f \<le> storage_bill (prices ctx) t"
proof -
  let ?p = "r3_proposed (R3 (cfg ctx)) t"
  have c: "R3 (cfg ctx) = defaultR3" using ctx_okD(2)[OF assms(1)] by (simp add: default_thresholds_def)
  then have "0 \<le> sint ?p"
    using r3_proposed_floor[of "R3 (cfg ctx)" t] dayMs_val by (simp add: defaultR3_def)
  moreover have "list_all topic_ok (Topics (snap ctx))" using assms(1) by (simp add: ctx_ok_def)
  ultimately have "is_fin (r3_savedGB (snap ctx) t ?p)" "r3_savedGB (snap ctx) t ?p \<le> gb (RetainedBytes t)"
    using r3_saved_bounds(1)[of "snap ctx" t ?p] r3_saved_le_gb[of "snap ctx" t ?p] assms(2) by (auto simp: le_fin)
  moreover have "EstSavingEUR f = round2 (r3_savedGB (snap ctx) t ?p * StorageEURPerGBMo (prices ctx))"
    using assms(3) by (auto simp: r3_emit Let_def finding_shape)
  ultimately show ?thesis using storage_share_le[OF ctx_okD(1)[OF assms(1)]] by simp
qed

text \<open>C11: The retention R3 proposes is safe and an improvement: it appears in the evidence, is
  at least 24 hours and at least twice the largest consumer lag (for lags below \<open>2 ^ 62\<close> ms,
  where the doubling does not wrap), and it is strictly below a finite current retention.\<close>

theorem r3_proposal_safe:
  assumes "r3_body ctx t = Emit f" "default_thresholds (cfg ctx)" "sint (MaxConsumerLagMs t) < 2 ^ 62"
  shows "\<exists>p. (''proposed_retention_ms'', EvInt p) \<in> set (Evidence f) \<and>
           24 * 60 * 60 * 1000 \<le> sint p \<and> 2 * sint (MaxConsumerLagMs t) \<le> sint p \<and>
           (0 \<le> sint (RetentionMs t) \<longrightarrow> sint p < sint (RetentionMs t))"
proof (intro exI conjI)
  let ?p = "r3_proposed (R3 (cfg ctx)) t"
  have c: "R3 (cfg ctx) = defaultR3" using assms(2) by (simp add: default_thresholds_def)
  have e: "0 \<le> sint (MaxConsumerLagMs t)" "f = r3_finding ctx t ?p"
    "0 \<le> sint (RetentionMs t) \<longrightarrow> sint ?p < sint (RetentionMs t)"
    using assms(1) by (auto simp: r3_emit Let_def)
  show "(''proposed_retention_ms'', EvInt ?p) \<in> set (Evidence f)"
    by (simp add: e(2) finding_shape)
  show "24 * 60 * 60 * 1000 \<le> sint ?p"
    using r3_proposed_floor[of "R3 (cfg ctx)" t] dayMs_val by (simp add: c defaultR3_def)
  show "2 * sint (MaxConsumerLagMs t) \<le> sint ?p" by (rule r3_twice_lag[OF e(1) assms(3)])
  show "0 \<le> sint (RetentionMs t) \<longrightarrow> sint ?p < sint (RetentionMs t)" by (rule e(3))
qed

lemma r3_body_clicks: "r3_body demo_ctx clicks = Emit (r3_finding demo_ctx clicks 86400000)"
proof -
  let ?r = "r3_projected sample_snapshot clicks 86400000"
  have "lookupBytesInPerSec sample_snapshot (Name clicks) = Fin 2048"
    by (simp add: lookupBytesInPerSec_def)
  moreover have "RetainedBytes clicks = 32212254720" by simp
  ultimately have "r3_savedGB sample_snapshot clicks 86400000 = rnd False (32035307520 / 1000000000)"
    by (simp add: r3_savedGB_def r3_projected_def minF_def of_i64_def mul_fin div_fin less_fin sub_fin)
  then have "0 < r3_savedGB sample_snapshot clicks 86400000" by (simp add: rnd_pos[of 1])
  then have "\<not> r3_savedGB sample_snapshot clicks 86400000 \<le> 0" by (auto simp: zero_less_iff le_zero_iff)
  moreover have "r3_proposed defaultR3 clicks = 86400000"
    by (simp add: r3_proposed_def maxI64_def defaultR3_def dayMs_def signed_cmp)
  ultimately show ?thesis
    by (simp add: r3_body_def Let_def) (simp add: defaultR3_def signed_cmp of_i64_def mul_fin le_fin)
qed

theorem r3_proposal_safe_witness:
  "\<exists>p. (''proposed_retention_ms'', EvInt p) \<in> set (Evidence (r3_finding demo_ctx clicks 86400000)) \<and>
     24 * 60 * 60 * 1000 \<le> sint p \<and> 2 * 3600000 \<le> sint p \<and> sint p < 2592000000"
  using r3_proposal_safe[OF r3_body_clicks] by simp

end
