(* ===== verification/R4Partitions.thy ===== *)
theory R4Partitions
  imports DemoData
begin

text \<open>
  R4, over-partitioning (\<open>r4_partitions.go\<close>): little traffic per partition on a topic with
  many. The proposal is sized for a target throughput, with a floor; the saving is priced
  per partition on Confluent and amortised from a storage-priced cluster otherwise.
\<close>

definition r4_totalParts :: "snapshot \<Rightarrow> i64" where
  "r4_totalParts s = fold (\<lambda>t n. n + Partitions t) (Topics s) 0"

definition r4_perPart :: "topic \<Rightarrow> f64" where
  "r4_perPart t =
     (if 0 <s Partitions t then BytesInPerSec t / of_i64 (Partitions t) else fl 0)"

definition r4_proposed :: "r4Config \<Rightarrow> topic \<Rightarrow> i64" where
  "r4_proposed c t =
     to_i64 (fmax (of_i64 (R4_MinPartitions c)) (fceil (BytesInPerSec t / R4_TargetBytesPerPart c)))"

definition r4_clusterGB :: "snapshot \<Rightarrow> f64" where
  "r4_clusterGB s = fold (\<lambda>tt acc. acc + gb (RetainedBytes tt)) (Topics s) (fl 0)"

definition r4_perPartCost :: "evalCtx \<Rightarrow> f64" where
  "r4_perPartCost ctx =
     (let totalParts = r4_totalParts (snap ctx)
      in if 0 <s totalParts
         then (let clusterStorageEUR = r4_clusterGB (snap ctx) * StorageEURPerGBMo (prices ctx)
               in fl (20 / 100) * clusterStorageEUR / of_i64 totalParts)
         else fl 0)"

text \<open>The saving and its basis, by the provider recorded in the snapshot.\<close>

definition r4_priced :: "evalCtx \<Rightarrow> i64 \<Rightarrow> f64 \<times> gostring" where
  "r4_priced ctx removed =
     (let c = R4 (cfg ctx); provider = ClusterProvider (Cluster (snap ctx));
          totalParts = r4_totalParts (snap ctx)
      in if provider = ''confluent'' \<and> 0 < R4_ConfluentPerPartitionEURMo c
         then (of_i64 removed * R4_ConfluentPerPartitionEURMo c,
               ''ASSUMPTION: '' @ fmt_d removed @ '' partitions removed '' @ utf_times @ '' '' @
               fmt_f 2 (R4_ConfluentPerPartitionEURMo c) @ '' '' @ utf_euro @
               ''/partition-mo (Confluent dimension)'')
         else (r4_perPartCost ctx * of_i64 removed,
               ''ASSUMPTION: amortized broker overhead '' @ utf_emdash @ '' 20% partition weight '' @
               utf_times @ '' storage-priced cluster '' @ utf_divide @ '' '' @ fmt_d totalParts @
               '' partitions '' @ utf_times @ '' '' @ fmt_d removed @ '' removed. Storage basis: '' @
               StorageBasis (prices ctx)))"

definition r4_finding :: "evalCtx \<Rightarrow> topic \<Rightarrow> i64 \<Rightarrow> finding" where
  "r4_finding ctx t proposed =
     (let perPart = r4_perPart t;
          (eur, basis) = r4_priced ctx (Partitions t - proposed)
      in \<lparr>RuleID = ''R4'', RuleVersion = 1,
          Title = ''Topic '' @ go_quote (Name t) @ '' over-partitioned: '' @ fmt_d (Partitions t) @
            '' partitions at '' @ fmt_f 0 perPart @ '' B/s each'',
          Severity = SeverityPlan,
          ResourceKey = ''R4:'' @ Name t,
          Evidence =
            [(''partitions'', EvInt (Partitions t)),
             (''proposed_partitions'', EvInt proposed),
             (''bytes_per_partition_sec'', EvFloat (round2 perPart)),
             (''throughput_source'', EvStr (ThroughputSource t))],
          EstSavingEUR = round2 eur,
          Basis = basis,
          Confidence = ConfidenceMedium,
          Remediation =
            \<lparr>Summary = ''PLAN: migrate '' @ go_quote (Name t) @ '' from '' @ fmt_d (Partitions t) @ '' to '' @
               fmt_d proposed @ '' partitions. Kafka cannot shrink partitions in place '' @ utf_emdash @
               '' create a new topic and reproduce/replay; coordinate with producers and key-ordering guarantees.'',
             KafkaConfigsCmd = '''', TerraformDiff = '''', StrimziYAML = '''', OneClick = False\<rparr>\<rparr>)"

definition r4_body :: "evalCtx \<Rightarrow> topic \<Rightarrow> finding step" where
  "r4_body ctx t =
     (let c = R4 (cfg ctx)
      in if Partitions t \<le>s R4_MinPartitions c then Skip
         else if R4_MaxBytesPerPartSec c \<le> r4_perPart t then Skip
         else (let proposed = r4_proposed c t
               in if Partitions t \<le>s proposed then Skip
                  else Emit (r4_finding ctx t proposed)))"

definition evalR4 :: "evalCtx \<Rightarrow> finding list option" where
  "evalR4 ctx = walk (r4_body ctx) (Topics (snap ctx))"

subsection \<open>The shape of a finding\<close>

lemma r4_emit:
  "r4_body ctx t = Emit f \<longleftrightarrow>
     R4_MinPartitions (R4 (cfg ctx)) <s Partitions t \<and>
     \<not> R4_MaxBytesPerPartSec (R4 (cfg ctx)) \<le> r4_perPart t \<and>
     r4_proposed (R4 (cfg ctx)) t <s Partitions t \<and>
     f = r4_finding ctx t (r4_proposed (R4 (cfg ctx)) t)"
  by (auto simp: r4_body_def Let_def signed_cmp)

lemma r4_no_panic: "r4_body ctx t \<noteq> Panic"
  by (simp add: r4_body_def Let_def)

lemma r4_basis_nonempty: "snd (r4_priced ctx n) \<noteq> ''''"
  by (simp add: r4_priced_def Let_def)

lemma r4_finding_shape [finding_shape]:
  "RuleID (r4_finding ctx t p) = ''R4''"
  "ResourceKey (r4_finding ctx t p) = resource_key ''R4'' (Name t)"
  "Basis (r4_finding ctx t p) \<noteq> ''''"
  "Severity (r4_finding ctx t p) = SeverityPlan"
  "OneClick (Remediation (r4_finding ctx t p)) = False"
  "EstSavingEUR (r4_finding ctx t p) = round2 (fst (r4_priced ctx (Partitions t - p)))"
  "Evidence (r4_finding ctx t p) =
     [(''partitions'', EvInt (Partitions t)),
      (''proposed_partitions'', EvInt p),
      (''bytes_per_partition_sec'', EvFloat (round2 (r4_perPart t))),
      (''throughput_source'', EvStr (ThroughputSource t))]"
  using r4_basis_nonempty[of ctx "Partitions t - p"]
  by (auto simp: r4_finding_def Let_def resource_key_def split: prod.splits)

subsection \<open>The proposal\<close>

text \<open>Under the default thresholds the conversion back to an integer is exact.\<close>

lemma low_rate_bound:
  assumes "is_fin b" "0 \<le> val b" "0 < sint p" "\<not> fl 1024 \<le> b / of_i64 p"
  shows "val b < 1024 * val (of_i64 p)"
proof (rule ccontr)
  assume "\<not> val b < 1024 * val (of_i64 p)"
  moreover have p: "0 < val (of_i64 p)" using of_i64_pos[OF assms(3)] by (simp add: less_fin)
  ultimately have "1024 \<le> val b / val (of_i64 p)" by (simp add: field_simps)
  moreover have "representable 1024" using pow2_mono representable_int[of 1024] by simp
  ultimately have "b / of_i64 p = Inf False \<or> is_fin (b / of_i64 p) \<and> 1024 \<le> val (b / of_i64 p)"
    using le_rnd[of 1024 "val b / val (of_i64 p)"] p assms(1) by (simp add: div_fin)
  then show False using assms(4) by (auto simp: le_fin le_top)
qed

lemma r4_ratio_bound:
  assumes "is_fin b" "0 \<le> val b" "val b \<le> 1024 * 2 ^ 63"
  shows "is_fin (b / Fin 1048576)" "0 \<le> val (b / Fin 1048576)" "val (b / Fin 1048576) \<le> 2 ^ 53"
proof -
  have r: "representable (2 ^ 53)" "(2 ^ 53 :: rat) \<le> pow2 1023"
    using representable_pow2[of 53] pow2_mono[of 53 1023] by (simp_all add: pow2_53)
  have "val b / 1048576 \<le> 2 ^ 53" "0 \<le> val b / 1048576" using assms by (simp_all add: field_simps)
  then show "is_fin (b / Fin 1048576)" "0 \<le> val (b / Fin 1048576)" "val (b / Fin 1048576) \<le> 2 ^ 53"
    using rnd_between[of 0 "2 ^ 53" "val b / 1048576"] assms(1) r by (simp_all add: div_fin)
qed

lemma representable_nat_le: "n \<le> 2 ^ 53 \<Longrightarrow> 0 \<le> n \<Longrightarrow> representable (of_int n)"
proof (cases "n = 2 ^ 53")
  case True
  then show ?thesis using representable_pow2[of 53] by (simp add: pow2_53)
next
  case False
  then show "n \<le> 2 ^ 53 \<Longrightarrow> 0 \<le> n \<Longrightarrow> ?thesis" by (intro representable_int) linarith
qed

lemma fceil_int:
  assumes "is_fin x" "0 \<le> val x" "val x \<le> 2 ^ 53"
  shows "is_fin (fceil x)" "val (fceil x) = of_int \<lceil>val x\<rceil>"
proof -
  have "\<lceil>val x\<rceil> \<le> 2 ^ 53" "0 \<le> \<lceil>val x\<rceil>" using assms by (simp_all add: ceiling_le_iff)
  then have "representable (of_int \<lceil>val x\<rceil>)" by (intro representable_nat_le)
  moreover have "\<bar>rat_of_int \<lceil>val x\<rceil>\<bar> \<le> pow2 1023"
  proof -
    have "rat_of_int \<lceil>val x\<rceil> \<le> of_int (2 ^ 53)" using \<open>\<lceil>val x\<rceil> \<le> 2 ^ 53\<close> by (simp only: of_int_le_iff)
    also have "\<dots> \<le> pow2 1023" using pow2_mono[of 53 1023] by (simp add: pow2_53)
    finally show ?thesis using \<open>0 \<le> \<lceil>val x\<rceil>\<close> by simp
  qed
  ultimately show "is_fin (fceil x)" "val (fceil x) = of_int \<lceil>val x\<rceil>"
    using assms(1) rnd_fin_small[of "of_int \<lceil>val x\<rceil>" "signbit x"]
    by (simp_all add: fceil_def rnd_val rne_representable)
qed

lemma fmax_val:
  assumes "is_fin x" "is_fin y"
  shows "is_fin (fmax x y)" "val (fmax x y) = max (val x) (val y)"
  using assms by (auto simp: fmax_def less_fin is_zero_val max_def)

lemma to_i64_int: "is_fin x \<Longrightarrow> val x = of_int n \<Longrightarrow> - (2 ^ 63) \<le> n \<Longrightarrow> n < 2 ^ 63 \<Longrightarrow> sint (to_i64 x) = n"
  by (simp add: to_i64_def trunc_rat_def sint_eq_of_int)

lemma of_i64_12: "of_i64 12 = Fin 12"
  by (simp add: of_i64_def)

lemma r4_proposed_val:
  assumes "c = defaultR4" "is_fin (BytesInPerSec t)" "0 \<le> val (BytesInPerSec t)"
    and "0 < sint (Partitions t)" "\<not> fl 1024 \<le> r4_perPart t"
  shows "sint (r4_proposed c t) = max 12 \<lceil>val (BytesInPerSec t / Fin 1048576)\<rceil>"
    "val (BytesInPerSec t / Fin 1048576) \<le> 2 ^ 53"
proof -
  let ?b = "BytesInPerSec t" and ?x = "BytesInPerSec t / Fin 1048576"
  have "val ?b < 1024 * val (of_i64 (Partitions t))"
    using low_rate_bound[OF assms(2,3,4)] assms(4,5) by (simp add: r4_perPart_def signed_cmp)
  moreover have "val (of_i64 (Partitions t)) \<le> 2 ^ 63"
    using of_i64_abs_le[of "Partitions t"] by simp
  ultimately have "val ?b \<le> 1024 * 2 ^ 63" by linarith
  note x = r4_ratio_bound[OF assms(2,3) this]
  note f = fceil_int[OF x]
  have "\<lceil>val ?x\<rceil> \<le> 2 ^ 53" using x(3) by (simp add: ceiling_le_iff)
  moreover have "val (fmax (Fin 12) (fceil ?x)) = of_int (max 12 \<lceil>val ?x\<rceil>)"
    using fmax_val[of "Fin 12" "fceil ?x"] f by (simp add: of_int_max)
  ultimately show "sint (r4_proposed c t) = max 12 \<lceil>val ?x\<rceil>"
    using fmax_val(1)[of "Fin 12" "fceil ?x"] f
    by (simp add: r4_proposed_def assms(1) defaultR4_def of_i64_12 to_i64_int)
  show "val ?x \<le> 2 ^ 53" by (rule x(3))
qed

text \<open>The saving is not negative.\<close>

lemma clusterGB_bounds:
  assumes "list_all topic_ok ts" "is_fin acc" "0 \<le> val acc" "val acc \<le> pow2 100"
  shows "is_fin (fold (\<lambda>tt acc. acc + gb (RetainedBytes tt)) ts acc) \<and>
         0 \<le> val (fold (\<lambda>tt acc. acc + gb (RetainedBytes tt)) ts acc)"
  using assms
proof (induction ts arbitrary: acc)
  case (Cons t ts)
  have "0 \<le> sint (RetainedBytes t)" using Cons.prems(1) by (simp add: topic_ok_def)
  then have g: "0 \<le> val (gb (RetainedBytes t))" using gb_nonneg by (simp add: le_fin)
  have s: "is_fin (acc + gb (RetainedBytes t))" "0 \<le> val (acc + gb (RetainedBytes t))"
    "val (acc + gb (RetainedBytes t)) \<le> pow2 100"
    using add_stagnates[OF Cons.prems(2) gb_fin Cons.prems(3,4) g gb_le] by simp_all
  have ts: "list_all topic_ok ts" using Cons.prems(1) by simp
  show ?case using Cons.IH[OF ts s] by simp
qed simp

lemma r4_perPartCost_nonneg:
  assumes "ctx_ok ctx"
  shows "0 \<le> r4_perPartCost ctx"
proof -
  have g: "is_fin (r4_clusterGB (snap ctx))" "0 \<le> val (r4_clusterGB (snap ctx))"
    using clusterGB_bounds[of "Topics (snap ctx)" "fl 0"] assms by (simp_all add: ctx_ok_def r4_clusterGB_def)
  have "0 \<le> r4_clusterGB (snap ctx) * StorageEURPerGBMo (prices ctx)"
    using g prices_okD[OF ctx_okD(1)[OF assms]] by (intro mul_nonneg) (simp_all add: le_fin)
  moreover have "is_fin (fl (20 / 100))" "0 < fl (20 / 100)"
    using fl_between[of "- 3" "20 / 100"] by (simp_all add: pow2_def)
  ultimately have "0 \<le> fl (20 / 100) * (r4_clusterGB (snap ctx) * StorageEURPerGBMo (prices ctx))"
    using mul_pos_nonneg'[of "fl (20 / 100)"] by simp
  then show ?thesis
    by (auto simp: r4_perPartCost_def Let_def signed_cmp le_fin intro!: div_pos_nonneg of_i64_pos)
qed

lemma r4_priced_nonneg:
  assumes "ctx_ok ctx" "0 < sint removed"
  shows "0 \<le> fst (r4_priced ctx removed)"
proof -
  have r: "0 < of_i64 removed" by (rule of_i64_pos[OF assms(2)])
  have "0 < fl (5 / 10)" using fl_between(4)[of "- 1" "5 / 10"] by (simp add: pow2_def)
  moreover have "R4 (cfg ctx) = defaultR4"
    using ctx_okD(2)[OF assms(1)] by (simp add: default_thresholds_def)
  ultimately have c: "0 < R4_ConfluentPerPartitionEURMo (R4 (cfg ctx))"
    by (simp add: defaultR4_def)
  show ?thesis
    using r c mul_pos_pos_nonneg[OF r c] mul_pos_nonneg[OF r4_perPartCost_nonneg[OF assms(1)] r]
    by (simp add: r4_priced_def Let_def)
qed

lemma r4_removed_pos:
  assumes "ctx_ok ctx" "t \<in> set (Topics (snap ctx))" "r4_body ctx t = Emit f"
  shows "0 < sint (Partitions t - r4_proposed (R4 (cfg ctx)) t)"
    "12 \<le> sint (r4_proposed (R4 (cfg ctx)) t)"
proof -
  let ?p = "r4_proposed (R4 (cfg ctx)) t"
  have c: "R4 (cfg ctx) = defaultR4" using ctx_okD(2)[OF assms(1)] by (simp add: default_thresholds_def)
  have b: "is_fin (BytesInPerSec t)" "0 \<le> val (BytesInPerSec t)"
    using ctx_okD(3)[OF assms(1,2)] by (auto simp: topic_ok_def le_fin)
  have g: "12 < sint (Partitions t)" "\<not> fl 1024 \<le> r4_perPart t" "sint ?p < sint (Partitions t)"
    using assms(3) by (auto simp: r4_emit c defaultR4_def signed_cmp)
  show p: "12 \<le> sint ?p" using r4_proposed_val(1)[OF c b _ g(2)] g(1) by simp
  have "sint (Partitions t - ?p) = sint (Partitions t) - sint ?p"
    using g p sint_range[of "Partitions t"] by (intro sint_sub_in_range) linarith+
  then show "0 < sint (Partitions t - ?p)" using g by simp
qed

interpretation r4: waste_rule "''R4''" "\<lambda>ctx. Topics (snap ctx)" Name r4_body
proof unfold_locales
  fix ctx t f
  assume ok: "ctx_ok ctx" "t \<in> set (Topics (snap ctx))" and f: "r4_body ctx t = Emit f"
  from r4_priced_nonneg[OF ok(1) r4_removed_pos(1)[OF ok f]] f
  show "0 \<le> EstSavingEUR f" by (auto simp: r4_emit finding_shape round2_nonneg)
qed (auto simp: r4_emit r4_no_panic finding_shape simp: distinct_resources_def known_names_def)

subsection \<open>What R4 proposes\<close>

lemma scaled_exact:
  assumes "f64_ok b" "0 \<le> val b" "val b \<le> 2 ^ 73" "val b = 0 \<or> pow2 (- 1000) \<le> val b"
  shows "val (b / Fin 1048576) = val b / 1048576"
proof -
  have "representable (val b / 1048576)"
    using representable_scale[of "val b" 20] f64_okD(2)[OF assms(1)] assms(2,4) by (simp add: pow2_def)
  moreover have "\<bar>val b / 1048576\<bar> \<le> pow2 1023"
  proof -
    have "val b / 1048576 \<le> 2 ^ 53" using assms(3) by simp
    also have "\<dots> \<le> pow2 1023" using pow2_mono[of 53 1023] by (simp add: pow2_53)
    finally show ?thesis using assms(2) by simp
  qed
  ultimately show ?thesis
    using f64_okD(1)[OF assms(1)] rnd_fin_small[of "val b / 1048576" "signbit b"]
    by (simp add: div_fin rnd_val rne_representable)
qed

lemma r4_proposed_exact:
  assumes "c = defaultR4" "f64_ok (BytesInPerSec t)" "0 \<le> val (BytesInPerSec t)"
    and "0 < sint (Partitions t)" "\<not> fl 1024 \<le> r4_perPart t"
  shows "sint (r4_proposed c t) = max 12 \<lceil>val (BytesInPerSec t) / 1048576\<rceil>"
proof -
  let ?b = "BytesInPerSec t"
  note v = r4_proposed_val[OF assms(1) f64_okD(1)[OF assms(2)] assms(3-5)]
  have b73: "val ?b \<le> 2 ^ 73"
  proof -
    have "val ?b < 1024 * val (of_i64 (Partitions t))"
      using low_rate_bound[OF f64_okD(1)[OF assms(2)] assms(3,4)] assms(4,5)
      by (simp add: r4_perPart_def signed_cmp)
    then show ?thesis using of_i64_abs_le[of "Partitions t"] by simp
  qed
  show ?thesis
  proof (cases "val ?b = 0 \<or> pow2 (- 1000) \<le> val ?b")
    case True
    then show ?thesis using v(1) scaled_exact[OF assms(2,3) b73] by simp
  next
    case False
    have one: "pow2 (- 1000) \<le> 1" using pow2_mono[of "- 1000" 0] by simp
    then have q: "0 \<le> val ?b / 1048576" "val ?b / 1048576 \<le> 1" using False assms(3) by simp_all
    have "val (?b / Fin 1048576) \<le> 1"
      using rnd_between(3)[of 0 1 "val ?b / 1048576" "signbit ?b"] q f64_okD(1)[OF assms(2)]
      by (simp add: div_fin)
    then have "\<lceil>val (?b / Fin 1048576)\<rceil> \<le> 12" "\<lceil>val ?b / 1048576\<rceil> \<le> 12"
      using q(2) by (simp_all add: ceiling_le_iff)
    then show ?thesis using v(1) by simp
  qed
qed

text \<open>C10: The partition count R4 proposes fits the traffic: it appears in the evidence, is
  below the current count, and is the least count of at least 12 at which the topic's bytes
  per second are at most 1 MiB per partition. (A Go \<open>float64\<close> holds values of the format.)\<close>

theorem r4_proposal_least:
  assumes "r4_body ctx t = Emit f" "default_thresholds (cfg ctx)"
    "f64_ok (BytesInPerSec t)" "0 \<le> BytesInPerSec t"
  shows "\<exists>p. (''proposed_partitions'', EvInt p) \<in> set (Evidence f) \<and>
           12 \<le> sint p \<and> sint p < sint (Partitions t) \<and>
           val (BytesInPerSec t) \<le> of_int (sint p) * 1048576 \<and>
           (12 < sint p \<longrightarrow> of_int (sint p - 1) * 1048576 < val (BytesInPerSec t))"
proof (intro exI)
  let ?b = "BytesInPerSec t" and ?p = "r4_proposed (R4 (cfg ctx)) t"
  have c: "R4 (cfg ctx) = defaultR4" using assms(2) by (simp add: default_thresholds_def)
  have b: "is_fin ?b" "0 \<le> val ?b" using assms(3,4) by (auto dest: f64_okD simp: le_fin)
  have g: "12 < sint (Partitions t)" "\<not> fl 1024 \<le> r4_perPart t" "sint ?p < sint (Partitions t)"
    using assms(1) by (auto simp: r4_emit c defaultR4_def signed_cmp)
  have p: "sint ?p = max 12 \<lceil>val ?b / 1048576\<rceil>"
    using r4_proposed_exact[OF c assms(3) b(2) _ g(2)] g(1) by simp
  have f: "f = r4_finding ctx t ?p" using assms(1) by (simp add: r4_emit)
  have "val ?b / 1048576 \<le> of_int (sint ?p)" unfolding p by (simp add: of_int_max le_max_iff_disj)
  moreover have "of_int (sint ?p - 1) < val ?b / 1048576" if "12 < sint ?p"
  proof -
    have "sint ?p = \<lceil>val ?b / 1048576\<rceil>" using p that by auto
    then show ?thesis using ceiling_correct[of "val ?b / 1048576"] by simp
  qed
  ultimately show "(''proposed_partitions'', EvInt ?p) \<in> set (Evidence f) \<and> 12 \<le> sint ?p \<and>
      sint ?p < sint (Partitions t) \<and> val ?b \<le> of_int (sint ?p) * 1048576 \<and>
      (12 < sint ?p \<longrightarrow> of_int (sint ?p - 1) * 1048576 < val ?b)"
    using g(3) p by (auto simp: f finding_shape field_simps)
qed

lemma r4_body_metrics: "r4_body demo_ctx metrics_fine = Emit (r4_finding demo_ctx metrics_fine 12)"
proof -
  have "is_fin (rnd False (10240 / 48)) \<and> val (rnd False (10240 / 48)) \<le> 512"
    using rnd_between[of 0 512 "10240 / 48" False] representable_int[of 512] order_trans[OF _ pow2_mono[of 9 1023]]
    by (simp add: pow2_def[of 9])
  then have "\<not> fl 1024 \<le> r4_perPart metrics_fine"
    by (auto simp: r4_perPart_def signed_cmp of_i64_def div_fin le_fin)
  moreover have "sint (r4_proposed defaultR4 metrics_fine) = 12"
    using r4_proposed_exact[of defaultR4 metrics_fine] calculation
    by simp
  then have "r4_proposed defaultR4 metrics_fine = 12" by (metis sint_12 signed_word_eqI)
  ultimately show ?thesis
    by (simp add: r4_body_def Let_def) (simp add: defaultR4_def signed_cmp)
qed

theorem r4_proposal_least_witness:
  "\<exists>p. (''proposed_partitions'', EvInt p) \<in> set (Evidence (r4_finding demo_ctx metrics_fine 12)) \<and>
     12 \<le> sint p \<and> sint p < 48 \<and> 10240 \<le> rat_of_int (sint p) * 1048576"
  using r4_proposal_least[OF r4_body_metrics] by (force simp: le_fin)

end
