(* ===== verification/R5Compression.thy ===== *)
theory R5Compression
  imports DemoData
begin

text \<open>
  R5, missing compression (\<open>r5_compression.go\<close>): high ingest on a topic whose compression
  setting leaves the data as it is; the saving assumes a fixed compression ratio.
\<close>

definition uncompressedTypes :: "gostring \<Rightarrow> bool" where
  "uncompressedTypes c \<longleftrightarrow> c \<in> set ['''', ''none'', ''uncompressed'', ''producer'']"

definition labelEmpty :: "gostring \<Rightarrow> gostring" where
  "labelEmpty s = (if s = '''' then ''none'' else s)"

definition r5_inGB :: "topic \<Rightarrow> f64" where
  "r5_inGB t = monthlyGB (BytesInPerSec t)"

definition r5_eur :: "evalCtx \<Rightarrow> topic \<Rightarrow> f64" where
  "r5_eur ctx t =
     r5_inGB t * R5_AssumedRatio (R5 (cfg ctx)) *
       (StorageEURPerGBMo (prices ctx) + NetworkEURPerGB (prices ctx))"

definition r5_finding :: "evalCtx \<Rightarrow> topic \<Rightarrow> finding" where
  "r5_finding ctx t =
     (let c = R5 (cfg ctx);
          inGB = r5_inGB t;
          savedGB = inGB * R5_AssumedRatio c
      in \<lparr>RuleID = ''R5'', RuleVersion = 1,
          Title = ''Topic '' @ go_quote (Name t) @ '' ingests '' @ fmt_f 1 (BytesInPerSec t / fl 1048576) @
            '' MB/s uncompressed'',
          Severity = SeverityWarning,
          ResourceKey = ''R5:'' @ Name t,
          Evidence =
            [(''bytes_in_per_sec'', EvFloat (BytesInPerSec t)),
             (''compression_type'', EvStr (labelEmpty (CompressionType t))),
             (''monthly_in_gb'', EvFloat (round2 inGB)),
             (''assumed_saved_gb'', EvFloat (round2 savedGB)),
             (''throughput_source'', EvStr (ThroughputSource t))],
          EstSavingEUR = round2 (r5_eur ctx t),
          Basis = ''ASSUMPTION: '' @ fmt_f 1 inGB @ '' GB/mo in '' @ utf_times @ '' '' @
            fmt_f 0 (R5_AssumedRatio c * fl 100) @ ''% zstd ratio '' @ utf_times @ '' ('' @
            fmt_f 4 (StorageEURPerGBMo (prices ctx)) @ '' storage + '' @
            fmt_f 4 (NetworkEURPerGB (prices ctx)) @ '' network '' @ utf_euro @
            ''/GB). Storage basis: '' @ StorageBasis (prices ctx),
          Confidence = ConfidenceLow,
          Remediation =
            \<lparr>Summary = ''Set compression.type=zstd on the topic (or enable producer-side zstd).'',
             KafkaConfigsCmd = ''kafka-configs --alter --topic '' @ Name t @
               '' --add-config compression.type=zstd'',
             TerraformDiff = ''  config = {'' @ newline @
               ''-   '' @ dquote @ ''compression.type'' @ dquote @ '' = '' @ dquote @
                 labelEmpty (CompressionType t) @ dquote @ newline @
               ''+   '' @ dquote @ ''compression.type'' @ dquote @ '' = '' @ dquote @ ''zstd'' @ dquote @ newline @
               ''  }'',
             StrimziYAML = ''    config:'' @ newline @ ''      compression.type: zstd'',
             OneClick = True\<rparr>\<rparr>)"

definition r5_body :: "evalCtx \<Rightarrow> topic \<Rightarrow> finding step" where
  "r5_body ctx t =
     (if BytesInPerSec t < R5_MinBytesInPerSec (R5 (cfg ctx)) then Skip
      else if \<not> uncompressedTypes (CompressionType t) then Skip
      else Emit (r5_finding ctx t))"

definition evalR5 :: "evalCtx \<Rightarrow> finding list option" where
  "evalR5 ctx = walk (r5_body ctx) (Topics (snap ctx))"

subsection \<open>The contract\<close>

lemma r5_emit:
  "r5_body ctx t = Emit f \<longleftrightarrow>
     \<not> BytesInPerSec t < R5_MinBytesInPerSec (R5 (cfg ctx)) \<and>
     uncompressedTypes (CompressionType t) \<and> f = r5_finding ctx t"
  by (auto simp: r5_body_def)

lemma r5_no_panic: "r5_body ctx t \<noteq> Panic"
  by (simp add: r5_body_def)

lemma r5_finding_shape [finding_shape]:
  "RuleID (r5_finding ctx t) = ''R5''"
  "ResourceKey (r5_finding ctx t) = resource_key ''R5'' (Name t)"
  "Basis (r5_finding ctx t) \<noteq> ''''"
  "Severity (r5_finding ctx t) = SeverityWarning"
  "EstSavingEUR (r5_finding ctx t) = round2 (r5_eur ctx t)"
  by (simp_all add: r5_finding_def Let_def resource_key_def)

lemma price_sum_pos: "prices_ok p \<Longrightarrow> 0 < StorageEURPerGBMo p + NetworkEURPerGB p"
  unfolding prices_ok_def f64_ok_def
  by (auto simp: add_fin le_fin less_fin intro!: rnd_pos)

text \<open>A positive amount, possibly overflowing to infinity.\<close>

definition at_least :: "rat \<Rightarrow> f64 \<Rightarrow> bool" where
  "at_least p x \<longleftrightarrow> x = Inf False \<or> is_fin x \<and> p \<le> val x"

lemma at_least_pos: "at_least p x \<Longrightarrow> 0 < p \<Longrightarrow> 0 < x"
  by (auto simp: at_least_def zero_less_iff)

lemma at_least_rnd: "0 < p \<Longrightarrow> representable p \<Longrightarrow> p \<le> q \<Longrightarrow> at_least p (rnd s q)"
  using le_rnd[of p q s] by (auto simp: at_least_def)

lemma at_least_mul:
  assumes "at_least p x" "0 < p" "is_fin y" "0 < val y" "0 < r" "representable r" "r \<le> p * val y"
  shows "at_least r (x * y)"
proof (cases "is_fin x")
  case True
  then have "p * val y \<le> val x * val y" using assms by (auto simp: at_least_def)
  with assms have "r \<le> val x * val y" by linarith
  with assms True show ?thesis by (simp add: mul_fin at_least_rnd)
next
  case False
  then have "x = Inf False" using assms by (simp add: at_least_def)
  then show ?thesis using assms(3,4)
    by (cases y) (auto simp: at_least_def times_f64_def fmul_def is_zero_def)
qed

lemma at_least_div:
  assumes "at_least p x" "0 < p" "is_fin y" "0 < val y" "0 < r" "representable r" "r \<le> p / val y"
  shows "at_least r (x / y)"
proof (cases "is_fin x")
  case True
  then have "p / val y \<le> val x / val y" using assms by (auto simp: at_least_def intro: divide_right_mono)
  with assms have "r \<le> val x / val y" by linarith
  with assms True show ?thesis by (simp add: div_fin at_least_rnd)
next
  case False
  then have "x = Inf False" using assms by (simp add: at_least_def)
  then show ?thesis using assms(3,4)
    by (cases y) (auto simp: at_least_def divide_f64_def fdiv_def)
qed

lemma pow2_facts: "representable (pow2 40)" "representable (pow2 10)" "representable (pow2 9)"
  "representable (1 / 2)" "pow2 40 = 1099511627776" "pow2 10 = 1024" "pow2 9 = 512"
proof -
  show "representable (pow2 40)" "representable (pow2 10)" "representable (pow2 9)"
    by (rule representable_pow2; simp)+
  show "representable (1 / 2)" using representable_pow2[of "- 1"] by (simp add: pow2_def)
qed (simp_all add: pow2_def)

lemma monthlyGB_at_least:
  assumes "is_fin b" "1048576 \<le> val b"
  shows "at_least (pow2 10) (monthlyGB b)"
  unfolding monthlyGB_def secondsPerMonth_def bytesPerGB_def
proof (rule at_least_div[of "pow2 40"], rule at_least_mul[of 1048576])
  show "at_least 1048576 b" using assms by (simp add: at_least_def)
qed (use pow2_facts in auto)

lemma r5_eur_nonneg:
  assumes "prices_ok (prices ctx)" "R5 (cfg ctx) = defaultR5"
    "is_fin (BytesInPerSec t)" "1048576 \<le> val (BytesInPerSec t)"
  shows "0 \<le> r5_eur ctx t"
proof -
  have q: "is_fin (fl (65 / 100))" "1 / 2 \<le> val (fl (65 / 100))"
    using fl_between[of "- 1" "65 / 100"] by (simp_all add: pow2_def)
  have ratio: "R5_AssumedRatio (R5 (cfg ctx)) = fl (65 / 100)" by (simp add: assms(2) defaultR5_def)
  have "at_least (pow2 9) (r5_inGB t * fl (65 / 100))"
    unfolding r5_inGB_def using q pow2_facts
    by (intro at_least_mul[OF monthlyGB_at_least[OF assms(3,4)]]) auto
  then have "0 < r5_inGB t * fl (65 / 100)" by (rule at_least_pos) simp
  then show ?thesis
    unfolding r5_eur_def ratio using price_sum_pos[OF assms(1)] by (rule mul_pos_pos_nonneg)
qed

interpretation r5: waste_rule "''R5''" "\<lambda>ctx. Topics (snap ctx)" Name r5_body
proof unfold_locales
  fix ctx t f
  assume ok: "ctx_ok ctx" "t \<in> set (Topics (snap ctx))" and f: "r5_body ctx t = Emit f"
  have b: "is_fin (BytesInPerSec t)" using ctx_okD(3)[OF ok] by (simp add: topic_ok_def)
  have c: "R5 (cfg ctx) = defaultR5" using ctx_okD(2)[OF ok(1)] by (simp add: default_thresholds_def)
  have "\<not> BytesInPerSec t < fl 1048576" using f c by (simp add: r5_emit defaultR5_def)
  then have "1048576 \<le> val (BytesInPerSec t)" using b by (simp add: less_fin)
  from r5_eur_nonneg[OF ctx_okD(1)[OF ok(1)] c b this] show "0 \<le> EstSavingEUR f"
    using f by (auto simp: r5_emit finding_shape round2_nonneg)
qed (auto simp: r5_emit r5_no_panic finding_shape simp: distinct_resources_def known_names_def)

end
