(* ===== verification/R6Replication.thy ===== *)
theory R6Replication
  imports DemoData
begin

text \<open>
  R6, replication mismatch (\<open>r6_replication.go\<close>): non-production topics, recognised by
  name, with more replicas than proposed.
\<close>

definition r6_eur :: "evalCtx \<Rightarrow> topic \<Rightarrow> f64" where
  "r6_eur ctx t =
     gb (RetainedBytes t) *
       (of_i64 (ReplicationFactor t - R6_ProposedRF (R6 (cfg ctx))) / of_i64 (ReplicationFactor t)) *
       StorageEURPerGBMo (prices ctx)"

definition r6_finding :: "evalCtx \<Rightarrow> topic \<Rightarrow> regexp \<Rightarrow> finding" where
  "r6_finding ctx t pat =
     (let c = R6 (cfg ctx);
          retainedGB = gb (RetainedBytes t)
      in \<lparr>RuleID = ''R6'', RuleVersion = 1,
          Title = ''Non-prod topic '' @ go_quote (Name t) @ '' runs RF='' @ fmt_d (ReplicationFactor t),
          Severity = SeverityWarning,
          ResourceKey = ''R6:'' @ Name t,
          Evidence =
            [(''replication_factor'', EvInt (ReplicationFactor t)),
             (''proposed_rf'', EvInt (R6_ProposedRF c)),
             (''retained_gb'', EvFloat (round2 retainedGB)),
             (''matched_pattern'', EvStr (re_source pat))],
          EstSavingEUR = round2 (r6_eur ctx t),
          Basis = fmt_f 1 retainedGB @ '' GB '' @ utf_times @ '' ('' @ fmt_d (ReplicationFactor t) @
            utf_minus @ fmt_d (R6_ProposedRF c) @ '')/'' @ fmt_d (ReplicationFactor t) @ '' replicas '' @
            utf_times @ '' '' @ fmt_f 4 (StorageEURPerGBMo (prices ctx)) @ '' '' @ utf_euro @
            ''/GB-mo. Storage basis: '' @ StorageBasis (prices ctx),
          Confidence = ConfidenceMedium,
          Remediation =
            \<lparr>Summary = ''Reduce replication factor to '' @ fmt_d (R6_ProposedRF c) @
               '' via a partition-reassignment PR (non-prod data).'',
             KafkaConfigsCmd = '''',
             TerraformDiff = ''  topic '' @ go_quote (Name t) @ '' {'' @ newline @
               ''-   replication_factor = '' @ fmt_d (ReplicationFactor t) @ newline @
               ''+   replication_factor = '' @ fmt_d (R6_ProposedRF c) @ newline @ ''  }'',
             StrimziYAML = ''  spec:'' @ newline @ ''    replicas: '' @ fmt_d (R6_ProposedRF c),
             OneClick = False\<rparr>\<rparr>)"

definition r6_body :: "evalCtx \<Rightarrow> topic \<Rightarrow> finding step" where
  "r6_body ctx t =
     (let c = R6 (cfg ctx)
      in if ReplicationFactor t <s R6_TriggerRF c \<or> ReplicationFactor t \<le>s R6_ProposedRF c then Skip
         else (case R6_NamePattern c of
                 None \<Rightarrow> Skip
               | Some pat \<Rightarrow>
                   if \<not> matchString pat (Name t) then Skip else Emit (r6_finding ctx t pat)))"

definition evalR6 :: "evalCtx \<Rightarrow> finding list option" where
  "evalR6 ctx = walk (r6_body ctx) (Topics (snap ctx))"

subsection \<open>The contract\<close>

lemma r6_emit:
  "r6_body ctx t = Emit f \<longleftrightarrow>
     R6_TriggerRF (R6 (cfg ctx)) \<le>s ReplicationFactor t \<and>
     R6_ProposedRF (R6 (cfg ctx)) <s ReplicationFactor t \<and>
     (\<exists>pat. R6_NamePattern (R6 (cfg ctx)) = Some pat \<and> matchString pat (Name t) \<and>
        f = r6_finding ctx t pat)"
  by (auto simp: r6_body_def Let_def signed_cmp split: option.splits)

lemma r6_no_panic: "r6_body ctx t \<noteq> Panic"
  by (simp add: r6_body_def Let_def split: option.splits)

lemma r6_finding_shape [finding_shape]:
  "RuleID (r6_finding ctx t p) = ''R6''"
  "ResourceKey (r6_finding ctx t p) = resource_key ''R6'' (Name t)"
  "Basis (r6_finding ctx t p) \<noteq> ''''"
  "OneClick (Remediation (r6_finding ctx t p)) = False"
  "EstSavingEUR (r6_finding ctx t p) = round2 (r6_eur ctx t)"
  by (simp_all add: r6_finding_def Let_def resource_key_def)

text \<open>The fraction of the replicas that goes away.\<close>

lemma r6_fraction:
  assumes "0 \<le> sint p" "sint p < sint r"
  shows "is_fin (of_i64 (r - p) / of_i64 r)" "0 \<le> val (of_i64 (r - p) / of_i64 r)"
    "val (of_i64 (r - p) / of_i64 r) \<le> 1"
proof -
  have d: "sint (r - p) = sint r - sint p"
    using assms sint_range[of r] sint_range[of p] by (intro sint_sub_in_range) linarith+
  have "0 \<le> of_i64 (r - p)" using assms d by (intro of_i64_nonneg) simp
  then have a: "0 \<le> val (of_i64 (r - p))" by (simp add: le_fin)
  have "of_i64 (r - p) \<le> of_i64 r" using assms d by (intro of_i64_mono) simp
  then have b: "val (of_i64 (r - p)) \<le> val (of_i64 r)" by (simp add: le_fin)
  have "0 < of_i64 r" using assms by (intro of_i64_pos) simp
  then have c: "0 < val (of_i64 r)" by (simp add: less_fin)
  show "is_fin (of_i64 (r - p) / of_i64 r)" "0 \<le> val (of_i64 (r - p) / of_i64 r)"
    "val (of_i64 (r - p) / of_i64 r) \<le> 1"
    using div_le_one[OF _ _ a b c] by simp_all
qed

lemma r6_eur_nonneg:
  assumes "prices_ok (prices ctx)" "0 \<le> sint (RetainedBytes t)"
    "0 \<le> sint (R6_ProposedRF (R6 (cfg ctx)))" "R6_ProposedRF (R6 (cfg ctx)) <s ReplicationFactor t"
  shows "0 \<le> r6_eur ctx t"
proof -
  let ?frac = "of_i64 (ReplicationFactor t - R6_ProposedRF (R6 (cfg ctx))) / of_i64 (ReplicationFactor t)"
  have fr: "is_fin ?frac" "0 \<le> val ?frac" "val ?frac \<le> 1"
    using r6_fraction[of "R6_ProposedRF (R6 (cfg ctx))" "ReplicationFactor t"] assms by (simp_all add: signed_cmp)
  have g: "0 \<le> val (gb (RetainedBytes t))" using gb_nonneg[OF assms(2)] by (simp add: le_fin)
  have q: "representable (pow2 34)" "pow2 34 \<le> pow2 1023"
    by (rule representable_pow2, simp, rule pow2_mono, simp)
  have "is_fin (gb (RetainedBytes t) * ?frac)" "0 \<le> val (gb (RetainedBytes t) * ?frac)"
    using mul_le_left[OF gb_fin fr(1) g fr(2,3) gb_le q] by simp_all
  then show ?thesis
    unfolding r6_eur_def using prices_okD[OF assms(1)]
    by (subst mul_fin) (auto simp: le_fin intro!: rnd_nonneg)
qed

interpretation r6: waste_rule "''R6''" "\<lambda>ctx. Topics (snap ctx)" Name r6_body
proof unfold_locales
  fix ctx t f
  assume ok: "ctx_ok ctx" "t \<in> set (Topics (snap ctx))" and f: "r6_body ctx t = Emit f"
  have "0 \<le> sint (RetainedBytes t)" using ctx_okD(3)[OF ok] by (simp add: topic_ok_def)
  moreover have "R6 (cfg ctx) = defaultR6" using ctx_okD(2)[OF ok(1)] by (simp add: default_thresholds_def)
  ultimately show "0 \<le> EstSavingEUR f"
    using f ctx_okD(1)[OF ok(1)]
    by (auto simp: r6_emit finding_shape defaultR6_def intro!: round2_nonneg r6_eur_nonneg)
qed (auto simp: r6_emit r6_no_panic finding_shape simp: distinct_resources_def known_names_def)

lemma r6_bounded:
  assumes "ctx_ok ctx" "0 \<le> sint (RetainedBytes t)" "r6_body ctx t = Emit f"
  shows "EstSavingEUR f \<le> storage_bill (prices ctx) t"
proof -
  let ?p = "R6_ProposedRF (R6 (cfg ctx))"
  let ?frac = "of_i64 (ReplicationFactor t - ?p) / of_i64 (ReplicationFactor t)"
  have c: "R6 (cfg ctx) = defaultR6" using ctx_okD(2)[OF assms(1)] by (simp add: default_thresholds_def)
  have "0 \<le> sint ?p" "sint ?p < sint (ReplicationFactor t)"
    using assms(3) by (auto simp: r6_emit c defaultR6_def signed_cmp)
  note fr = r6_fraction[OF this]
  have g: "0 \<le> val (gb (RetainedBytes t))" using gb_nonneg[OF assms(2)] by (simp add: le_fin)
  have r: "representable (val (gb (RetainedBytes t)))" using gb_fin[of "RetainedBytes t"]
    unfolding gb_rnd by (simp add: rnd_val rne_is_representable)
  have "val (gb (RetainedBytes t)) \<le> pow2 1023" using gb_le[of "RetainedBytes t"] pow2_mono[of 34 1023] by simp
  note m = mul_le_left[OF gb_fin fr(1) g fr(2,3) order_refl r this]
  have "EstSavingEUR f = round2 (gb (RetainedBytes t) * ?frac * StorageEURPerGBMo (prices ctx))"
    using assms(3) by (auto simp: r6_emit finding_shape r6_eur_def)
  then show ?thesis using storage_share_le[OF ctx_okD(1)[OF assms(1)] _ m(1)] m by (simp add: le_fin)
qed

end
