(* ===== verification/GoSort.thy ===== *)
theory GoSort
  imports Prelude
begin

text \<open>
  Go's \<open>sort.SliceStable\<close> and \<open>sort.Slice\<close>, given by a \<open>less\<close> function. The definition is
  the insertion sort both run on short slices (blocks of 20, and up to 12 elements). On
  longer slices they merge or partition; the locale \<open>strict_weak\<close> shows that for a strict
  weak order every stable sort returns the same list, and that with keys that are all
  different every sort does, so the choice of algorithm does not matter there.
\<close>

fun ins_back :: "('a \<Rightarrow> 'a \<Rightarrow> bool) \<Rightarrow> 'a \<Rightarrow> 'a list \<Rightarrow> 'a list" where
  \<comment> \<open>the new element moves left past the sorted prefix (kept reversed) while it is less\<close>
  "ins_back lt x [] = [x]"
| "ins_back lt x (y # ys) = (if lt x y then y # ins_back lt x ys else x # y # ys)"

definition slice_stable :: "('a \<Rightarrow> 'a \<Rightarrow> bool) \<Rightarrow> 'a list \<Rightarrow> 'a list" where
  "slice_stable lt xs = rev (fold (ins_back lt) xs [])"

definition sorted_by :: "('a \<Rightarrow> 'a \<Rightarrow> bool) \<Rightarrow> 'a list \<Rightarrow> bool" where
  "sorted_by lt xs = sorted_wrt (\<lambda>x y. \<not> lt y x) xs"

lemma mset_ins_back [simp]: "mset (ins_back lt x ys) = add_mset x (mset ys)"
  by (induction ys) auto

lemma set_ins_back [simp]: "set (ins_back lt x ys) = insert x (set ys)"
  by (induction ys) auto

lemma mset_fold_ins_back: "mset (fold (ins_back lt) xs acc) = mset xs + mset acc"
  by (induction xs arbitrary: acc) auto

lemma mset_slice_stable [simp]: "mset (slice_stable lt xs) = mset xs"
  by (simp add: slice_stable_def mset_fold_ins_back)

lemma set_slice_stable [simp]: "set (slice_stable lt xs) = set xs"
  using mset_slice_stable by (metis set_mset_mset)

lemma length_slice_stable [simp]: "length (slice_stable lt xs) = length xs"
  using mset_slice_stable by (metis size_mset)

lemma slice_stable_Nil [simp]: "slice_stable lt [] = []"
  by (simp add: slice_stable_def)

lemma slice_stable_empty_iff [simp]: "slice_stable lt xs = [] \<longleftrightarrow> xs = []"
  by (metis length_0_conv length_slice_stable)

text \<open>
  A comparison usable for sorting the elements of \<open>A\<close>: irreflexive, transitive, and with
  a transitive "neither is less".
\<close>

locale strict_weak =
  fixes lt :: "'a \<Rightarrow> 'a \<Rightarrow> bool" and A :: "'a set"
  assumes irrefl: "x \<in> A \<Longrightarrow> \<not> lt x x"
    and trans: "x \<in> A \<Longrightarrow> y \<in> A \<Longrightarrow> z \<in> A \<Longrightarrow> lt x y \<Longrightarrow> lt y z \<Longrightarrow> lt x z"
    and neg_trans: "x \<in> A \<Longrightarrow> y \<in> A \<Longrightarrow> z \<in> A \<Longrightarrow> lt x z \<Longrightarrow> lt x y \<or> lt y z"
begin

lemma asym: "x \<in> A \<Longrightarrow> y \<in> A \<Longrightarrow> lt x y \<Longrightarrow> \<not> lt y x"
  using irrefl trans by blast

lemma ins_back_sorted:
  assumes "insert x (set ys) \<subseteq> A" "sorted_wrt (\<lambda>a b. \<not> lt a b) ys"
  shows "sorted_wrt (\<lambda>a b. \<not> lt a b) (ins_back lt x ys)"
  using assms
proof (induction ys)
  case (Cons y ys)
  then have in_A: "x \<in> A" "y \<in> A" "set ys \<subseteq> A" by auto
  show ?case
  proof (cases "lt x y")
    case True
    then show ?thesis using Cons asym[of x y] in_A by auto
  next
    case False
    have "\<not> lt x z" if z: "z \<in> set ys" for z
    proof
      assume "lt x z"
      with False have "lt y z" using neg_trans[of x y z] in_A z by auto
      then show False using Cons.prems(2) z by auto
    qed
    then show ?thesis using False Cons.prems by auto
  qed
qed simp

lemma fold_ins_back_sorted:
  assumes "set xs \<union> set acc \<subseteq> A" "sorted_wrt (\<lambda>a b. \<not> lt a b) acc"
  shows "sorted_wrt (\<lambda>a b. \<not> lt a b) (fold (ins_back lt) xs acc)"
  using assms
proof (induction xs arbitrary: acc)
  case (Cons x xs)
  then have "sorted_wrt (\<lambda>a b. \<not> lt a b) (ins_back lt x acc)" by (intro ins_back_sorted) auto
  with Cons show ?case by simp
qed simp

lemma slice_stable_sorted: "set xs \<subseteq> A \<Longrightarrow> sorted_by lt (slice_stable lt xs)"
  using fold_ins_back_sorted[of xs "[]"]
  by (simp add: slice_stable_def sorted_by_def sorted_wrt_rev)

text \<open>Stability: the elements equivalent to a given one keep their order.\<close>

definition equiv_to :: "'a \<Rightarrow> 'a \<Rightarrow> bool" where
  "equiv_to a x \<longleftrightarrow> \<not> lt a x \<and> \<not> lt x a"

lemma ins_back_stable:
  assumes "insert x (insert a (set ys)) \<subseteq> A"
  shows "filter (equiv_to a) (ins_back lt x ys) = filter (equiv_to a) (x # ys)"
  using assms
proof (induction ys)
  case (Cons y ys)
  then have in_A: "x \<in> A" "y \<in> A" "a \<in> A" by auto
  have "\<not> (equiv_to a x \<and> equiv_to a y)" if "lt x y"
    using that neg_trans[of x a y] in_A by (auto simp: equiv_to_def)
  with Cons show ?case by auto
qed simp

lemma fold_ins_back_stable:
  assumes "insert a (set xs \<union> set acc) \<subseteq> A"
  shows "filter (equiv_to a) (fold (ins_back lt) xs acc)
         = filter (equiv_to a) (rev xs @ acc)"
  using assms
proof (induction xs arbitrary: acc)
  case (Cons x xs)
  then show ?case using ins_back_stable[of x a acc] by auto
qed simp

lemma slice_stable_stable:
  "insert a (set xs) \<subseteq> A \<Longrightarrow> filter (equiv_to a) (slice_stable lt xs) = filter (equiv_to a) xs"
  using fold_ins_back_stable[of a xs "[]"] by (simp add: slice_stable_def rev_filter flip: rev_filter)

text \<open>Two sorted lists that agree on every equivalence class are the same list.\<close>

lemma stable_sort_unique:
  assumes "set xs \<subseteq> A" "sorted_by lt xs" "sorted_by lt ys" "mset xs = mset ys"
    and "\<And>a. a \<in> set xs \<Longrightarrow> filter (equiv_to a) xs = filter (equiv_to a) ys"
  shows "xs = ys"
  using assms
proof (induction xs arbitrary: ys)
  case Nil
  then show ?case by simp
next
  case (Cons x xs)
  then obtain y ys' where ys: "ys = y # ys'" by (cases ys) auto
  have sets: "set (x # xs) = set ys" using Cons.prems(4) by (metis set_mset_mset)
  have in_A: "x \<in> A" "y \<in> A" using Cons.prems(1) sets ys by auto
  have "\<not> lt y x"
  proof (cases "y = x")
    case False
    then have "y \<in> set xs" using sets ys by auto
    then show ?thesis using Cons.prems(2) by (auto simp: sorted_by_def)
  qed (use irrefl in_A in simp)
  moreover have "\<not> lt x y"
  proof (cases "x = y")
    case False
    then have "x \<in> set ys'" using sets ys by auto
    then show ?thesis using Cons.prems(3) ys by (auto simp: sorted_by_def)
  qed (use irrefl in_A in simp)
  ultimately have "equiv_to x y" "equiv_to x x" using irrefl in_A by (auto simp: equiv_to_def)
  then have xy: "x = y" using Cons.prems(5)[of x] ys by simp
  have "filter (equiv_to a) xs = filter (equiv_to a) ys'" if "a \<in> set xs" for a
    using Cons.prems(5)[of a] that ys xy by (auto split: if_splits)
  with Cons ys xy have "xs = ys'" by (auto simp: sorted_by_def)
  then show ?case using ys xy by simp
qed

lemma slice_stable_unique:
  assumes "set xs \<subseteq> A" "sorted_by lt ys" "mset ys = mset xs"
    and "\<And>a. a \<in> set xs \<Longrightarrow> filter (equiv_to a) ys = filter (equiv_to a) xs"
  shows "ys = slice_stable lt xs"
proof -
  have "set ys = set xs" using assms(3) by (metis set_mset_mset)
  then have ys: "set ys \<subseteq> A" and elem: "\<And>a. a \<in> set ys \<Longrightarrow> a \<in> set xs" using assms(1) by auto
  show ?thesis
  proof (rule stable_sort_unique[OF ys assms(2) slice_stable_sorted[OF assms(1)]])
    show "mset ys = mset (slice_stable lt xs)" using assms(3) by simp
  next
    fix a
    assume "a \<in> set ys"
    then have "a \<in> set xs" by (rule elem)
    then have "insert a (set xs) \<subseteq> A" using assms(1) by auto
    from slice_stable_stable[OF this] assms(4)[OF \<open>a \<in> set xs\<close>]
    show "filter (equiv_to a) ys = filter (equiv_to a) (slice_stable lt xs)" by simp
  qed
qed

lemma slice_stable_id: "set xs \<subseteq> A \<Longrightarrow> sorted_by lt xs \<Longrightarrow> slice_stable lt xs = xs"
  using slice_stable_unique[of xs xs] by simp

end

text \<open>With a total order on the elements sorting does not even depend on stability.\<close>

locale strict_total = strict_weak +
  assumes total: "x \<in> A \<Longrightarrow> y \<in> A \<Longrightarrow> x \<noteq> y \<Longrightarrow> lt x y \<or> lt y x"
begin

lemma equiv_to_eq: "a \<in> A \<Longrightarrow> x \<in> A \<Longrightarrow> equiv_to a x \<longleftrightarrow> x = a"
  using total irrefl by (auto simp: equiv_to_def)

lemma filter_eq_replicate: "filter (\<lambda>x. x = a) zs = replicate (count (mset zs) a) a"
  by (induction zs) auto

lemma sort_unique:
  assumes "set xs \<subseteq> A" "sorted_by lt ys" "mset ys = mset xs"
  shows "ys = slice_stable lt xs"
proof -
  have ys: "set ys = set xs" using assms(3) by (metis set_mset_mset)
  have classes: "filter (equiv_to a) zs = replicate (count (mset zs) a) a"
    if "a \<in> A" "set zs \<subseteq> A" for a zs
  proof -
    have "filter (equiv_to a) zs = filter (\<lambda>x. x = a) zs"
      using that by (intro filter_cong refl equiv_to_eq) auto
    then show ?thesis by (simp add: filter_eq_replicate)
  qed
  show ?thesis
  proof (rule slice_stable_unique[OF assms])
    fix a
    assume "a \<in> set xs"
    then have "a \<in> A" using assms(1) by auto
    then show "filter (equiv_to a) ys = filter (equiv_to a) xs"
      using classes[of a] assms ys by simp
  qed
qed

end

text \<open>Sorting by an integer or string key.\<close>

interpretation int_order: strict_total "(<) :: int \<Rightarrow> int \<Rightarrow> bool" UNIV
  by unfold_locales auto

interpretation string_order: strict_total "(<) :: gostring \<Rightarrow> gostring \<Rightarrow> bool" UNIV
  by unfold_locales auto

lemma slice_stable_map:
  "map f (slice_stable (\<lambda>x y. lt (f x) (f y)) xs) = slice_stable lt (map f xs)"
proof -
  have ins: "map f (ins_back (\<lambda>x y. lt (f x) (f y)) x ys) = ins_back lt (f x) (map f ys)" for x ys
    by (induction ys) auto
  have "map f (fold (ins_back (\<lambda>x y. lt (f x) (f y))) xs acc) = fold (ins_back lt) (map f xs) (map f acc)"
    for acc
    by (induction xs arbitrary: acc) (auto simp: ins)
  from this[of "[]"] show ?thesis by (simp add: slice_stable_def flip: rev_map)
qed

lemma slice_stable_sort: "slice_stable (<) xs = sort xs" for xs :: "int list"
  by (rule int_order.sort_unique[symmetric])
    (auto simp: sorted_by_def not_less)

text \<open>Sorting by a key: the result is sorted by it, strictly when the keys differ, and then
  it depends only on which elements there are.\<close>

lemma key_strict_total: "inj_on f A \<Longrightarrow> strict_total (\<lambda>a b. f a < (f b :: 'k :: linorder)) A"
  by unfold_locales (auto simp: inj_on_def dest: not_less_iff_gr_or_eq[THEN iffD1])

interpretation by_key: strict_weak "\<lambda>a b. f a < f b" UNIV for f :: "'a \<Rightarrow> 'k :: linorder"
  by unfold_locales auto

lemma sort_key_sorted: "sorted (map f (slice_stable (\<lambda>a b. f a < (f b :: 'k :: linorder)) xs))"
  using by_key.slice_stable_sorted[of xs f] by (simp add: sorted_by_def sorted_map not_less)

lemma sort_key_id: "sorted (map f xs) \<Longrightarrow> slice_stable (\<lambda>a b. f a < (f b :: 'k :: linorder)) xs = xs"
  by (rule by_key.slice_stable_id) (simp_all add: sorted_by_def sorted_map not_less)

lemma sort_key_strict:
  assumes "distinct (map f xs)"
  shows "sorted_wrt (<) (map f (slice_stable (\<lambda>a b. f a < (f b :: 'k :: linorder)) xs))"
proof -
  have "distinct (map f (slice_stable (\<lambda>a b. f a < f b) xs))"
    using assms by (metis mset_eq_imp_distinct_iff mset_map mset_slice_stable)
  then show ?thesis using sort_key_sorted strict_sorted_iff by blast
qed

lemma sort_key_unique:
  assumes "distinct (map f xs)" "mset ys = mset xs"
  shows "slice_stable (\<lambda>a b. f a < (f b :: 'k :: linorder)) ys = slice_stable (\<lambda>a b. f a < f b) xs"
proof (rule strict_total.sort_unique[OF key_strict_total[of f "set xs"]])
  show "inj_on f (set xs)" using assms(1) by (simp add: distinct_map)
  show "sorted_by (\<lambda>a b. f a < f b) (slice_stable (\<lambda>a b. f a < f b) ys)"
    by (rule by_key.slice_stable_sorted) simp
qed (use assms in auto)

end
