(* ===== verification/R7Skew.thy ===== *)
theory R7Skew
  imports DemoData GoSort
begin

text \<open>
  R7, partition skew (\<open>r7_skew.go\<close>): the largest partition against the median. The code
  indexes the sorted sizes at \<open>len - 1\<close>, which panics on an empty slice; the guard on the
  number of partitions rules that out when the threshold is positive.
\<close>

definition medianInt64 :: "i64 list \<Rightarrow> i64" where
  "medianInt64 xs =
     (let n = length xs
      in if n = 0 then 0
         else if n mod 2 = 1 then xs ! (n div 2)
         else go_quot (xs ! (n div 2 - 1) + xs ! (n div 2)) 2)"

text \<open>\<open>sort.Slice\<close> on a copy of the sizes.\<close>

definition sorted_sizes :: "i64 list \<Rightarrow> i64 list" where
  "sorted_sizes xs = slice_stable (\<lambda>a b. a <s b) xs"

definition r7_finding :: "topic \<Rightarrow> i64 list \<Rightarrow> i64 \<Rightarrow> i64 \<Rightarrow> finding" where
  "r7_finding t sizes med maxP =
     (let skew = of_i64 maxP / of_i64 med
      in \<lparr>RuleID = ''R7'', RuleVersion = 1,
          Title = ''Partition skew on '' @ go_quote (Name t) @ '': largest '' @ fmt_f 1 (gb maxP) @
            '' GB vs '' @ fmt_f 1 (gb med) @ '' GB median'',
          Severity = severityForBytes (RetainedBytes t),
          ResourceKey = ''R7:'' @ Name t,
          Evidence =
            [(''max_partition_gb'', EvFloat (round2 (gb maxP))),
             (''median_partition_gb'', EvFloat (round2 (gb med))),
             (''skew_x'', EvFloat (round2 skew)),
             (''partitions'', EvInt (len sizes))],
          EstSavingEUR = 0,
          Basis = ''reliability finding '' @ utf_emdash @ '' '' @ utf_euro @
            ''0 savings; flags an uneven keying/partitioning problem (hot partition)'',
          Confidence = ConfidenceHigh,
          Remediation =
            \<lparr>Summary = ''Investigate the partitioning key for '' @ go_quote (Name t) @ '' '' @
               utf_emdash @ '' one partition holds '' @ fmt_f 1 skew @ utf_times @
               '' the median size. Rebalancing requires a key/partitioner change (topic migration).'',
             KafkaConfigsCmd = '''', TerraformDiff = '''', StrimziYAML = '''', OneClick = False\<rparr>\<rparr>)"

definition r7_body :: "evalCtx \<Rightarrow> topic \<Rightarrow> finding step" where
  "r7_body ctx t =
     (let c = R7 (cfg ctx)
      in if len (PartitionBytes t) <s R7_MinPartitions c \<or> RetainedBytes t <s R7_MinTopicBytes c then Skip
         else (let sizes = sorted_sizes (PartitionBytes t);
                   med = medianInt64 sizes
               in if sizes = [] then Panic
                  else (let maxP = sizes ! (length sizes - 1)
                        in if med \<le>s 0 \<or> of_i64 maxP \<le> R7_SkewFactor c * of_i64 med then Skip
                           else Emit (r7_finding t sizes med maxP))))"

definition evalR7 :: "evalCtx \<Rightarrow> finding list option" where
  "evalR7 ctx = walk (r7_body ctx) (Topics (snap ctx))"

subsection \<open>Sorting the sizes\<close>

interpretation i64_order: strict_total "\<lambda>a b. a <s b" "UNIV :: i64 set"
  by unfold_locales (auto simp: signed_cmp, metis linorder_neqE signed_word_eqI)

lemma sorted_sizes_simps [simp]:
  "set (sorted_sizes xs) = set xs" "length (sorted_sizes xs) = length xs"
  "sorted_sizes xs = [] \<longleftrightarrow> xs = []" "mset (sorted_sizes xs) = mset xs"
  by (simp_all add: sorted_sizes_def)

lemma sizes_sorted: "sorted (map sint (sorted_sizes xs))"
proof -
  have "sorted_by (\<lambda>a b. a <s b) (slice_stable (\<lambda>a b. a <s b) xs)"
    by (rule i64_order.slice_stable_sorted) simp
  then show ?thesis
    unfolding sorted_by_def sorted_wrt_map sorted_sizes_def by (rule sorted_wrt_mono_rel[rotated]) (auto simp: signed_cmp)
qed

subsection \<open>The contract\<close>

lemma len_empty_guard: "0 < sint m \<Longrightarrow> \<not> len xs <s m \<Longrightarrow> xs \<noteq> []" for m :: i64
  by (auto simp: len_def signed_cmp)

lemma r7_no_panic: "0 < sint (R7_MinPartitions (R7 (cfg ctx))) \<Longrightarrow> r7_body ctx t \<noteq> Panic"
  using len_empty_guard[of "R7_MinPartitions (R7 (cfg ctx))" "PartitionBytes t"]
  by (auto simp: r7_body_def Let_def)

lemma r7_panic_iff:
  "r7_body ctx t = Panic \<longleftrightarrow>
     PartitionBytes t = [] \<and> sint (R7_MinPartitions (R7 (cfg ctx))) \<le> 0 \<and>
     R7_MinTopicBytes (R7 (cfg ctx)) \<le>s RetainedBytes t"
  by (auto simp: r7_body_def Let_def len_def signed_cmp)

lemma r7_emitD:
  assumes "r7_body ctx t = Emit f"
  obtains sizes where "sizes = sorted_sizes (PartitionBytes t)" "sizes \<noteq> []"
    "f = r7_finding t sizes (medianInt64 sizes) (sizes ! (length sizes - 1))"
    "0 < sint (medianInt64 sizes)"
    "\<not> of_i64 (sizes ! (length sizes - 1)) \<le> R7_SkewFactor (R7 (cfg ctx)) * of_i64 (medianInt64 sizes)"
  using assms by (auto simp: r7_body_def Let_def signed_cmp split: if_splits)

lemma r7_finding_shape [finding_shape]:
  "RuleID (r7_finding t s m x) = ''R7''"
  "ResourceKey (r7_finding t s m x) = resource_key ''R7'' (Name t)"
  "Basis (r7_finding t s m x) \<noteq> ''''"
  "OneClick (Remediation (r7_finding t s m x)) = False"
  "EstSavingEUR (r7_finding t s m x) = 0"
  by (simp_all add: r7_finding_def Let_def resource_key_def)

interpretation r7: waste_rule "''R7''" "\<lambda>ctx. Topics (snap ctx)" Name r7_body
proof unfold_locales
  fix ctx :: evalCtx and t :: topic
  assume "default_thresholds (cfg ctx)"
  then show "r7_body ctx t \<noteq> Panic"
    by (intro r7_no_panic) (simp add: default_thresholds_def defaultR7_def)
qed (auto elim!: r7_emitD simp: finding_shape le_fin simp: distinct_resources_def known_names_def)

end
