(* ===== verification/Engine.thy ===== *)
theory Engine
  imports R1DeadTopic R2ZombieGroup R3Retention R4Partitions R5Compression R6Replication R7Skew
begin

text \<open>
  The rules engine (\<open>engine.go\<close>): the registry of rules, the evaluation of a history and
  the ranking of the findings. The lemmas hold for any registry whose rules satisfy
  \<open>engine_rule\<close>; \<open>registry_rules\<close> shows that the program's does.
\<close>

record rule =
  rule_ident :: gostring
  staticCapable :: bool
  rule_eval :: "evalCtx \<Rightarrow> finding list option"

definition registry :: "rule list" where
  "registry =
     [\<lparr>rule_ident = ''R1'', staticCapable = True, rule_eval = evalR1\<rparr>,
      \<lparr>rule_ident = ''R2'', staticCapable = True, rule_eval = evalR2\<rparr>,
      \<lparr>rule_ident = ''R3'', staticCapable = True, rule_eval = evalR3\<rparr>,
      \<lparr>rule_ident = ''R4'', staticCapable = True, rule_eval = evalR4\<rparr>,
      \<lparr>rule_ident = ''R5'', staticCapable = True, rule_eval = evalR5\<rparr>,
      \<lparr>rule_ident = ''R6'', staticCapable = True, rule_eval = evalR6\<rparr>,
      \<lparr>rule_ident = ''R7'', staticCapable = True, rule_eval = evalR7\<rparr>,
      \<lparr>rule_ident = ''R8'', staticCapable = True, rule_eval = evalR8\<rparr>]"

definition disabled :: "ruleConfig \<Rightarrow> gostring \<Rightarrow> bool" where
  \<comment> \<open>reading the map: a missing key is \<open>false\<close>\<close>
  "disabled c ident \<longleftrightarrow> Disabled c ident = Some True"

fun run_rules :: "evalCtx \<Rightarrow> bool \<Rightarrow> rule list \<Rightarrow> finding list option" where
  "run_rules ctx staticOnly [] = Some []"
| "run_rules ctx staticOnly (r # rs) =
     (if disabled (cfg ctx) (rule_ident r) then run_rules ctx staticOnly rs
      else if staticOnly \<and> \<not> staticCapable r then run_rules ctx staticOnly rs
      else (case rule_eval r ctx of
              None \<Rightarrow> None
            | Some fs \<Rightarrow> map_option ((@) fs) (run_rules ctx staticOnly rs)))"

definition finding_less :: "finding \<Rightarrow> finding \<Rightarrow> bool" where
  "finding_less a b =
     (if \<not> feq (EstSavingEUR a) (EstSavingEUR b) then EstSavingEUR b < EstSavingEUR a
      else RuleID a < RuleID b)"

definition total_retained :: "topic list \<Rightarrow> i64" where
  "total_retained ts = fold (\<lambda>t n. n + RetainedBytes t) ts 0"

definition eval_context :: "snapshot \<Rightarrow> costModel \<Rightarrow> ruleConfig \<Rightarrow> evalCtx" where
  "eval_context s cm c = \<lparr>snap = s, prices = resolve cm (total_retained (Topics s)), cfg = c\<rparr>"

text \<open>\<open>Evaluate\<close>; \<^const>\<open>None\<close> is a panic of a rule.\<close>

definition evaluate :: "snapshot list \<Rightarrow> costModel \<Rightarrow> ruleConfig \<Rightarrow> finding list option" where
  "evaluate history cm c =
     (case latest history of
        None \<Rightarrow> Some []
      | Some s \<Rightarrow>
          map_option (slice_stable finding_less)
            (run_rules (eval_context s cm c) (length history \<le> 1) registry))"

definition totalSavingsEUR :: "finding list \<Rightarrow> f64" where
  "totalSavingsEUR fs = fold (\<lambda>f t. t + EstSavingEUR f) fs 0"

subsection \<open>The program's registry\<close>

lemmas eval_defs = evalR1_def evalR2_def evalR3_def evalR4_def evalR5_def evalR6_def evalR7_def
  evalR8_def

lemma registry_rules: "r \<in> set registry \<Longrightarrow> engine_rule (rule_ident r) (rule_eval r)"
  using r1.engine_rule_axioms r2.engine_rule_axioms r3.engine_rule_axioms r4.engine_rule_axioms
    r5.engine_rule_axioms r6.engine_rule_axioms r7.engine_rule_axioms r8.engine_rule_axioms
  by (auto simp: registry_def eval_defs[abs_def])

lemma registry_static: "r \<in> set registry \<Longrightarrow> staticCapable r"
  by (auto simp: registry_def)

lemma registry_idents: "map rule_ident registry =
    [''R1'', ''R2'', ''R3'', ''R4'', ''R5'', ''R6'', ''R7'', ''R8'']"
  by (simp add: registry_def)

lemma registry_lengths: "r \<in> set registry \<Longrightarrow> length (rule_ident r) = 2"
  by (auto simp: registry_def)

lemma totalSavings_nonneg: "\<forall>f \<in> set fs. 0 \<le> EstSavingEUR f \<Longrightarrow> 0 \<le> totalSavingsEUR fs"
proof -
  have "0 \<le> t \<Longrightarrow> \<forall>f \<in> set fs. 0 \<le> EstSavingEUR f \<Longrightarrow> 0 \<le> fold (\<lambda>f t. t + EstSavingEUR f) fs t" for t
    by (induction fs arbitrary: t) (auto intro: add_nonneg)
  from this[of 0] show "\<forall>f \<in> set fs. 0 \<le> EstSavingEUR f \<Longrightarrow> ?thesis"
    by (simp add: totalSavingsEUR_def le_fin)
qed

subsection \<open>Running the rules\<close>

lemma run_rules_static:
  "\<forall>r \<in> set rs. staticCapable r \<Longrightarrow> run_rules ctx b rs = run_rules ctx False rs"
  by (induction rs) (auto split: option.splits)

lemma run_rules_defined:
  assumes "\<forall>r \<in> set rs. engine_rule (rule_ident r) (rule_eval r)" "default_thresholds (cfg ctx)"
  shows "\<exists>fs. run_rules ctx b rs = Some fs"
  using assms
proof (induction rs)
  case (Cons r rs)
  then obtain fs gs where "run_rules ctx b rs = Some fs" "rule_eval r ctx = Some gs"
    using engine_rule.ev_defined[of "rule_ident r" "rule_eval r" ctx] by auto
  then show ?case by (cases b) auto
qed simp

text \<open>Every finding comes from an enabled rule of the list.\<close>

lemma run_rules_origin:
  assumes "run_rules ctx b rs = Some fs" "f \<in> set fs"
  obtains r gs where "r \<in> set rs" "\<not> disabled (cfg ctx) (rule_ident r)"
    "rule_eval r ctx = Some gs" "f \<in> set gs" "set gs \<subseteq> set fs"
proof -
  have "\<exists>r gs. r \<in> set rs \<and> \<not> disabled (cfg ctx) (rule_ident r) \<and> rule_eval r ctx = Some gs \<and>
      f \<in> set gs \<and> set gs \<subseteq> set fs"
    using assms(1,2)
  proof (induction rs arbitrary: fs)
    case (Cons r rs)
    show ?case
    proof (cases "disabled (cfg ctx) (rule_ident r) \<or> b \<and> \<not> staticCapable r")
      case True
      then have "run_rules ctx b rs = Some fs" using Cons.prems(1) by (auto split: if_splits)
      with Cons show ?thesis by auto
    next
      case False
      then obtain gs hs where gs: "rule_eval r ctx = Some gs" and hs: "run_rules ctx b rs = Some hs"
        and fs: "fs = gs @ hs" using Cons.prems(1) by (auto split: option.splits)
      show ?thesis
      proof (cases "f \<in> set gs")
        case True
        with False gs fs show ?thesis by auto
      next
        case notin: False
        then have "f \<in> set hs" using fs Cons.prems(2) by simp
        from Cons.IH[OF hs this] fs show ?thesis by fastforce
      qed
    qed
  qed simp
  then show thesis using that by blast
qed

lemma run_rules_complete:
  assumes "run_rules ctx b rs = Some fs" "r \<in> set rs" "\<not> disabled (cfg ctx) (rule_ident r)"
    and "staticCapable r" "rule_eval r ctx = Some gs"
  shows "set gs \<subseteq> set fs"
  using assms by (induction rs arbitrary: fs) (auto split: option.splits if_splits)

lemma resource_key_ident:
  "length a = length b \<Longrightarrow> resource_key a x = resource_key b y \<longleftrightarrow> a = b \<and> x = y"
  by (auto simp: resource_key_def)

lemma run_rules_distinct:
  assumes "\<forall>r \<in> set rs. engine_rule (rule_ident r) (rule_eval r) \<and> length (rule_ident r) = 2"
    and "distinct (map rule_ident rs)" "distinct_resources ctx" "run_rules ctx b rs = Some fs"
  shows "distinct (map ResourceKey fs)"
  using assms
proof (induction rs arbitrary: fs)
  case (Cons r rs)
  show ?case
  proof (cases "disabled (cfg ctx) (rule_ident r) \<or> b \<and> \<not> staticCapable r")
    case True
    then have "run_rules ctx b rs = Some fs" using Cons.prems(4) by (auto split: if_splits)
    then show ?thesis using Cons by simp
  next
    case False
    then obtain gs hs where gs: "rule_eval r ctx = Some gs" and hs: "run_rules ctx b rs = Some hs"
      and fs: "fs = gs @ hs" using Cons.prems(4) by (auto split: option.splits)
    have er: "engine_rule (rule_ident r) (rule_eval r)" using Cons.prems(1) by simp
    have "distinct (map ResourceKey gs)" using engine_rule.ev_distinct[OF er Cons.prems(3) gs] .
    moreover have "distinct (map ResourceKey hs)" using Cons hs by simp
    moreover have "ResourceKey g \<noteq> ResourceKey h" if g: "g \<in> set gs" and h: "h \<in> set hs" for g h
    proof -
      obtain r' ks where r': "r' \<in> set rs" "rule_eval r' ctx = Some ks" "h \<in> set ks"
        using run_rules_origin[OF hs h] by metis
      then have er': "engine_rule (rule_ident r') (rule_eval r')" using Cons.prems(1) by simp
      have "rule_ident r \<noteq> rule_ident r'" using Cons.prems(2) r'(1) by auto
      moreover have "length (rule_ident r) = length (rule_ident r')" using Cons.prems(1) r'(1) by simp
      ultimately show ?thesis
        using engine_rule.ev_key[OF er gs g] engine_rule.ev_key[OF er' r'(2,3)]
        by (auto simp: resource_key_ident)
    qed
    ultimately show ?thesis by (auto simp: fs)
  qed
qed simp

subsection \<open>Ranking\<close>

lemma finding_less_iff:
  "finding_less a b \<longleftrightarrow>
     EstSavingEUR b < EstSavingEUR a \<or> feq (EstSavingEUR a) (EstSavingEUR b) \<and> RuleID a < RuleID b"
  using feq_flt(1)[of "EstSavingEUR b" "EstSavingEUR a" "EstSavingEUR a"]
  by (auto simp: finding_less_def dest: feq_sym)

interpretation ranking: strict_weak finding_less "{f. EstSavingEUR f \<noteq> NaN}"
proof unfold_locales
  fix x y z :: finding
  let ?x = "EstSavingEUR x" and ?y = "EstSavingEUR y" and ?z = "EstSavingEUR z"
  show "\<not> finding_less x x" by (simp add: finding_less_iff)
  show "finding_less x z" if "finding_less x y" "finding_less y z"
    using that unfolding finding_less_iff
    by (metis feq_flt(1,2) feq_trans flt_trans order.strict_trans)
  assume "x \<in> {f. EstSavingEUR f \<noteq> NaN}" "y \<in> {f. EstSavingEUR f \<noteq> NaN}"
  then have lin: "?x < ?y \<or> feq ?x ?y \<or> ?y < ?x" by (intro f64_linear) auto
  show "finding_less x y \<or> finding_less y z" if "finding_less x z"
    using lin
  proof (elim disjE)
    assume "?x < ?y"
    then have "?z < ?y" using that feq_flt(1)[of ?x ?z ?y] flt_trans[of ?z ?x ?y]
      by (auto simp: finding_less_iff)
    then show ?thesis by (simp add: finding_less_iff)
  next
    assume xy: "feq ?x ?y"
    show ?thesis
    proof (cases "?z < ?x")
      case True
      then show ?thesis using feq_flt(2)[OF xy] by (simp add: finding_less_iff)
    next
      case False
      then have xz: "feq ?x ?z" "RuleID x < RuleID z" using that by (auto simp: finding_less_iff)
      then have "feq ?y ?z" using feq_trans feq_sym xy by blast
      then show ?thesis using xz(2) xy linorder_less_linear[of "RuleID x" "RuleID y"]
        by (auto simp: finding_less_iff)
    qed
  next
    assume "?y < ?x"
    then show ?thesis by (simp add: finding_less_iff)
  qed
qed


lemma not_finding_less:
  assumes "EstSavingEUR a \<noteq> NaN" "EstSavingEUR b \<noteq> NaN" "\<not> finding_less b a"
  shows "EstSavingEUR b < EstSavingEUR a \<or> feq (EstSavingEUR a) (EstSavingEUR b) \<and> RuleID a \<le> RuleID b"
  using assms f64_linear[of "EstSavingEUR a" "EstSavingEUR b"]
  by (auto simp: finding_less_iff not_less dest: feq_sym)

lemma ranking_equiv:
  assumes "EstSavingEUR a \<noteq> NaN" "EstSavingEUR b \<noteq> NaN"
  shows "ranking.equiv_to a b \<longleftrightarrow> feq (EstSavingEUR a) (EstSavingEUR b) \<and> RuleID a = RuleID b"
proof
  assume "ranking.equiv_to a b"
  then have n: "\<not> finding_less a b" "\<not> finding_less b a" by (auto simp: ranking.equiv_to_def)
  then show "feq (EstSavingEUR a) (EstSavingEUR b) \<and> RuleID a = RuleID b"
    using not_finding_less[OF assms n(2)] not_finding_less[OF assms(2,1) n(1)] finding_less_iff
    by (auto dest: feq_sym)
next
  assume e: "feq (EstSavingEUR a) (EstSavingEUR b) \<and> RuleID a = RuleID b"
  then show "ranking.equiv_to a b"
    using feq_sym[of "EstSavingEUR a" "EstSavingEUR b"] by (simp add: ranking.equiv_to_def finding_less_def)
qed

subsection \<open>Evaluating a history\<close>

lemma eval_context_simps [simp]:
  "snap (eval_context s cm c) = s" "cfg (eval_context s cm c) = c"
  "prices (eval_context s cm c) = resolve cm (total_retained (Topics s))"
  by (simp_all add: eval_context_def)

lemma run_registry: "run_rules ctx b registry = run_rules ctx False registry"
  by (rule run_rules_static) (simp add: registry_static)

text \<open>The result of \<open>Evaluate\<close> is the ranked output of the rules on the latest snapshot.\<close>

lemma evaluate_latest_run:
  "evaluate h cm c =
     (case latest h of
        None \<Rightarrow> Some []
      | Some s \<Rightarrow> map_option (slice_stable finding_less) (run_rules (eval_context s cm c) False registry))"
  unfolding evaluate_def run_registry[of _ "length h \<le> 1"] ..

lemma evaluateE:
  assumes "evaluate h cm c = Some fs" "f \<in> set fs"
  obtains s gs where "latest h = Some s" "run_rules (eval_context s cm c) False registry = Some gs"
    "fs = slice_stable finding_less gs" "f \<in> set gs"
  using assms by (auto simp: evaluate_latest_run split: option.splits)

lemma evaluate_origin:
  assumes "evaluate h cm c = Some fs" "f \<in> set fs"
  obtains s r gs where "latest h = Some s" "r \<in> set registry" "\<not> disabled c (rule_ident r)"
    "rule_eval r (eval_context s cm c) = Some gs" "f \<in> set gs"
proof -
  obtain s gs where s: "latest h = Some s" "run_rules (eval_context s cm c) False registry = Some gs"
    "f \<in> set gs" using evaluateE[OF assms] by metis
  show thesis
    using run_rules_origin[OF s(2,3)] that[OF s(1)] by (metis eval_context_simps(2))
qed

lemma latest_snoc [simp]: "latest (hs @ [s]) = Some s" "latest [s] = Some s" "latest [] = None"
  by (simp_all add: latest_def)

text \<open>The rule of a finding is told by its identity.\<close>

lemma evaluate_by_rule:
  assumes "evaluate h cm c = Some fs" "f \<in> set fs" "r \<in> set registry" "RuleID f = rule_ident r"
  obtains s gs where "latest h = Some s" "\<not> disabled c (rule_ident r)"
    "rule_eval r (eval_context s cm c) = Some gs" "f \<in> set gs"
proof -
  obtain s r' gs where o: "latest h = Some s" "r' \<in> set registry" "\<not> disabled c (rule_ident r')"
    "rule_eval r' (eval_context s cm c) = Some gs" "f \<in> set gs"
    using evaluate_origin[OF assms(1,2)] by metis
  have "rule_ident r' = rule_ident r"
    using engine_rule.ev_id[OF registry_rules[OF o(2)] o(4,5)] assms(4) by simp
  then have "r' = r" using o(2) assms(3) by (auto simp: registry_def)
  then show thesis using o that by simp
qed

lemma evaluate_idents:
  assumes "evaluate h cm c = Some fs"
  shows "\<forall>f \<in> set fs. RuleID f \<in> set [''R1'', ''R2'', ''R3'', ''R4'', ''R5'', ''R6'', ''R7'', ''R8'']"
proof
  fix f
  assume "f \<in> set fs"
  from evaluate_origin[OF assms this] obtain s r gs where o: "r \<in> set registry"
    "rule_eval r (eval_context s cm c) = Some gs" "f \<in> set gs" by metis
  then have "RuleID f \<in> set (map rule_ident registry)"
    using engine_rule.ev_id[OF registry_rules[OF o(1)] o(2,3)] by simp
  then show "RuleID f \<in> set [''R1'', ''R2'', ''R3'', ''R4'', ''R5'', ''R6'', ''R7'', ''R8'']"
    by (simp only: registry_idents)
qed

lemma key_ident:
  assumes "evaluate h cm c = Some fs" "f \<in> set fs" "ResourceKey f = i @ '':'' @ n" "length i = 2"
  shows "RuleID f = i"
proof -
  obtain s r gs where o: "r \<in> set registry" "rule_eval r (eval_context s cm c) = Some gs" "f \<in> set gs"
    using evaluate_origin[OF assms(1,2)] by metis
  then obtain m where "ResourceKey f = resource_key (rule_ident r) m"
    using engine_rule.ev_key[OF registry_rules[OF o(1)] o(2,3)] by blast
  moreover have "length (rule_ident r) = 2" by (rule registry_lengths[OF o(1)])
  moreover have "RuleID f = rule_ident r" using engine_rule.ev_id[OF registry_rules[OF o(1)] o(2,3)] .
  ultimately show ?thesis using assms(3,4) by (simp add: resource_key_def)
qed

text \<open>The findings of one enabled rule in the result are what its evaluator returns.\<close>

lemma evaluate_rule_set:
  assumes "evaluate (hs @ [s]) cm c = Some fs" "r \<in> set registry" "\<not> disabled c (rule_ident r)"
    "rule_eval r (eval_context s cm c) = Some gs"
  shows "{f \<in> set fs. RuleID f = rule_ident r} = set gs"
proof
  show "{f \<in> set fs. RuleID f = rule_ident r} \<subseteq> set gs"
  proof
    fix f
    assume "f \<in> {f \<in> set fs. RuleID f = rule_ident r}"
    then have f: "f \<in> set fs" "RuleID f = rule_ident r" by auto
    from evaluate_by_rule[OF assms(1) f(1) assms(2) f(2)] assms(4) show "f \<in> set gs" by (metis latest_snoc(1) option.inject)
  qed
next
  obtain ks where ks: "run_rules (eval_context s cm c) False registry = Some ks" "fs = slice_stable finding_less ks"
    using assms(1) by (auto simp: evaluate_latest_run)
  have "set gs \<subseteq> set ks"
    using run_rules_complete[OF ks(1) assms(2) _ registry_static[OF assms(2)] assms(4)] assms(3) by simp
  then show "set gs \<subseteq> {f \<in> set fs. RuleID f = rule_ident r}"
    using engine_rule.ev_id[OF registry_rules[OF assms(2)] assms(4)] ks(2) by auto
qed

text \<open>A panic of the evaluation is a panic of an enabled rule.\<close>

lemma run_rules_None:
  "run_rules ctx False rs = None \<longleftrightarrow>
     (\<exists>r \<in> set rs. \<not> disabled (cfg ctx) (rule_ident r) \<and> rule_eval r ctx = None)"
  by (induction rs) (auto split: option.splits)

lemma only_r7_panics:
  "(evalR1 ctx = None) = False" "(evalR2 ctx = None) = False" "(evalR3 ctx = None) = False"
  "(evalR4 ctx = None) = False" "(evalR5 ctx = None) = False" "(evalR6 ctx = None) = False"
  "(evalR8 ctx = None) = False"
  by (simp_all add: eval_defs walk_panic r1_no_panic r2_no_panic r3_no_panic r4_no_panic
      r5_no_panic r6_no_panic r8_no_panic del: not_None_eq)

lemma run_registry_None:
  "run_rules ctx False registry = None \<longleftrightarrow> \<not> disabled (cfg ctx) ''R7'' \<and> evalR7 ctx = None"
  unfolding run_rules_None registry_def by (simp add: only_r7_panics del: not_None_eq)

lemma evaluate_defined: "default_thresholds c \<Longrightarrow> \<exists>fs. evaluate (hs @ [s]) cm c = Some fs"
  using run_rules_defined[of registry "eval_context s cm c" False] registry_rules
  by (simp add: evaluate_latest_run)

end
