(* ===== verification/Samples.thy ===== *)
theory Samples
  imports Engine
begin

text \<open>
  The demo snapshot evaluated by hand, rule by rule: each of R1 to R6 reports the one
  resource the snapshot was made for.
\<close>

definition demo_findings :: "finding list" where
  "demo_findings =
     [r1_finding demo_ctx legacy_dump, r2_finding etl_legacy, r3_finding demo_ctx clicks 86400000,
      r4_finding demo_ctx metrics_fine 12, r5_finding demo_ctx events_raw,
      r6_finding demo_ctx dev_orders r6_pattern]"

lemma demo_internal: "isStreamsInternal ''events.raw'' = False" "isStreamsInternal ''clicks'' = False"
  "isStreamsInternal ''legacy.dump'' = False" "isStreamsInternal ''dev.orders'' = False"
  "isStreamsInternal ''metrics.fine'' = False"
  by code_simp+

lemma demo_suffix: "matchSuffix ''events.raw'' streamsInternalSuffixes = ''''"
  "matchSuffix ''clicks'' streamsInternalSuffixes = ''''" "matchSuffix ''legacy.dump'' streamsInternalSuffixes = ''''"
  "matchSuffix ''dev.orders'' streamsInternalSuffixes = ''''" "matchSuffix ''metrics.fine'' streamsInternalSuffixes = ''''"
  by code_simp+

lemma demo_names: "matchString r6_pattern ''events.raw'' = False" "matchString r6_pattern ''clicks'' = False"
  "matchString r6_pattern ''legacy.dump'' = False" "matchString r6_pattern ''dev.orders''"
  "matchString r6_pattern ''metrics.fine'' = False"
  by code_simp+

lemma demo_r1: "evalR1 demo_ctx = Some [r1_finding demo_ctx legacy_dump]"
  by (simp add: evalR1_def r1_body_def Let_def demo_internal defaultR1_def signed_cmp less_fin)

lemma demo_r2: "evalR2 demo_ctx = Some [r2_finding etl_legacy]"
proof -
  have "equal_fold (trim_space ''Stable'') ''Empty'' = False" "equal_fold (trim_space ''Empty'') ''Empty''"
    by code_simp+
  then show ?thesis
    by (simp add: evalR2_def r2_body_def defaultR2_def signed_cmp)
qed

lemma demo_r3: "evalR3 demo_ctx = Some [r3_finding demo_ctx clicks 86400000]"
proof -
  have "r3_body demo_ctx events_raw = Skip" "r3_body demo_ctx legacy_dump = Skip"
    "r3_body demo_ctx dev_orders = Skip" "r3_body demo_ctx metrics_fine = Skip"
    by (simp_all add: r3_body_def Let_def defaultR3_def signed_cmp)
  then show ?thesis by (simp add: evalR3_def r3_body_clicks)
qed

lemma demo_r4: "evalR4 demo_ctx = Some [r4_finding demo_ctx metrics_fine 12]"
proof -
  have "r4_body demo_ctx events_raw = Skip" "r4_body demo_ctx clicks = Skip"
    "r4_body demo_ctx legacy_dump = Skip" "r4_body demo_ctx dev_orders = Skip"
    by (simp_all add: r4_body_def Let_def defaultR4_def signed_cmp)
  then show ?thesis by (simp add: evalR4_def r4_body_metrics)
qed

lemma demo_r5: "evalR5 demo_ctx = Some [r5_finding demo_ctx events_raw]"
  by (simp add: evalR5_def r5_body_def Let_def defaultR5_def less_fin uncompressedTypes_def)

lemma demo_r6: "evalR6 demo_ctx = Some [r6_finding demo_ctx dev_orders r6_pattern]"
  by (simp add: evalR6_def r6_body_def Let_def defaultR6_def signed_cmp demo_names)

lemma demo_r7: "evalR7 demo_ctx = Some []"
  by (simp add: evalR7_def r7_body_def Let_def defaultR7_def signed_cmp len_def)

lemma demo_r8: "evalR8 demo_ctx = Some []"
  by (simp add: evalR8_def r8_body_def Let_def defaultR8_def demo_suffix)

lemma demo_eval_context: "eval_context sample_snapshot demo_model (defaultConfig zero_time) = demo_ctx"
  by (simp add: eval_context_def demo_ctx_def total_retained_def)

lemma demo_run: "run_rules demo_ctx False registry = Some demo_findings"
  by (simp add: registry_def disabled_def demo_r1 demo_r2 demo_r3 demo_r4 demo_r5 demo_r6 demo_r7
      demo_r8 demo_findings_def)

lemma demo_evaluate:
  "evaluate [sample_snapshot] demo_model (defaultConfig zero_time) = Some (slice_stable finding_less demo_findings)"
  by (simp add: evaluate_latest_run demo_eval_context demo_run)

lemma demo_saving: "\<forall>f \<in> set demo_findings. 0 \<le> EstSavingEUR f"
  "\<forall>f \<in> set demo_findings. EstSavingEUR f \<noteq> NaN"
proof -
  show "\<forall>f \<in> set demo_findings. 0 \<le> EstSavingEUR f"
    using r1.ev_saving[OF demo_ctx_ok] r2.ev_saving[OF demo_ctx_ok] r3.ev_saving[OF demo_ctx_ok]
      r4.ev_saving[OF demo_ctx_ok] r5.ev_saving[OF demo_ctx_ok] r6.ev_saving[OF demo_ctx_ok]
      demo_r1 demo_r2 demo_r3 demo_r4 demo_r5 demo_r6
    by (simp add: demo_findings_def eval_defs)
  then show "\<forall>f \<in> set demo_findings. EstSavingEUR f \<noteq> NaN" using nonneg_not_nan by auto
qed

end
