(* ===== verification/R6Names.thy ===== *)
theory R6Names
  imports R6Replication
begin

text \<open>
  The default name pattern of R6, characterised on ASCII names (Kafka allows no others):
  a word of the list, in any case, delimited by separators or the ends of the name.
\<close>

definition ascii :: "gostring \<Rightarrow> bool" where
  "ascii s \<longleftrightarrow> list_all (\<lambda>c. byte c < 128) s"

definition non_prod_name :: "gostring \<Rightarrow> bool" where
  "non_prod_name name \<longleftrightarrow>
     (\<exists>pre w post. name = pre @ w @ post \<and> to_lower w \<in> set r6_words \<and>
        (pre = [] \<or> last pre \<in> set r6_separators) \<and> (post = [] \<or> hd post \<in> set r6_separators))"

lemma ascii_simps [simp]: "ascii []" "ascii (c # s) \<longleftrightarrow> byte c < 128 \<and> ascii s"
  "ascii (s @ t) \<longleftrightarrow> ascii s \<and> ascii t"
  by (simp_all add: ascii_def)

subsection \<open>Case-insensitive literals\<close>

definition lower_letter :: "char \<Rightarrow> bool" where
  "lower_letter c \<longleftrightarrow> in_range 97 122 c"

lemma byte_inject: "byte c = byte d \<longleftrightarrow> c = d"
  by (simp add: byte_def)

lemma byte_char_of: "0 \<le> n \<Longrightarrow> n < 256 \<Longrightarrow> byte (char_of n) = n"
  by (simp add: byte_def)

lemma byte_range: "0 \<le> byte c" "byte c < 256"
  using range_nat_of_char by (auto simp: byte_def of_char_def)

lemma ascii_lower_eq:
  assumes "lower_letter c"
  shows "ascii_lower d = c \<longleftrightarrow> d = c \<or> d = char_of (byte c - 32)"
proof -
  have r: "97 \<le> byte c" "byte c \<le> 122" using assms by (auto simp: lower_letter_def in_range_def)
  have u: "byte (char_of (byte c - 32) :: char) = byte c - 32" using r by (intro byte_char_of) auto
  show ?thesis
  proof (cases "in_range 65 90 d")
    case True
    then have "byte (ascii_lower d) = byte d + 32"
      by (simp add: ascii_lower_def) (auto simp: in_range_def intro: byte_char_of)
    then have "ascii_lower d = c \<longleftrightarrow> byte d = byte c - 32" by (auto simp flip: byte_inject)
    also have "\<dots> \<longleftrightarrow> d = char_of (byte c - 32)" using u by (metis byte_inject)
    finally show ?thesis using True r by (auto simp: in_range_def)
  next
    case False
    then have "d \<noteq> char_of (byte c - 32)" using r u by (auto simp: in_range_def)
    with False show ?thesis by (auto simp: ascii_lower_def)
  qed
qed

lemma fold_char_lang:
  assumes "lower_letter c" "ascii v"
  shows "v \<in> re_lang (fold_char c) \<longleftrightarrow> (\<exists>d. v = [d] \<and> ascii_lower d = c)"
proof -
  have "v \<notin> re_lang (re_lit [CHR 0xC5, CHR 0xBF])" "v \<notin> re_lang (re_lit [CHR 0xE2, CHR 0x84, CHR 0xAA])"
    using assms(2) by (auto simp: byte_def)
  then show ?thesis
    by (auto simp: fold_char_def Let_def ascii_lower_eq[OF assms(1)] split: if_splits)
qed

lemma fold_lit_lang:
  "list_all lower_letter w \<Longrightarrow> ascii v \<Longrightarrow> v \<in> re_lang (re_fold_lit w) \<longleftrightarrow> to_lower v = w"
proof (induction w arbitrary: v)
  case Nil
  then show ?case by (auto simp: to_lower_def)
next
  case (Cons c w)
  have "v \<in> re_lang (re_fold_lit (c # w)) \<longleftrightarrow>
      (\<exists>v1 v2. v = v1 @ v2 \<and> v1 \<in> re_lang (fold_char c) \<and> v2 \<in> re_lang (re_fold_lit w))"
    by simp
  also have "\<dots> \<longleftrightarrow> (\<exists>v1 v2. v = v1 @ v2 \<and> (\<exists>d. v1 = [d] \<and> ascii_lower d = c) \<and> to_lower v2 = w)"
    using Cons fold_char_lang[of c] by (intro ex_cong1 conj_cong refl) auto
  also have "\<dots> \<longleftrightarrow> to_lower v = c # w" 
  proof
    assume "to_lower v = c # w"
    then obtain d v2 where "v = [d] @ v2" "ascii_lower d = c" "to_lower v2 = w"
      by (cases v) (auto simp: to_lower_def)
    then show "\<exists>v1 v2. v = v1 @ v2 \<and> (\<exists>d. v1 = [d] \<and> ascii_lower d = c) \<and> to_lower v2 = w" by blast
  qed (auto simp: to_lower_def)
  finally show ?case .
qed

subsection \<open>The pattern\<close>

abbreviation word_re :: re where
  "word_re \<equiv> re_alts (map re_fold_lit r6_words)"

lemma word_lang: "ascii v \<Longrightarrow> v \<in> re_lang word_re \<longleftrightarrow> to_lower v \<in> set r6_words"
proof -
  assume "ascii v"
  moreover have "list_all (list_all lower_letter) r6_words" by code_simp
  ultimately have "w \<in> set r6_words \<Longrightarrow> v \<in> re_lang (re_fold_lit w) \<longleftrightarrow> to_lower v = w" for w
    by (intro fold_lit_lang) (auto simp: list_all_iff)
  then show ?thesis by (auto simp: re_lang_alts)
qed

lemma word_anchor_free: "anchor_free word_re"
  by (rule re_alts_anchor_free) auto

lemma seq_nonempty: "re_ends (ReSeq a b) s i \<noteq> [] \<longleftrightarrow> (\<exists>j \<in> set (re_ends a s i). re_ends b s j \<noteq> [])"
  by auto

lemma begin_ends:
  "j \<in> set (re_ends (ReAlt ReBegin (ReClass cs)) s i) \<longleftrightarrow>
     i = 0 \<and> j = 0 \<or> j = Suc i \<and> i < length s \<and> s ! i \<in> set cs"
  by auto

lemma final_ends:
  "re_ends (ReAlt (ReClass cs) ReEnd) s k \<noteq> [] \<longleftrightarrow> k < length s \<and> s ! k \<in> set cs \<or> k = length s"
  by auto

lemma r6_match_iff:
  "matchString r6_pattern s \<longleftrightarrow>
     (\<exists>j \<le> length s. (j = 0 \<or> s ! (j - 1) \<in> set r6_separators) \<and>
        (\<exists>v \<in> re_lang word_re. prefix v (drop j s) \<and>
           (j + length v = length s \<or> s ! (j + length v) \<in> set r6_separators)))"
proof -
  let ?e = "re_ends (ReAlt (ReClass r6_separators) ReEnd) s" and ?L = "re_lang word_re"
  have start: "(\<exists>i \<le> length s. i = 0 \<and> j = 0 \<or> j = Suc i \<and> i < length s \<and> s ! i \<in> set r6_separators) \<longleftrightarrow>
      j \<le> length s \<and> (j = 0 \<or> s ! (j - 1) \<in> set r6_separators)" for j
    by (cases j) auto
  have stop: "(?e (j + length v) \<noteq> []) = (j + length v = length s \<or> s ! (j + length v) \<in> set r6_separators)"
    if "j \<le> length s" "prefix v (drop j s)" for j v
    using that prefix_length_le[of v "drop j s"] unfolding final_ends by auto
  have mid: "(\<exists>k \<in> set (re_ends word_re s j). Q k) \<longleftrightarrow> (\<exists>v \<in> ?L. prefix v (drop j s) \<and> Q (j + length v))"
    if "j \<le> length s" for j Q
    using re_ends_lang[OF word_anchor_free that] by auto
  have "matchString r6_pattern s \<longleftrightarrow>
      (\<exists>i \<le> length s. \<exists>j \<in> set (re_ends (ReAlt ReBegin (ReClass r6_separators)) s i).
         \<exists>k \<in> set (re_ends word_re s j). ?e k \<noteq> [])"
    unfolding matchString_def list_ex_iff r6_pattern_def regexp.select_convs seq_nonempty
      set_upt atLeast0LessThan lessThan_Suc_atMost by blast
  also have "\<dots> \<longleftrightarrow> (\<exists>j. (\<exists>i \<le> length s. i = 0 \<and> j = 0 \<or> j = Suc i \<and> i < length s \<and> s ! i \<in> set r6_separators) \<and>
      (\<exists>k \<in> set (re_ends word_re s j). ?e k \<noteq> []))"
    unfolding Bex_def begin_ends by blast
  also have "\<dots> \<longleftrightarrow> (\<exists>j \<le> length s. (j = 0 \<or> s ! (j - 1) \<in> set r6_separators) \<and>
      (\<exists>k \<in> set (re_ends word_re s j). ?e k \<noteq> []))"
    unfolding start by blast
  also have "\<dots> \<longleftrightarrow> (\<exists>j \<le> length s. (j = 0 \<or> s ! (j - 1) \<in> set r6_separators) \<and>
      (\<exists>v \<in> ?L. prefix v (drop j s) \<and> ?e (j + length v) \<noteq> []))"
    by (simp only: mid cong: conj_cong)
  also have "\<dots> \<longleftrightarrow> (\<exists>j \<le> length s. (j = 0 \<or> s ! (j - 1) \<in> set r6_separators) \<and>
      (\<exists>v \<in> ?L. prefix v (drop j s) \<and> (j + length v = length s \<or> s ! (j + length v) \<in> set r6_separators)))"
    by (simp only: stop cong: conj_cong)
  finally show ?thesis .
qed

lemma at_separators:
  assumes "s = pre @ w @ post"
  shows "(length pre = 0 \<or> s ! (length pre - 1) \<in> S) \<longleftrightarrow> pre = [] \<or> last pre \<in> S"
    "(length pre + length w = length s \<or> s ! (length pre + length w) \<in> S) \<longleftrightarrow> post = [] \<or> hd post \<in> S"
proof -
  show "(length pre = 0 \<or> s ! (length pre - 1) \<in> S) \<longleftrightarrow> pre = [] \<or> last pre \<in> S"
    by (cases "pre = []") (simp_all add: assms last_conv_nth nth_append)
  have "post \<noteq> [] \<Longrightarrow> s ! (length pre + length w) = hd post"
    by (simp add: assms nth_append hd_conv_nth)
  then show "(length pre + length w = length s \<or> s ! (length pre + length w) \<in> S) \<longleftrightarrow> post = [] \<or> hd post \<in> S"
    using assms by (cases "post = []") simp_all
qed

lemma split_at_iff:
  "(\<exists>j \<le> length s. \<exists>v. prefix v (drop j s) \<and> P j v) \<longleftrightarrow> (\<exists>pre w post. s = pre @ w @ post \<and> P (length pre) w)"
proof
  assume "\<exists>j \<le> length s. \<exists>v. prefix v (drop j s) \<and> P j v"
  then obtain j v post where "j \<le> length s" "drop j s = v @ post" "P j v" by (auto simp: prefix_def)
  then have "s = take j s @ v @ post" "P (length (take j s)) v" by (metis append_take_drop_id, simp)
  then show "\<exists>pre w post. s = pre @ w @ post \<and> P (length pre) w" by blast
next
  assume "\<exists>pre w post. s = pre @ w @ post \<and> P (length pre) w"
  then obtain pre w post where "s = pre @ w @ post" "P (length pre) w" by blast
  then show "\<exists>j \<le> length s. \<exists>v. prefix v (drop j s) \<and> P j v"
    by (intro exI[of _ "length pre"] conjI exI[of _ w]) auto
qed

lemma r6_match_names:
  assumes "ascii name"
  shows "matchString r6_pattern name \<longleftrightarrow> non_prod_name name"
proof -
  have "matchString r6_pattern name \<longleftrightarrow>
      (\<exists>j \<le> length name. \<exists>v. prefix v (drop j name) \<and> v \<in> re_lang word_re \<and>
        (j = 0 \<or> name ! (j - 1) \<in> set r6_separators) \<and>
        (j + length v = length name \<or> name ! (j + length v) \<in> set r6_separators))"
    unfolding r6_match_iff by blast
  also have "\<dots> \<longleftrightarrow> (\<exists>pre w post. name = pre @ w @ post \<and> w \<in> re_lang word_re \<and>
        (length pre = 0 \<or> name ! (length pre - 1) \<in> set r6_separators) \<and>
        (length pre + length w = length name \<or> name ! (length pre + length w) \<in> set r6_separators))"
    by (rule split_at_iff)
  also have "\<dots> \<longleftrightarrow> non_prod_name name"
  proof -
    have "(w \<in> re_lang word_re \<and> (length pre = 0 \<or> name ! (length pre - 1) \<in> set r6_separators) \<and>
        (length pre + length w = length name \<or> name ! (length pre + length w) \<in> set r6_separators)) \<longleftrightarrow>
        (to_lower w \<in> set r6_words \<and> (pre = [] \<or> last pre \<in> set r6_separators) \<and>
         (post = [] \<or> hd post \<in> set r6_separators))" if n: "name = pre @ w @ post" for pre w post
      using assms word_lang[of w] at_separators[OF n] n by simp
    then show ?thesis unfolding non_prod_name_def by blast
  qed
  finally show ?thesis .
qed

text \<open>C26: R6 is raised exactly for the topics it is meant for: under the default thresholds, a
  topic with an ASCII name is reported if and only if it has at least three replicas and its name
  contains one of the words dev, test, tmp, temp, staging, sandbox, in any case, delimited by
  dots, underscores, dashes or the ends of the name.\<close>

theorem r6_reports_non_prod:
  assumes "default_thresholds (cfg ctx)" "ascii (Name t)"
  shows "r6_body ctx t = Emit f \<longleftrightarrow>
           3 \<le> sint (ReplicationFactor t) \<and> non_prod_name (Name t) \<and> f = r6_finding ctx t r6_pattern"
  using r6_match_names[OF assms(2)] assms(1)
  by (auto simp: r6_emit default_thresholds_def defaultR6_def signed_cmp)

theorem r6_reports_non_prod_witness:
  "r6_body demo_ctx dev_orders = Emit (r6_finding demo_ctx dev_orders r6_pattern)"
proof -
  have "non_prod_name ''dev.orders''"
    unfolding non_prod_name_def
    by (rule exI[of _ "''''"], rule exI[of _ "''dev''"], rule exI[of _ "''.orders''"]) code_simp
  moreover have "ascii (Name dev_orders)" by simp code_simp
  ultimately show ?thesis
    using r6_reports_non_prod[of demo_ctx dev_orders "r6_finding demo_ctx dev_orders r6_pattern"] by simp
qed

end
