(* ===== verification/WasteSpec.thy ===== *)
theory WasteSpec
  imports Samples R6Names
begin

text \<open>
  What the rules whose triggers are exact are meant to report, stated on integers, rational
  numbers and names, without floating point, machine words or regular expressions; and the
  proof that the evaluators report precisely that under the default thresholds. (R3 and R4
  compare rounded quotients; their own theories bound what they report.)
\<close>

subsection \<open>The specification\<close>

definition internal_name :: "gostring \<Rightarrow> bool" where
  "internal_name n \<longleftrightarrow> suffix ''-changelog'' n \<or> suffix ''-repartition'' n"

definition owned :: "snapshot \<Rightarrow> gostring \<Rightarrow> bool" where
  "owned s n \<longleftrightarrow> (\<exists>g \<in> set (Groups s). GroupID g \<noteq> '''' \<and> prefix (GroupID g) n)"

definition median_of :: "int list \<Rightarrow> int" where
  "median_of xs =
     (let ys = sort xs; n = length xs
      in if n = 0 then 0 else if odd n then ys ! (n div 2)
         else (ys ! (n div 2 - 1) + ys ! (n div 2)) div 2)"

definition dead :: "topic \<Rightarrow> bool" where
  "dead t \<longleftrightarrow> \<not> internal_name (Name t) \<and> val (BytesInPerSec t) \<le> 1 \<and>
     sint (ActiveConsumers t) \<le> 0 \<and> 2 ^ 30 \<le> sint (RetainedBytes t)"

definition zombie :: "consumerGrp \<Rightarrow> bool" where
  "zombie g \<longleftrightarrow> to_lower (trim_space (State g)) = ''empty'' \<and> 30 \<le> sint (LastCommitAgeDays g)"

definition uncompressed :: "topic \<Rightarrow> bool" where
  "uncompressed t \<longleftrightarrow> 2 ^ 20 \<le> val (BytesInPerSec t) \<and>
     CompressionType t \<in> {'''', ''none'', ''uncompressed'', ''producer''}"

definition over_replicated :: "topic \<Rightarrow> bool" where
  "over_replicated t \<longleftrightarrow> 3 \<le> sint (ReplicationFactor t) \<and> non_prod_name (Name t)"

definition skewed :: "topic \<Rightarrow> bool" where
  "skewed t \<longleftrightarrow>
     (let sizes = map sint (PartitionBytes t)
      in 3 \<le> length sizes \<and> 2 ^ 30 \<le> sint (RetainedBytes t) \<and> 0 < median_of sizes \<and>
         3 * median_of sizes < Max (set sizes))"

definition orphaned :: "snapshot \<Rightarrow> topic \<Rightarrow> bool" where
  "orphaned s t \<longleftrightarrow> internal_name (Name t) \<and> 2 ^ 28 \<le> sint (RetainedBytes t) \<and> \<not> owned s (Name t)"

definition waste :: "snapshot \<Rightarrow> (gostring \<times> gostring) set" where
  "waste s =
     {(''R1'', Name t) | t. t \<in> set (Topics s) \<and> dead t} \<union>
     {(''R2'', GroupID g) | g. g \<in> set (Groups s) \<and> zombie g} \<union>
     {(''R5'', Name t) | t. t \<in> set (Topics s) \<and> uncompressed t} \<union>
     {(''R6'', Name t) | t. t \<in> set (Topics s) \<and> over_replicated t} \<union>
     {(''R7'', Name t) | t. t \<in> set (Topics s) \<and> skewed t} \<union>
     {(''R8'', Name t) | t. t \<in> set (Topics s) \<and> orphaned s t}"

text \<open>Snapshots of a real cluster: finite rates, ASCII names, partitions below 2 PiB.\<close>

definition realistic :: "topic \<Rightarrow> bool" where
  "realistic t \<longleftrightarrow> topic_ok t \<and> ascii (Name t) \<and> int (length (PartitionBytes t)) < 2 ^ 63 \<and>
     list_all (\<lambda>b. 0 \<le> sint b \<and> sint b < 2 ^ 51) (PartitionBytes t)"

subsection \<open>The median\<close>

lemma sorted_sizes_sort: "map sint (sorted_sizes xs) = sort (map sint xs)"
  using sizes_sorted[of xs] by (intro properties_for_sort[symmetric]) simp_all

lemma half_sum:
  assumes "0 \<le> sint a" "sint a < 2 ^ 62" "0 \<le> sint b" "sint b < 2 ^ 62"
  shows "sint (go_quot (a + b) 2) = (sint a + sint b) div 2"
proof -
  have c: "(2 :: int) ^ 63 = 2 * 2 ^ 62" "(0 :: int) < 2 ^ 62" by simp_all
  have s: "sint (a + b) = sint a + sint b" by (rule sint_add_in_range) (use assms c in linarith)+
  have q: "sgn (sint a + sint b) * ((sint a + sint b) div 2) = (sint a + sint b) div 2"
    using assms by (cases "sint a + sint b = 0") (simp_all add: sgn_1_pos)
  have "go_quot (a + b) 2 = word_of_int ((sint a + sint b) div 2)"
    using assms(1,3) unfolding go_quot_def s by (simp add: q)
  moreover have "- (2 ^ 63) \<le> (sint a + sint b) div 2" "(sint a + sint b) div 2 < 2 ^ 63"
    using assms c by linarith+
  ultimately show ?thesis by (simp only: sint_eq_of_int)
qed

lemma median_correct:
  assumes "list_all (\<lambda>b. 0 \<le> sint b \<and> sint b < 2 ^ 62) xs"
  shows "sint (medianInt64 (sorted_sizes xs)) = median_of (map sint xs)"
proof -
  let ?s = "sorted_sizes xs"
  have nth: "sint (?s ! i) = sort (map sint xs) ! i" if "i < length xs" for i
    using that by (simp flip: sorted_sizes_sort)
  have range: "0 \<le> sint (?s ! i)" "sint (?s ! i) < 2 ^ 62" if "i < length xs" for i
    using assms nth_mem[of i ?s] that by (auto simp: list_all_iff)
  show ?thesis
  proof (cases "xs = [] \<or> odd (length xs)")
    case True
    show ?thesis
    proof (cases "xs = []")
      case False
      then have "length xs div 2 < length xs" by (cases xs) simp_all
      note n = nth[OF this]
      have "length xs mod 2 = 1" "xs \<noteq> []" using True False by presburger+
      then show ?thesis by (simp add: medianInt64_def median_of_def Let_def n odd_iff_mod_2_eq_one)
    qed (simp add: medianInt64_def median_of_def)
  next
    case False
    then have e: "length xs mod 2 = 0" "xs \<noteq> []" by presburger+
    then have i: "length xs div 2 - 1 < length xs" "length xs div 2 < length xs"
      by (cases xs; simp)+
    show ?thesis
      using e half_sum[OF range[OF i(1)] range[OF i(2)]]
      by (simp add: medianInt64_def median_of_def Let_def nth[OF i(1), simplified] nth[OF i(2)] even_iff_mod_2_eq_zero)
  qed
qed

lemma max_correct:
  assumes "xs \<noteq> []"
  shows "sint (sorted_sizes xs ! (length xs - 1)) = Max (set (map sint xs))"
proof -
  let ?ys = "sort (map sint xs)"
  have ne: "?ys \<noteq> []" using assms by (metis length_0_conv length_map length_sort)
  have "sint (sorted_sizes xs ! (length xs - 1)) = ?ys ! (length ?ys - 1)"
    using assms by (simp flip: sorted_sizes_sort)
  also have "\<dots> = last ?ys" by (rule last_conv_nth[OF ne, symmetric])
  also have "\<dots> = Max (set ?ys)"
  proof (rule Max_eqI[symmetric])
    fix y
    assume "y \<in> set ?ys"
    then obtain i where "i < length ?ys" "y = ?ys ! i" by (metis in_set_conv_nth)
    then show "y \<le> last ?ys"
      using sorted_nth_mono[of ?ys i "length ?ys - 1"] ne by (simp add: last_conv_nth)
  qed (use ne in \<open>simp_all add: last_in_set del: set_sort\<close>)
  finally show ?thesis by simp
qed

lemma median_le_max:
  assumes "xs \<noteq> []" "list_all (\<lambda>b. 0 \<le> sint b \<and> sint b < 2 ^ 62) xs"
  shows "sint (medianInt64 (sorted_sizes xs)) \<le> sint (sorted_sizes xs ! (length xs - 1))"
proof -
  let ?ys = "sort (map sint xs)"
  have mono: "?ys ! i \<le> ?ys ! (length xs - 1)" if "i < length xs" for i
    using that by (intro sorted_nth_mono) simp_all
  have "length xs div 2 < length xs" using assms(1) by (cases xs) simp_all
  then have a: "?ys ! (length xs div 2) \<le> ?ys ! (length xs - 1)"
    "?ys ! (length xs div 2 - 1) \<le> ?ys ! (length xs - 1)"
    by (intro mono; simp)+
  then have "median_of (map sint xs) \<le> ?ys ! (length xs - 1)"
    using assms(1) by (auto simp: median_of_def Let_def)
  also have "\<dots> = sint (sorted_sizes xs ! (length xs - 1))"
    using assms(1) by (simp flip: sorted_sizes_sort)
  finally show ?thesis by (simp add: median_correct[OF assms(2)])
qed

subsection \<open>The evaluators meet the specification\<close>

lemma isStreamsInternal_name: "isStreamsInternal n \<longleftrightarrow> internal_name n"
  by (simp add: isStreamsInternal_iff internal_name_def)

lemma default_rules:
  assumes "default_thresholds (cfg ctx)"
  shows "R1 (cfg ctx) = defaultR1" "R2 (cfg ctx) = defaultR2" "R5 (cfg ctx) = defaultR5"
    "R6 (cfg ctx) = defaultR6" "R7 (cfg ctx) = defaultR7" "R8 (cfg ctx) = defaultR8"
  using assms by (simp_all add: default_thresholds_def)

lemma r1_spec:
  assumes "default_thresholds (cfg ctx)" "realistic t"
  shows "r1_body ctx t = Emit f \<longleftrightarrow> dead t \<and> f = r1_finding ctx t"
  using assms
  by (auto simp: r1_emit default_rules defaultR1_def isStreamsInternal_name dead_def realistic_def
      topic_ok_def signed_cmp less_fin)

lemma r2_spec:
  assumes "default_thresholds (cfg ctx)"
  shows "r2_body ctx g = Emit f \<longleftrightarrow> zombie g \<and> f = r2_finding g"
proof -
  have "to_lower ''Empty'' = ''empty''" by code_simp
  then show ?thesis
    using assms by (auto simp: r2_emit default_rules defaultR2_def zombie_def equal_fold_def signed_cmp)
qed

lemma r5_spec:
  assumes "default_thresholds (cfg ctx)" "realistic t"
  shows "r5_body ctx t = Emit f \<longleftrightarrow> uncompressed t \<and> f = r5_finding ctx t"
  using assms
  by (auto simp: r5_emit default_rules defaultR5_def uncompressed_def uncompressedTypes_def realistic_def
      topic_ok_def less_fin)

lemma r6_spec:
  assumes "default_thresholds (cfg ctx)" "realistic t"
  shows "r6_body ctx t = Emit f \<longleftrightarrow> over_replicated t \<and> f = r6_finding ctx t r6_pattern"
  using assms r6_match_names[of "Name t"]
  by (auto simp: r6_emit default_rules defaultR6_def over_replicated_def realistic_def signed_cmp)

lemma r8_spec:
  assumes "default_thresholds (cfg ctx)"
  shows "r8_body ctx t = Emit f \<longleftrightarrow>
     orphaned (snap ctx) t \<and> f = r8_finding ctx t (matchSuffix (Name t) streamsInternalSuffixes)"
proof -
  have "matchSuffix (Name t) streamsInternalSuffixes \<noteq> '''' \<longleftrightarrow> internal_name (Name t)"
    using isStreamsInternal_name[of "Name t"] by (simp add: isStreamsInternal_def)
  then show ?thesis
    using assms
    by (auto simp: r8_emit default_rules defaultR8_def orphaned_def owned_def hasOwningApp_iff signed_cmp)
qed

lemma skew_exact:
  assumes "0 \<le> sint m" "sint m < 2 ^ 51" "0 \<le> sint x" "sint x < 2 ^ 51"
  shows "of_i64 x \<le> fl 3 * of_i64 m \<longleftrightarrow> sint x \<le> 3 * sint m"
proof -
  have "\<bar>3 * sint m\<bar> < 2 ^ 53" using assms by simp
  then have "rnd s (of_int (3 * sint m)) = mkz (if 3 * sint m = 0 then s else 3 * sint m < 0) (of_int (3 * sint m))" for s
    using fl_int[of "3 * sint m"] representable_int[of "3 * sint m"] rnd_representable[of "of_int (3 * sint m)" s]
      int_below_fbound[of "3 * sint m"] by simp
  moreover have "of_i64 x = Fin (of_int (sint x))" "of_i64 m = Fin (of_int (sint m))"
    using assms by (simp_all add: of_i64_exact)
  ultimately have "is_fin (fl 3 * of_i64 m)" "val (fl 3 * of_i64 m) = of_int (3 * sint m)"
    by (simp_all add: mul_fin)
  then show ?thesis
    using \<open>of_i64 x = Fin (of_int (sint x))\<close> by (simp only: le_fin is_fin.simps val.simps of_int_le_iff)
qed

lemma r7_spec:
  assumes "default_thresholds (cfg ctx)" "realistic t"
  shows "r7_body ctx t = Emit f \<longleftrightarrow>
     skewed t \<and> f = r7_finding t (sorted_sizes (PartitionBytes t)) (medianInt64 (sorted_sizes (PartitionBytes t)))
       (sorted_sizes (PartitionBytes t) ! (length (PartitionBytes t) - 1))"
proof (cases "PartitionBytes t = []")
  case True
  then show ?thesis
    using assms(1) by (auto simp: r7_body_def Let_def default_rules defaultR7_def len_def signed_cmp skewed_def)
next
  case False
  let ?xs = "PartitionBytes t" let ?m = "medianInt64 (sorted_sizes ?xs)"
  let ?x = "sorted_sizes ?xs ! (length ?xs - 1)"
  have r: "list_all (\<lambda>b. 0 \<le> sint b \<and> sint b < 2 ^ 51) ?xs" "int (length ?xs) < 2 ^ 63"
    using assms(2) by (auto simp: realistic_def)
  have "(2 :: int) ^ 51 \<le> 2 ^ 62" by simp
  then have r62: "list_all (\<lambda>b. 0 \<le> sint b \<and> sint b < 2 ^ 62) ?xs"
    using r(1) unfolding list_all_iff by (meson less_le_trans)
  have m: "sint ?m = median_of (map sint ?xs)"
    by (rule median_correct[OF r62])
  have x: "sint ?x = Max (set (map sint ?xs))" by (rule max_correct[OF False])
  have xr: "0 \<le> sint ?x" "sint ?x < 2 ^ 51"
    using r(1) nth_mem[of "length ?xs - 1" "sorted_sizes ?xs"] False by (auto simp: list_all_iff)
  have mr: "sint ?m < 2 ^ 51"
    using median_le_max[OF False r62] xr(2) by simp
  have len: "sint (len ?xs) = int (length ?xs)"
    using r(2) unfolding len_def by (intro sint_eq_of_int) linarith+
  have skew: "skewed t \<longleftrightarrow> 3 \<le> length ?xs \<and> 2 ^ 30 \<le> sint (RetainedBytes t) \<and> 0 < sint ?m \<and> 3 * sint ?m < sint ?x"
    by (simp only: skewed_def Let_def m x length_map)
  have "0 < sint ?m \<Longrightarrow> of_i64 ?x \<le> fl 3 * of_i64 ?m \<longleftrightarrow> sint ?x \<le> 3 * sint ?m"
    using skew_exact[of ?m ?x] mr xr by simp
  then show ?thesis
    using assms(1) False
    by (auto simp: r7_body_def Let_def default_rules defaultR7_def signed_cmp len skew)
qed

lemma evaluate_rule_keys:
  assumes "evaluate (hs @ [s]) cm c = Some fs" "\<lparr>rule_ident = i, staticCapable = True, rule_eval = e\<rparr> \<in> set registry"
    "Disabled c = Map.empty" "e (eval_context s cm c) = walk b xs" "\<And>x. b x \<noteq> Panic"
    "\<And>x f. x \<in> set xs \<Longrightarrow> b x = Emit f \<longleftrightarrow> P x \<and> f = g x" "\<And>x. ResourceKey (g x) = resource_key i (nm x)"
  shows "ResourceKey ` {f \<in> set fs. RuleID f = i} = {resource_key i (nm x) | x. x \<in> set xs \<and> P x}"
proof -
  obtain gs where gs: "walk b xs = Some gs" using walk_defined[of xs b] assms(5) by auto
  have "{f \<in> set fs. RuleID f = i} = set gs"
    using evaluate_rule_set[OF assms(1,2)] assms(3,4) gs by (simp add: disabled_def)
  also have "set gs = g ` {x \<in> set xs. P x}" by (rule walk_image[OF gs assms(6)])
  finally have "ResourceKey ` {f \<in> set fs. RuleID f = i} = (\<lambda>x. ResourceKey (g x)) ` {x \<in> set xs. P x}"
    by (simp only: image_image)
  then show ?thesis unfolding assms(7) by auto
qed

lemma waste_split:
  assumes "\<forall>f \<in> set fs. RuleID f \<in> set [''R1'', ''R2'', ''R3'', ''R4'', ''R5'', ''R6'', ''R7'', ''R8'']"
  shows "{f \<in> set fs. RuleID f \<noteq> ''R3'' \<and> RuleID f \<noteq> ''R4''} =
     {f \<in> set fs. RuleID f = ''R1''} \<union> {f \<in> set fs. RuleID f = ''R2''} \<union> {f \<in> set fs. RuleID f = ''R5''} \<union>
     {f \<in> set fs. RuleID f = ''R6''} \<union> {f \<in> set fs. RuleID f = ''R7''} \<union> {f \<in> set fs. RuleID f = ''R8''}"
  using assms by auto

definition keys_of :: "(gostring \<times> gostring) set \<Rightarrow> gostring set" where
  "keys_of w = (\<lambda>(r, n). r @ '':'' @ n) ` w"

lemma keys_of_Un: "keys_of (A \<union> B) = keys_of A \<union> keys_of B"
  by (auto simp: keys_of_def)

lemma keys_of_Collect: "keys_of {(r, nm x) | x. P x} = {resource_key r (nm x) | x. P x}"
  by (auto simp: keys_of_def resource_key_def)

text \<open>C1: The engine implements the specification: on the snapshot of a real cluster, with the
  default thresholds and no rule disabled, the resources the rules R1, R2, R5, R6, R7 and R8
  report are exactly the dead, zombie, uncompressed, over-replicated, skewed and orphaned ones
  of the snapshot; none is missed and none is reported without cause.\<close>

theorem evaluate_meets_spec:
  assumes ev: "evaluate (hs @ [s]) cm c = Some fs"
    and dt: "default_thresholds c" and en: "Disabled c = Map.empty"
    and re: "list_all realistic (Topics s)"
  shows "ResourceKey ` {f \<in> set fs. RuleID f \<noteq> ''R3'' \<and> RuleID f \<noteq> ''R4''} = keys_of (waste s)"
proof -
  let ?ctx = "eval_context s cm c"
  have dtc: "default_thresholds (cfg ?ctx)" using dt by simp
  have rt: "t \<in> set (Topics s) \<Longrightarrow> realistic t" for t using re by (simp add: list_all_iff)
  note keys = evaluate_rule_keys[OF ev _ en]
  note panics = r1.rule_no_panic[OF dtc] r2.rule_no_panic[OF dtc] r5.rule_no_panic[OF dtc]
    r6.rule_no_panic[OF dtc] r7.rule_no_panic[OF dtc] r8.rule_no_panic[OF dtc]
  have "ResourceKey ` {f \<in> set fs. RuleID f = ''R1''} = {resource_key ''R1'' (Name t) | t. t \<in> set (Topics s) \<and> dead t}"
    by (rule keys[where e = evalR1 and g = "r1_finding ?ctx", OF _ _ panics(1) r1_spec[OF dtc rt]])
      (simp_all add: registry_def evalR1_def finding_shape)
  moreover have "ResourceKey ` {f \<in> set fs. RuleID f = ''R2''} = {resource_key ''R2'' (GroupID g) | g. g \<in> set (Groups s) \<and> zombie g}"
    by (rule keys[where e = evalR2 and g = r2_finding, OF _ _ panics(2) r2_spec[OF dtc]])
      (simp_all add: registry_def evalR2_def finding_shape)
  moreover have "ResourceKey ` {f \<in> set fs. RuleID f = ''R5''} = {resource_key ''R5'' (Name t) | t. t \<in> set (Topics s) \<and> uncompressed t}"
    by (rule keys[where e = evalR5 and g = "r5_finding ?ctx", OF _ _ panics(3) r5_spec[OF dtc rt]])
      (simp_all add: registry_def evalR5_def finding_shape)
  moreover have "ResourceKey ` {f \<in> set fs. RuleID f = ''R6''} = {resource_key ''R6'' (Name t) | t. t \<in> set (Topics s) \<and> over_replicated t}"
    by (rule keys[where e = evalR6 and g = "\<lambda>t. r6_finding ?ctx t r6_pattern", OF _ _ panics(4) r6_spec[OF dtc rt]])
      (simp_all add: registry_def evalR6_def finding_shape)
  moreover have "ResourceKey ` {f \<in> set fs. RuleID f = ''R7''} = {resource_key ''R7'' (Name t) | t. t \<in> set (Topics s) \<and> skewed t}"
    by (rule keys[where e = evalR7, OF _ _ panics(5) r7_spec[OF dtc rt]])
      (simp_all add: registry_def evalR7_def finding_shape)
  moreover have "ResourceKey ` {f \<in> set fs. RuleID f = ''R8''} = {resource_key ''R8'' (Name t) | t. t \<in> set (Topics s) \<and> orphaned s t}"
    by (rule keys[where e = evalR8, OF _ _ panics(6) r8_spec[OF dtc, unfolded eval_context_simps]])
      (simp_all add: registry_def evalR8_def finding_shape)
  ultimately show ?thesis
    unfolding waste_split[OF evaluate_idents[OF ev]] waste_def keys_of_Un keys_of_Collect image_Un by (simp only:)
qed

lemma demo_realistic: "list_all realistic (Topics sample_snapshot)"
proof -
  have "ascii ''events.raw''" "ascii ''clicks''" "ascii ''legacy.dump''" "ascii ''dev.orders''" "ascii ''metrics.fine''"
    by code_simp+
  then show ?thesis using demo_topics_ok by (simp add: realistic_def)
qed

theorem evaluate_meets_spec_witness:
  "ResourceKey ` {f \<in> set demo_findings. RuleID f \<noteq> ''R3'' \<and> RuleID f \<noteq> ''R4''} = keys_of (waste sample_snapshot)"
  using evaluate_meets_spec[of "[]" sample_snapshot demo_model "defaultConfig zero_time"] demo_evaluate demo_realistic
  by simp

end
