(* ===== verification/RelErr.thy ===== *)
theory RelErr
  imports Float64
begin

text \<open>
  A calculus of relative errors. \<open>near k x y\<close>: the computed \<open>x\<close> is the exact, nonnegative
  \<open>y\<close> up to \<open>k\<close> roundings, each within a factor \<open>1 + 2 ^ -52\<close> of its argument. Products,
  quotients and sums of near values are near, and \<open>fnear\<close> carries this over to \<open>f64\<close> as long
  as the exact values stay clear of underflow and overflow.
\<close>

subsection \<open>Factors\<close>

definition rho :: rat where
  "rho = 1 + pow2 (- 52)"

lemma rho_ge [simp]: "1 \<le> rho" "0 < rho" "0 \<le> rho"
  using pow2_pos[of "- 52"] by (simp_all add: rho_def add_pos_pos less_imp_le)

lemma rho_pow_ge [simp]: "1 \<le> rho ^ k" "0 < rho ^ k"
  by (simp_all add: one_le_power)

lemma rho_pow_le:
  assumes "k \<le> 2 ^ 50"
  shows "rho ^ k \<le> 1 + of_nat k * pow2 (- 51)"
proof -
  let ?x = "pow2 (- 52)"
  have x: "0 < ?x" "?x \<le> 1" using pow2_mono[of "- 52" 0] by simp_all
  have "rat_of_nat k \<le> of_nat (2 ^ 50)" using assms by (simp only: of_nat_le_iff)
  then have "of_nat k * ?x \<le> of_nat (2 ^ 50) * ?x" using x by (intro mult_right_mono) auto
  also have "\<dots> = 1 / 4" by (simp add: pow2_def)
  finally have kx: "of_nat k * ?x \<le> 1 / 4" .
  have "1 + of_nat k * (- ?x) \<le> (1 + - ?x) ^ k" using x by (intro Bernoulli_inequality) simp
  then have b: "1 - of_nat k * ?x \<le> (1 - ?x) ^ k" by simp
  have "rho ^ k * (1 - ?x) ^ k = (1 - ?x * ?x) ^ k"
    unfolding rho_def power_mult_distrib[symmetric] by (simp add: algebra_simps)
  also have "\<dots> \<le> 1" using x mult_le_one[of ?x ?x] by (intro power_le_one) auto
  finally have r: "rho ^ k * (1 - ?x) ^ k \<le> 1" .
  have "rho ^ k * (1 - of_nat k * ?x) \<le> 1" using order_trans[OF mult_left_mono[OF b, of "rho ^ k"] r] by simp
  also have "\<dots> \<le> (1 + 2 * (of_nat k * ?x)) * (1 - of_nat k * ?x)"
  proof -
    have "0 \<le> of_nat k * ?x * (1 - 2 * (of_nat k * ?x))" using kx x by (intro mult_nonneg_nonneg) auto
    then show ?thesis by (simp add: algebra_simps)
  qed
  finally have "rho ^ k \<le> 1 + 2 * (of_nat k * ?x)" using kx by (auto elim: mult_right_le_imp_le)
  also have "2 * (of_nat k * ?x) = of_nat k * pow2 (- 51)" using pow2_Suc[of "- 52"] by simp
  finally show ?thesis .
qed

lemma rho_pow_le_2: "k \<le> 2 ^ 50 \<Longrightarrow> rho ^ k \<le> 2"
proof -
  assume k: "k \<le> 2 ^ 50"
  then have "rat_of_nat k \<le> of_nat (2 ^ 50)" by (simp only: of_nat_le_iff)
  then have "of_nat k * pow2 (- 51) \<le> of_nat (2 ^ 50) * pow2 (- 51)" by (intro mult_right_mono) auto
  also have "\<dots> \<le> 1" by (simp add: pow2_def)
  finally show ?thesis using rho_pow_le[OF k] by linarith
qed

subsection \<open>Near values\<close>

definition near :: "nat \<Rightarrow> rat \<Rightarrow> rat \<Rightarrow> bool" where
  "near k x y \<longleftrightarrow> 0 \<le> y \<and> y \<le> x * rho ^ k \<and> x \<le> y * rho ^ k"

lemma near_refl: "0 \<le> y \<Longrightarrow> near 0 y y"
  by (simp add: near_def)

lemma nearD:
  assumes "near k x y"
  shows "0 \<le> y" "0 \<le> x" "y \<le> x * rho ^ k" "x \<le> y * rho ^ k"
proof -
  show "0 \<le> y" "y \<le> x * rho ^ k" "x \<le> y * rho ^ k" using assms by (simp_all add: near_def)
  then have "0 \<le> x * rho ^ k" by linarith
  then show "0 \<le> x" using rho_pow_ge(2)[of k] by (simp add: zero_le_mult_iff not_le)
qed

lemma near_mono:
  assumes "near j x y" "j \<le> k"
  shows "near k x y"
proof -
  note d = nearD[OF assms(1)]
  have "rho ^ j \<le> rho ^ k" using assms(2) by (simp add: power_increasing)
  then have "x * rho ^ j \<le> x * rho ^ k" "y * rho ^ j \<le> y * rho ^ k"
    using d(1,2) by (simp_all add: mult_left_mono)
  then show ?thesis using d by (simp add: near_def)
qed

lemma near_zero_iff [simp]: "near k x 0 \<longleftrightarrow> x = 0"
proof
  assume "near k x 0"
  from nearD[OF this] show "x = 0" by simp
qed (simp add: near_def)

lemma near_pos: "near k x y \<Longrightarrow> 0 < y \<Longrightarrow> 0 < x"
  using nearD[of k x y] by (cases "x = 0") auto

lemma near_mult:
  assumes "near j x y" "near k x' y'"
  shows "near (j + k) (x * x') (y * y')"
proof -
  note a = nearD[OF assms(1)] and b = nearD[OF assms(2)]
  have "y * y' \<le> (x * rho ^ j) * (x' * rho ^ k)" using a b by (intro mult_mono) auto
  moreover have "x * x' \<le> (y * rho ^ j) * (y' * rho ^ k)" using a b by (intro mult_mono) auto
  ultimately show ?thesis using a(1) b(1) by (simp add: near_def power_add mult_ac)
qed

lemma near_inverse:
  assumes "near k x y" "0 < y"
  shows "near k (1 / x) (1 / y)"
proof -
  note d = nearD[OF assms(1)]
  have x: "0 < x" by (rule near_pos[OF assms])
  have "1 / x \<le> rho ^ k / y" using d x assms(2) by (simp add: field_simps)
  moreover have "1 / y \<le> rho ^ k / x" using d x assms(2) by (simp add: field_simps)
  ultimately show ?thesis using assms(2) by (simp add: near_def)
qed

lemma near_div: "near j x y \<Longrightarrow> near k x' y' \<Longrightarrow> 0 < y' \<Longrightarrow> near (j + k) (x / x') (y / y')"
  using near_mult[OF _ near_inverse] by fastforce

lemma near_add: "near k x y \<Longrightarrow> near k x' y' \<Longrightarrow> near k (x + x') (y + y')"
  by (simp add: near_def distrib_right)

lemma near_sum_list:
  "(\<And>i. i \<in> set xs \<Longrightarrow> near k (f i) (g i)) \<Longrightarrow> near k (\<Sum>i\<leftarrow>xs. f i) (\<Sum>i\<leftarrow>xs. g i)"
  by (induction xs) (simp_all add: near_add)

lemma near_rne:
  assumes "near k x y" "x = 0 \<or> pow2 (- 1022) \<le> x"
  shows "near (Suc k) (rne x) y"
proof (cases "x = 0")
  case True
  then show ?thesis using near_mono[OF assms(1), of "Suc k"] by simp
next
  case False
  then have x: "pow2 (- 1022) \<le> x" "0 \<le> x" using assms(2) nearD(2)[OF assms(1)] by auto
  then have e: "\<bar>rne x - x\<bar> \<le> x * pow2 (- 53)" using rne_rel_err[of x] by simp
  let ?u = "pow2 (- 53)"
  have u: "pow2 (- 52) = 2 * ?u" "0 < ?u" "?u \<le> 1 / 2"
    using pow2_Suc[of "- 53"] pow2_mono[of "- 53" "- 1"] by (simp_all add: pow2_def)
  have up: "rne x \<le> x * rho"
  proof -
    have "x * ?u \<le> x * (2 * ?u)" using x(2) u(2) by (intro mult_left_mono) auto
    moreover have "rne x \<le> x + x * ?u" using e by linarith
    ultimately show ?thesis by (simp add: rho_def u(1) distrib_left)
  qed
  have "x * (1 - ?u) \<le> rne x" using e by (simp add: algebra_simps)
  then have "x * (1 - ?u) * rho \<le> rne x * rho" by (rule mult_right_mono) simp
  moreover have "x \<le> x * (1 - ?u) * rho"
  proof -
    have "0 \<le> ?u * (1 - 2 * ?u)" using u by (intro mult_nonneg_nonneg) auto
    then have "1 \<le> (1 - ?u) * rho" by (simp add: rho_def u(1) algebra_simps)
    then show ?thesis using mult_left_mono[of 1 "(1 - ?u) * rho" x] x(2) by (simp add: mult.assoc)
  qed
  ultimately have lo: "x \<le> rne x * rho" by linarith
  note d = nearD[OF assms(1)]
  have "rne x \<le> y * rho ^ k * rho" using order_trans[OF up mult_right_mono[OF d(4), of rho]] by simp
  moreover have "y \<le> rne x * rho * rho ^ k" using order_trans[OF d(3) mult_right_mono[OF lo, of "rho ^ k"]] by simp
  ultimately show ?thesis using d(1) by (simp add: near_def mult_ac)
qed

lemma near_error:
  assumes "near k x y" "k \<le> 2 ^ 50"
  shows "\<bar>x - y\<bar> \<le> y * (of_nat k * pow2 (- 50))"
proof -
  note d = nearD[OF assms(1)]
  let ?e = "of_nat k * pow2 (- 51)"
  have e0: "0 \<le> ?e" by simp
  note r = rho_pow_le[OF assms(2)]
  have up: "x \<le> y * (1 + ?e)" using d(4) mult_left_mono[OF r d(1)] by linarith
  have "y \<le> x * (1 + ?e)" using d(3) mult_left_mono[OF r d(2)] by linarith
  then have "y - x \<le> x * ?e" by (simp add: algebra_simps)
  also have "x * ?e \<le> (2 * y) * ?e"
  proof -
    have "x \<le> y * 2" using d(4) mult_left_mono[OF rho_pow_le_2[OF assms(2)] d(1)] by linarith
    then show ?thesis using e0 by (intro mult_right_mono) auto
  qed
  finally have "y - x \<le> y * (2 * ?e)" by (simp add: mult_ac)
  moreover have "x - y \<le> y * (2 * ?e)"
    using up mult_nonneg_nonneg[OF d(1) e0] by (simp add: algebra_simps)
  ultimately show ?thesis using pow2_Suc[of "- 51"] by (simp add: abs_le_iff algebra_simps)
qed

subsection \<open>Floating point\<close>

definition low :: "rat \<Rightarrow> bool" where
  "low y \<longleftrightarrow> y = 0 \<or> pow2 (- 1000) \<le> y"

definition fnear :: "nat \<Rightarrow> f64 \<Rightarrow> rat \<Rightarrow> bool" where
  "fnear k a y \<longleftrightarrow> is_fin a \<and> near k (val a) y"

lemma low_simps [simp]: "low 0" "low 1"
  using pow2_mono[of "- 1000" 0] by (simp_all add: low_def)

lemma low_add: "low x \<Longrightarrow> low y \<Longrightarrow> low (x + y)"
  using pow2_pos[of "- 1000"] by (auto simp: low_def simp del: pow2_pos)

lemma low_nonneg: "low y \<Longrightarrow> 0 \<le> y"
  using pow2_pos[of "- 1000"] by (auto simp: low_def simp del: pow2_pos)

lemma lowI: "y \<noteq> 0 \<Longrightarrow> pow2 e \<le> y \<Longrightarrow> - 1000 \<le> e \<Longrightarrow> low y"
  using pow2_mono[of "- 1000" e] by (auto simp: low_def)

lemma fnearD: "fnear k a y \<Longrightarrow> is_fin a" "fnear k a y \<Longrightarrow> near k (val a) y"
  by (simp_all add: fnear_def)

lemma fnear_mono: "fnear j a y \<Longrightarrow> j \<le> k \<Longrightarrow> fnear k a y"
  by (auto simp: fnear_def intro: near_mono)

lemma fnear_exact: "is_fin a \<Longrightarrow> 0 \<le> val a \<Longrightarrow> fnear k a (val a)"
  using near_mono[OF near_refl[of "val a"]] by (simp add: fnear_def)

lemma fnear_rnd:
  assumes "near k q y" "k \<le> 2 ^ 50" "low y" "y \<le> pow2 1000"
  shows "fnear (Suc k) (rnd s q) y"
proof (cases "y = 0")
  case True
  then have "q = 0" using assms(1) by simp
  with True show ?thesis by (simp add: fnear_def rnd_def not_le)
next
  case False
  note d = nearD[OF assms(1)] and r = rho_pow_le_2[OF assms(2)]
  have "y \<le> q * 2" using d(3) mult_left_mono[OF r d(2)] by linarith
  moreover have "pow2 (- 1000) = 2 * pow2 (- 1001)" using pow2_Suc[of "- 1001"] by simp
  ultimately have "pow2 (- 1001) \<le> q" using False assms(3) by (auto simp: low_def)
  then have lo: "pow2 (- 1022) \<le> q" using pow2_mono[of "- 1022" "- 1001"] by simp
  have "q \<le> y * 2" using d(4) mult_left_mono[OF r d(1)] by linarith
  then have "q \<le> pow2 1001" using assms(4) pow2_Suc[of 1000] by simp
  then have "\<bar>q\<bar> \<le> pow2 1023" using d(2) pow2_mono[of 1001 1023] by simp
  then have "is_fin (rnd s q)" by (rule rnd_fin_small)
  then show ?thesis using near_rne[OF assms(1)] lo by (simp add: fnear_def rnd_val)
qed

lemma fnear_mul:
  assumes "fnear j a y" "fnear k b z" "j + k \<le> 2 ^ 50" "low (y * z)" "y * z \<le> pow2 1000"
  shows "fnear (Suc (j + k)) (a * b) (y * z)"
  using fnear_rnd[OF near_mult[OF fnearD(2)[OF assms(1)] fnearD(2)[OF assms(2)]] assms(3-5)]
    fnearD(1)[OF assms(1)] fnearD(1)[OF assms(2)] by (simp add: mul_fin)

lemma fnear_div:
  assumes "fnear j a y" "fnear k b z" "j + k \<le> 2 ^ 50" "0 < z" "low (y / z)" "y / z \<le> pow2 1000"
  shows "fnear (Suc (j + k)) (a / b) (y / z)"
proof -
  have "val b \<noteq> 0" using near_pos[OF fnearD(2)[OF assms(2)] assms(4)] by simp
  then show ?thesis
    using fnear_rnd[OF near_div[OF fnearD(2)[OF assms(1)] fnearD(2)[OF assms(2)] assms(4)] assms(3,5,6)]
      fnearD(1)[OF assms(1)] fnearD(1)[OF assms(2)] by (simp add: div_fin)
qed

lemma fnear_add:
  assumes "fnear k a y" "fnear k b z" "k \<le> 2 ^ 50" "low y" "low z" "y + z \<le> pow2 1000"
  shows "fnear (Suc k) (a + b) (y + z)"
  using fnear_rnd[OF near_add[OF fnearD(2)[OF assms(1)] fnearD(2)[OF assms(2)]] assms(3)
      low_add[OF assms(4,5)] assms(6)]
    fnearD(1)[OF assms(1)] fnearD(1)[OF assms(2)] by (simp add: add_fin)

lemma fnear_pos_iff: "fnear k a y \<Longrightarrow> 0 < a \<longleftrightarrow> 0 < y"
  using near_pos[of k "val a" y] nearD(1)[of k "val a" y] by (cases "y = 0") (auto simp: fnear_def zero_less_iff)

lemma low_int: "0 \<le> n \<Longrightarrow> low (of_int n)"
  using pow2_mono[of "- 1000" 0] by (cases "n = 0") (auto simp: low_def)

lemma fnear_of_i64:
  assumes "0 \<le> sint w"
  shows "fnear 1 (of_i64 w) (of_int (sint w))"
proof -
  have "rat_of_int (sint w) \<le> of_int (2 ^ 63)" using sint_range(2)[of w] unfolding of_int_le_iff by linarith
  also have "\<dots> \<le> pow2 1000" using pow2_mono[of 63 1000] by (simp add: pow2_def[of 63])
  finally have "rat_of_int (sint w) \<le> pow2 1000" .
  then show ?thesis
    using fnear_rnd[OF near_refl[of "of_int (sint w)"] _ low_int[OF assms]] assms
    by (simp add: of_i64_def fl_def)
qed

text \<open>A running sum.\<close>

lemma fnear_fold:
  assumes "fnear k a y" "low y" "1 \<le> k" "k + length xs \<le> 2 ^ 50"
    and "\<And>i. i \<in> set xs \<Longrightarrow> fnear 1 (f i) (g i)" "\<And>i. i \<in> set xs \<Longrightarrow> low (g i)"
    and "y + (\<Sum>i\<leftarrow>xs. g i) \<le> pow2 1000"
  shows "fnear (k + length xs) (fold (\<lambda>i acc. acc + f i) xs a) (y + (\<Sum>i\<leftarrow>xs. g i))"
  using assms
proof (induction xs arbitrary: k a y)
  case (Cons i xs)
  have nn: "0 \<le> (\<Sum>i\<leftarrow>xs. g i)"
    using Cons.prems(6) low_nonneg by (intro sum_list_nonneg) auto
  have i: "fnear k (f i) (g i)" using Cons.prems(3) fnear_mono[OF Cons.prems(5)[of i]] by simp
  have "fnear (Suc k) (a + f i) (y + g i)"
    using Cons.prems(4,7) nn by (intro fnear_add[OF Cons.prems(1) i _ Cons.prems(2) Cons.prems(6)]) auto
  from Cons.IH[OF this low_add[OF Cons.prems(2) Cons.prems(6)[of i]]] Cons.prems
  show ?case by (simp add: add.assoc)
qed simp

end
