(* ===== verification/CostProps.thy ===== *)
theory CostProps
  imports Cost RelErr
begin

text \<open>
  The properties of package \<open>cost\<close>: how a unit price is labelled, that a derived price
  accounts for the storage share of the bill, and that the allocation to topics is accurate
  and accounts for the whole bill, up to the rounding of the \<open>float64\<close> arithmetic.
\<close>

subsection \<open>Honest labels\<close>

text \<open>A storage price is labelled by where it comes from: \<open>configured\<close> exactly when an
  override is given, and then it is the override; \<open>derived\<close> exactly when there is none but a
  monthly cost and retained bytes; \<open>assumed\<close> exactly when neither, and then it is the preset of
  the provider. The network price is \<open>configured\<close> or \<open>assumed\<close> in the same way.\<close>

theorem resolve_labels:
  "(prefix ''configured'' (StorageBasis (resolve m n)) \<longleftrightarrow> 0 < cm_StorageEURPerGBMo m) \<and>
   (prefix ''derived: '' (StorageBasis (resolve m n)) \<longleftrightarrow>
      \<not> 0 < cm_StorageEURPerGBMo m \<and> 0 < cm_MonthlyCostEUR m \<and> 0 < sint n) \<and>
   (prefix ''assumed: '' (StorageBasis (resolve m n)) \<longleftrightarrow>
      \<not> 0 < cm_StorageEURPerGBMo m \<and> \<not> (0 < cm_MonthlyCostEUR m \<and> 0 < sint n)) \<and>
   (prefix ''configured'' (NetworkBasis (resolve m n)) \<longleftrightarrow> 0 < cm_NetworkEURPerGB m) \<and>
   (prefix ''assumed: '' (NetworkBasis (resolve m n)) \<longleftrightarrow> \<not> 0 < cm_NetworkEURPerGB m) \<and>
   StorageEURPerGBMo (resolve m n) =
     (if 0 < cm_StorageEURPerGBMo m then cm_StorageEURPerGBMo m
      else if 0 < cm_MonthlyCostEUR m \<and> 0 < sint n
      then cm_MonthlyCostEUR m * Storage (effective_weights m) / (of_i64 n / fl 1000000000)
      else fst (providerPreset (cm_Provider m))) \<and>
   NetworkEURPerGB (resolve m n) =
     (if 0 < cm_NetworkEURPerGB m then cm_NetworkEURPerGB m else snd (providerPreset (cm_Provider m)))"
  by (simp add: resolve_def Let_def signed_cmp bytesPerGB_def split: prod.splits)

subsection \<open>Accurate allocation\<close>

text \<open>The exact counterparts of the three drivers and of a topic's share.\<close>

definition x_bytes :: "topicCostInput \<Rightarrow> rat" where
  "x_bytes t = of_int (sint (in_RetainedBytes t))"

definition x_rate :: "topicCostInput \<Rightarrow> rat" where
  "x_rate t = val (in_BytesInPerSec t) + val (in_BytesOutPerSec t)"

definition x_parts :: "topicCostInput \<Rightarrow> rat" where
  "x_parts t = of_int (sint (in_Partitions t))"

definition part_of :: "(topicCostInput \<Rightarrow> rat) \<Rightarrow> topicCostInput list \<Rightarrow> topicCostInput \<Rightarrow> rat" where
  "part_of x ts t = (if 0 < (\<Sum>u\<leftarrow>ts. x u) then x t / (\<Sum>u\<leftarrow>ts. x u) else 0)"

definition exact_share :: "topicCostInput list \<Rightarrow> topicCostInput \<Rightarrow> rat" where
  "exact_share ts t = 2 / 5 * part_of x_bytes ts t + 2 / 5 * part_of x_rate ts t + 1 / 5 * part_of x_parts ts t"

text \<open>The part of the bill that has a driver to be allocated by.\<close>

definition covered :: "topicCostInput list \<Rightarrow> rat" where
  "covered ts =
     (if 0 < (\<Sum>u\<leftarrow>ts. x_bytes u) then 2 / 5 else 0) + (if 0 < (\<Sum>u\<leftarrow>ts. x_rate u) then 2 / 5 else 0) +
     (if 0 < (\<Sum>u\<leftarrow>ts. x_parts u) then 1 / 5 else 0)"

definition input_ok :: "topicCostInput \<Rightarrow> bool" where
  "input_ok t \<longleftrightarrow> 0 \<le> sint (in_RetainedBytes t) \<and> 0 \<le> sint (in_Partitions t) \<and>
     is_fin (in_BytesInPerSec t) \<and> is_fin (in_BytesOutPerSec t) \<and>
     (x_rate t = 0 \<or> pow2 (- 200) \<le> x_rate t \<and> x_rate t \<le> pow2 200)"

lemma part_of_sum: "(\<Sum>t\<leftarrow>ts. part_of x ts t) = (if 0 < (\<Sum>u\<leftarrow>ts. x u) then 1 else 0)"
  by (simp add: part_of_def sum_list_div)

lemma exact_share_sum: "(\<Sum>t\<leftarrow>ts. exact_share ts t) = covered ts"
  unfolding exact_share_def covered_def
  unfolding sum_list_addf sum_list_const_mult part_of_sum by simp

text \<open>One summand of a topic's share.\<close>

lemma share_term:
  assumes x: "fnear 1 x X" "X = 0 \<or> pow2 (- 400) \<le> X" "X \<le> T"
    and t: "fnear j tot T" "T \<le> pow2 400" and w: "fnear 1 w W" "1 / 8 \<le> W" "W \<le> 1"
    and s: "fnear k s S" "low S" "S \<le> 1" and k: "j + 4 \<le> k" "k \<le> 2 ^ 40"
  shows "fnear (Suc k) (if 0 < T then s + w * (x / tot) else s) (S + W * (if 0 < T then X / T else 0)) \<and>
         low (S + W * (if 0 < T then X / T else 0))"
proof (cases "0 < T")
  case True
  have X0: "0 \<le> X" using nearD(1)[OF fnearD(2)[OF x(1)]] .
  have one: "(1 :: rat) \<le> pow2 1000" "(2 :: rat) \<le> pow2 1000"
    using pow2_mono[of 0 1000] pow2_mono[of 1 1000] by (simp_all add: pow2_def[of 1])
  have q: "0 \<le> X / T" "X / T \<le> 1" using X0 x(3) True by simp_all
  have lq: "X = 0 \<or> pow2 (- 800) \<le> X / T"
  proof (cases "X = 0")
    case False
    then have "pow2 (- 400) / pow2 400 \<le> X / T"
      using x(2) t(2) True X0 by (intro frac_le) auto
    then show ?thesis by (simp flip: pow2_diff)
  qed simp
  then have l: "low (X / T)" using lowI[of "X / T" "- 800"] True by (cases "X = 0") auto
  have r: "fnear (Suc (1 + j)) (x / tot) (X / T)"
    using k q(2) one(1) by (intro fnear_div[OF x(1) t(1) _ True l]) auto
  have wq: "W * (X / T) \<le> 1" using mult_mono[of W 1 "X / T" 1] w q by simp
  have lw: "low (W * (X / T))"
  proof (cases "X = 0")
    case False
    have "pow2 (- 3) * pow2 (- 800) \<le> W * (X / T)"
      using w(2) lq False q by (intro mult_mono) (auto simp: pow2_def[of "- 3"])
    then have "pow2 (- 803) \<le> W * (X / T)" by (simp flip: pow2_add)
    then show ?thesis using pow2_pos[of "- 803"] by (intro lowI[of _ "- 803"]) (auto simp del: pow2_pos)
  qed simp
  have p: "fnear (Suc (1 + Suc (1 + j))) (w * (x / tot)) (W * (X / T))"
    using k wq one by (intro fnear_mul[OF w(1) r _ lw]) auto
  have "fnear (Suc k) (s + w * (x / tot)) (S + W * (X / T))"
    using k wq s(3) one by (intro fnear_add[OF s(1) fnear_mono[OF p] _ s(2) lw]) auto
  then show ?thesis using True low_add[OF s(2) lw] by simp
next
  case False
  then show ?thesis using s(2) fnear_mono[OF s(1), of "Suc k"] by simp
qed

subsection \<open>Totals\<close>

lemma alloc_totals_eq:
  "alloc_totals ts =
     (fold (\<lambda>t acc. acc + of_i64 (in_RetainedBytes t)) ts 0,
      fold (\<lambda>t acc. acc + (in_BytesInPerSec t + in_BytesOutPerSec t)) ts 0,
      fold (\<lambda>t acc. acc + in_Partitions t) ts 0)"
proof -
  have "fold (\<lambda>t (b, r, p). (b + of_i64 (in_RetainedBytes t),
          r + (in_BytesInPerSec t + in_BytesOutPerSec t), p + in_Partitions t)) ts (b, r, p) =
      (fold (\<lambda>t acc. acc + of_i64 (in_RetainedBytes t)) ts b,
       fold (\<lambda>t acc. acc + (in_BytesInPerSec t + in_BytesOutPerSec t)) ts r,
       fold (\<lambda>t acc. acc + in_Partitions t) ts p)" for b r p
    by (induction ts arbitrary: b r p) auto
  then show ?thesis by (simp add: alloc_totals_def)
qed

lemma total_parts:
  assumes "\<forall>t \<in> set ts. 0 \<le> sint (in_Partitions t)" "0 \<le> sint a"
    "sint a + (\<Sum>t\<leftarrow>ts. sint (in_Partitions t)) < 2 ^ 63"
  shows "sint (fold (\<lambda>t acc. acc + in_Partitions t) ts a) = sint a + (\<Sum>t\<leftarrow>ts. sint (in_Partitions t))"
  using assms
proof (induction ts arbitrary: a)
  case (Cons t ts)
  have nn: "0 \<le> (\<Sum>t\<leftarrow>ts. sint (in_Partitions t))" using Cons.prems(1) by (intro sum_list_nonneg) auto
  have p: "0 \<le> sint (in_Partitions t)" using Cons.prems(1) by simp
  have s: "sint (a + in_Partitions t) = sint a + sint (in_Partitions t)"
    by (rule sint_add_in_range) (use Cons.prems nn p in simp_all)
  show ?case using Cons.IH[of "a + in_Partitions t"] Cons.prems nn p s by simp
qed simp

lemma sum_list_member_le:
  assumes "\<forall>t \<in> set ts. 0 \<le> x t" "t \<in> set ts"
  shows "x t \<le> (\<Sum>u\<leftarrow>ts. x u :: rat)"
  using assms
proof (induction ts)
  case (Cons u ts)
  have "0 \<le> (\<Sum>u\<leftarrow>ts. x u)" using Cons.prems(1) by (intro sum_list_nonneg) auto
  moreover have "0 \<le> x u" using Cons.prems(1) by simp
  ultimately show ?case using Cons by (auto simp: add_increasing)
qed simp

lemma sum_list_le_bound:
  assumes "\<forall>t \<in> set ts. x t \<le> b" "length ts \<le> 2 ^ 20" "0 \<le> b"
  shows "(\<Sum>u\<leftarrow>ts. x u :: rat) \<le> pow2 20 * b"
proof -
  have "(\<Sum>u\<leftarrow>ts. x u) \<le> of_nat (length ts) * b"
    using assms(1) by (induction ts) (auto simp: algebra_simps)
  also have "\<dots> \<le> of_nat (2 ^ 20) * b" using assms(2,3) by (intro mult_right_mono) (simp_all only: of_nat_le_iff)
  finally show ?thesis by (simp add: pow2_def)
qed

text \<open>The float totals are near the exact ones.\<close>

lemma total_near:
  assumes "\<forall>t \<in> set ts. fnear 1 (f t) (x t) \<and> (x t = 0 \<or> pow2 (- 400) \<le> x t) \<and> x t \<le> pow2 300"
    and "length ts \<le> 2 ^ 20"
  shows "fnear (Suc (length ts)) (fold (\<lambda>t acc. acc + f t) ts 0) (\<Sum>t\<leftarrow>ts. x t)"
    "(\<Sum>t\<leftarrow>ts. x t) \<le> pow2 400" "\<forall>t \<in> set ts. 0 \<le> x t"
proof -
  show nn: "\<forall>t \<in> set ts. 0 \<le> x t" using assms(1) nearD(1)[OF fnearD(2)] by blast
  have "(\<Sum>t\<leftarrow>ts. x t) \<le> pow2 20 * pow2 300" using assms by (intro sum_list_le_bound) auto
  also have "\<dots> \<le> pow2 400" using pow2_mono[of 320 400] by (simp flip: pow2_add)
  finally show b: "(\<Sum>t\<leftarrow>ts. x t) \<le> pow2 400" .
  have l: "low (x t)" if "t \<in> set ts" for t
    using assms(1) that lowI[of "x t" "- 400"] by (cases "x t = 0") auto
  have "fnear (1 + length ts) (fold (\<lambda>t acc. acc + f t) ts 0) (0 + (\<Sum>t\<leftarrow>ts. x t))"
    using assms b l pow2_mono[of 400 1000]
    by (intro fnear_fold) (auto simp: fnear_def)
  then show "fnear (Suc (length ts)) (fold (\<lambda>t acc. acc + f t) ts 0) (\<Sum>t\<leftarrow>ts. x t)" by simp
qed

lemma rate_near:
  assumes "input_ok t"
  shows "fnear 1 (in_BytesInPerSec t + in_BytesOutPerSec t) (x_rate t)"
proof -
  have "0 \<le> x_rate t" using assms pow2_pos[of "- 200"] by (auto simp: input_ok_def simp del: pow2_pos)
  moreover have "low (x_rate t)" using assms lowI[of "x_rate t" "- 200"] by (cases "x_rate t = 0") (auto simp: input_ok_def)
  moreover have "x_rate t \<le> pow2 1000"
    using assms pow2_mono[of 200 1000] by (auto simp: input_ok_def)
  ultimately have "fnear 1 (rnd s (x_rate t)) (x_rate t)" for s
    using fnear_rnd[OF near_refl[of "x_rate t"]] by simp
  then show ?thesis using assms by (simp add: input_ok_def add_fin x_rate_def)
qed

lemma int_driver:
  assumes "0 \<le> sint w"
  shows "fnear 1 (of_i64 w) (of_int (sint w)) \<and>
    (rat_of_int (sint w) = 0 \<or> pow2 (- 400) \<le> of_int (sint w)) \<and> rat_of_int (sint w) \<le> pow2 300"
proof (intro conjI)
  show "fnear 1 (of_i64 w) (of_int (sint w))" by (rule fnear_of_i64[OF assms])
  have "1 \<le> rat_of_int (sint w)" if "sint w \<noteq> 0" using assms that by simp
  then show "rat_of_int (sint w) = 0 \<or> pow2 (- 400) \<le> of_int (sint w)"
    using pow2_mono[of "- 400" 0] by fastforce
  have "rat_of_int (sint w) \<le> of_int (2 ^ 63)" using sint_range(2)[of w] unfolding of_int_le_iff by linarith
  also have "\<dots> \<le> pow2 300" using pow2_mono[of 63 300] by (simp add: pow2_def[of 63])
  finally show "rat_of_int (sint w) \<le> pow2 300" .
qed

lemma default_weights_near:
  "fnear 1 (Storage defaultWeights) (2 / 5)" "fnear 1 (Throughput defaultWeights) (2 / 5)"
  "fnear 1 (Partition defaultWeights) (1 / 5)"
proof -
  have "low (2 / 5)" "low (1 / 5)" by (rule lowI[of _ "- 3"]; simp add: pow2_def)+
  moreover have "(1 :: rat) \<le> pow2 1000" using pow2_mono[of 0 1000] by simp
  ultimately show "fnear 1 (Storage defaultWeights) (2 / 5)" "fnear 1 (Throughput defaultWeights) (2 / 5)"
    "fnear 1 (Partition defaultWeights) (1 / 5)"
    using fnear_rnd[OF near_refl[of "2 / 5"]] fnear_rnd[OF near_refl[of "1 / 5"]]
    by (simp_all add: defaultWeights_def fl_def)
qed

lemma x_parts_sum: "(\<Sum>u\<leftarrow>ts. x_parts u) = of_int (\<Sum>u\<leftarrow>ts. sint (in_Partitions u))"
  by (induction ts) (simp_all add: x_parts_def)

text \<open>The share of a topic, as computed, against its exact share.\<close>

lemma weightedShare_near:
  assumes ok: "\<forall>u \<in> set ts. input_ok u" and n: "length ts \<le> 2 ^ 20" and t: "t \<in> set ts"
    and p: "(\<Sum>u\<leftarrow>ts. sint (in_Partitions u)) < 2 ^ 63" and tot: "alloc_totals ts = (tb, tr, tp)"
  shows "fnear (length ts + 8) (weightedShare defaultWeights t tb tr tp) (exact_share ts t) \<and>
    low (exact_share ts t)"
proof -
  let ?n = "length ts"
  have tn: "fnear 1 (of_i64 (in_RetainedBytes u)) (x_bytes u) \<and> (x_bytes u = 0 \<or> pow2 (- 400) \<le> x_bytes u) \<and> x_bytes u \<le> pow2 300"
    "fnear 1 (in_BytesInPerSec u + in_BytesOutPerSec u) (x_rate u) \<and> (x_rate u = 0 \<or> pow2 (- 400) \<le> x_rate u) \<and> x_rate u \<le> pow2 300"
    "fnear 1 (of_i64 (in_Partitions u)) (x_parts u) \<and> (x_parts u = 0 \<or> pow2 (- 400) \<le> x_parts u) \<and> x_parts u \<le> pow2 300"
    if "u \<in> set ts" for u
    using ok that int_driver[of "in_RetainedBytes u"] int_driver[of "in_Partitions u"] rate_near[of u]
      pow2_mono[of "- 400" "- 200"] pow2_mono[of 200 300] pow2_pos[of 300]
    by (auto simp: input_ok_def x_bytes_def x_parts_def simp del: pow2_pos)
  note B = total_near[of ts "\<lambda>u. of_i64 (in_RetainedBytes u)" x_bytes, OF _ n]
    and R = total_near[of ts "\<lambda>u. in_BytesInPerSec u + in_BytesOutPerSec u" x_rate, OF _ n]
    and P = total_near[of ts "\<lambda>u. of_i64 (in_Partitions u)" x_parts, OF _ n]
  have tb: "fnear (Suc ?n) tb (\<Sum>u\<leftarrow>ts. x_bytes u)" "(\<Sum>u\<leftarrow>ts. x_bytes u) \<le> pow2 400" "x_bytes t \<le> (\<Sum>u\<leftarrow>ts. x_bytes u)"
    using B tn(1) tot sum_list_member_le[OF _ t, of x_bytes] by (auto simp: alloc_totals_eq)
  have tr: "fnear (Suc ?n) tr (\<Sum>u\<leftarrow>ts. x_rate u)" "(\<Sum>u\<leftarrow>ts. x_rate u) \<le> pow2 400" "x_rate t \<le> (\<Sum>u\<leftarrow>ts. x_rate u)"
    using R tn(2) tot sum_list_member_le[OF _ t, of x_rate] by (auto simp: alloc_totals_eq)
  have ps: "\<forall>u \<in> set ts. 0 \<le> sint (in_Partitions u)" using ok by (auto simp: input_ok_def)
  have sp: "sint tp = (\<Sum>u\<leftarrow>ts. sint (in_Partitions u))"
    using total_parts[OF ps, of 0] p tot by (simp add: alloc_totals_eq)
  then have xp: "rat_of_int (sint tp) = (\<Sum>u\<leftarrow>ts. x_parts u)" by (simp add: x_parts_sum)
  have tp0: "0 \<le> sint tp" unfolding sp using ps by (intro sum_list_nonneg) auto
  have tp: "fnear (Suc ?n) (of_i64 tp) (\<Sum>u\<leftarrow>ts. x_parts u)" "(\<Sum>u\<leftarrow>ts. x_parts u) \<le> pow2 400" "x_parts t \<le> (\<Sum>u\<leftarrow>ts. x_parts u)"
    using P tn(3) sum_list_member_le[OF _ t, of x_parts] fnear_mono[OF fnear_of_i64[OF tp0], of "Suc ?n"]
    by (auto simp: xp)
  have k: "Suc ?n + 4 \<le> ?n + 5" "Suc ?n + 4 \<le> Suc (?n + 5)" "Suc ?n + 4 \<le> Suc (Suc (?n + 5))"
    "?n + 5 \<le> 2 ^ 40" "Suc (?n + 5) \<le> 2 ^ 40" "Suc (Suc (?n + 5)) \<le> 2 ^ 40" using n by simp_all
  have w: "(1 :: rat) / 8 \<le> 2 / 5" "(2 :: rat) / 5 \<le> 1" "(1 :: rat) / 8 \<le> 1 / 5" "(1 :: rat) / 5 \<le> 1" by simp_all
  have z: "fnear (?n + 5) 0 0" by (simp add: fnear_def)
  have le1: "part_of x_bytes ts t \<le> 1" "part_of x_rate ts t \<le> 1"
    using tb(3) tr(3) by (simp_all add: part_of_def)
  note d = default_weights_near
  note s1 = share_term[OF conjunct1[OF tn(1)[OF t]] conjunct1[OF conjunct2[OF tn(1)[OF t]]] tb(3,1,2)
      d(1) w(1,2) z low_simps(1) zero_le_one k(1,4), folded part_of_def]
  note s2 = share_term[OF conjunct1[OF tn(2)[OF t]] conjunct1[OF conjunct2[OF tn(2)[OF t]]] tr(3,1,2)
      d(2) w(1,2) conjunct1[OF s1] conjunct2[OF s1] _ k(2,5), folded part_of_def]
  note s3 = share_term[OF conjunct1[OF tn(3)[OF t]] conjunct1[OF conjunct2[OF tn(3)[OF t]]] tp(3,1,2)
      d(3) w(3,4) conjunct1[OF s2] conjunct2[OF s2] _ k(3,6), folded part_of_def]
  have e: "0 < (\<Sum>u\<leftarrow>ts. x_bytes u) \<longleftrightarrow> 0 < tb" "0 < (\<Sum>u\<leftarrow>ts. x_rate u) \<longleftrightarrow> 0 < tr"
    "0 < (\<Sum>u\<leftarrow>ts. x_parts u) \<longleftrightarrow> 0 < sint tp"
    using fnear_pos_iff[OF tb(1)] fnear_pos_iff[OF tr(1)] by (simp_all flip: xp)
  have b1: "0 + 2 / 5 * part_of x_bytes ts t \<le> 1"
    "0 + 2 / 5 * part_of x_bytes ts t + 2 / 5 * part_of x_rate ts t \<le> 1"
    using le1 by simp_all
  have sh: "weightedShare defaultWeights t tb tr tp =
     (let s1 = if 0 < (\<Sum>u\<leftarrow>ts. x_bytes u) then 0 + Storage defaultWeights * (of_i64 (in_RetainedBytes t) / tb) else 0;
          s2 = if 0 < (\<Sum>u\<leftarrow>ts. x_rate u) then s1 + Throughput defaultWeights * ((in_BytesInPerSec t + in_BytesOutPerSec t) / tr) else s1
      in if 0 < (\<Sum>u\<leftarrow>ts. x_parts u) then s2 + Partition defaultWeights * (of_i64 (in_Partitions t) / of_i64 tp) else s2)"
    by (simp only: weightedShare_def Let_def e signed_cmp sint_0)
  have ex: "exact_share ts t = 0 + 2 / 5 * part_of x_bytes ts t + 2 / 5 * part_of x_rate ts t + 1 / 5 * part_of x_parts ts t"
    by (simp add: exact_share_def)
  have "length ts + 8 = Suc (Suc (Suc (?n + 5)))" by simp
  then show ?thesis unfolding sh ex Let_def using s3[OF b1(1) b1(1) b1(2)] by (simp only:)
qed

subsection \<open>The bill\<close>

definition bill_ok :: "costModel \<Rightarrow> bool" where
  "bill_ok m \<longleftrightarrow> is_fin (cm_MonthlyCostEUR m) \<and> 1 \<le> val (cm_MonthlyCostEUR m) \<and>
     val (cm_MonthlyCostEUR m) \<le> pow2 200 \<and> effective_weights m = defaultWeights"

lemma exact_share_bounds:
  assumes "\<forall>u \<in> set ts. 0 \<le> x_bytes u \<and> 0 \<le> x_rate u \<and> 0 \<le> x_parts u" "t \<in> set ts"
  shows "0 \<le> exact_share ts t" "exact_share ts t \<le> 1"
proof -
  have "0 \<le> part_of x ts t \<and> part_of x ts t \<le> 1" if "\<forall>u \<in> set ts. 0 \<le> x u" for x
    using that assms(2) sum_list_member_le[OF that assms(2)] by (simp add: part_of_def)
  from this[of x_bytes] this[of x_rate] this[of x_parts] assms(1)
  show "0 \<le> exact_share ts t" "exact_share ts t \<le> 1" by (simp_all add: exact_share_def)
qed

lemma share_low: "low s \<Longrightarrow> 1 \<le> c \<Longrightarrow> low (c * s)"
  using mult_right_mono[of 1 c s] low_nonneg[of s] by (fastforce simp: low_def)

lemma allocate_eur:
  assumes "bill_ok m"
  shows "tc_EUR (allocate_one m defaultWeights (tb, tr, tp) t) =
     cm_MonthlyCostEUR m * weightedShare defaultWeights t tb tr tp"
  using assms by (auto simp: bill_ok_def allocate_one_def le_zero_iff)

lemma allocate_one_near:
  assumes m: "bill_ok m" and ok: "\<forall>u \<in> set ts. input_ok u" and n: "length ts \<le> 2 ^ 20" and t: "t \<in> set ts"
    and p: "(\<Sum>u\<leftarrow>ts. sint (in_Partitions u)) < 2 ^ 63"
  shows "fnear (length ts + 9) (tc_EUR (allocate_one m defaultWeights (alloc_totals ts) t))
           (val (cm_MonthlyCostEUR m) * exact_share ts t)"
proof -
  let ?c = "cm_MonthlyCostEUR m" and ?s = "exact_share ts t"
  obtain tb tr tp where tot: "alloc_totals ts = (tb, tr, tp)" by (cases "alloc_totals ts")
  note sh = weightedShare_near[OF ok n t p tot]
  have c: "is_fin ?c" "1 \<le> val ?c" "val ?c \<le> pow2 200" using m by (simp_all add: bill_ok_def)
  have "\<forall>u \<in> set ts. 0 \<le> x_bytes u \<and> 0 \<le> x_rate u \<and> 0 \<le> x_parts u"
    using ok pow2_pos[of "- 200"] by (auto simp: input_ok_def x_bytes_def x_parts_def simp del: pow2_pos)
  note b = exact_share_bounds[OF this t]
  have "val ?c * ?s \<le> pow2 200 * 1" using b c by (intro mult_mono) auto
  also have "\<dots> \<le> pow2 1000" using pow2_mono[of 200 1000] by simp
  finally have up: "val ?c * ?s \<le> pow2 1000" .
  have "fnear 0 ?c (val ?c)" using c near_refl[of "val ?c"] by (simp add: fnear_def)
  from fnear_mul[OF this conjunct1[OF sh] _ share_low[OF conjunct2[OF sh] c(2)] up] n
  show ?thesis by (simp add: tot allocate_eur[OF m] add.commute)
qed

lemma small_factor: "n \<le> 2 ^ 20 \<Longrightarrow> of_nat (n + 9) * pow2 (- 50) \<le> pow2 (- 29)"
proof -
  assume "n \<le> 2 ^ 20"
  then have "rat_of_nat (n + 9) \<le> of_nat (2 ^ 21)" by (intro of_nat_mono) simp
  then have "of_nat (n + 9) * pow2 (- 50) \<le> of_nat (2 ^ 21) * pow2 (- 50)" by (rule mult_right_mono) simp
  also have "\<dots> = pow2 (- 29)" by (simp add: pow2_def)
  finally show ?thesis .
qed

lemma fnear_error:
  assumes "near (n + 9) x y" "n \<le> 2 ^ 20"
  shows "\<bar>x - y\<bar> \<le> y * pow2 (- 29)"
proof -
  have "\<bar>x - y\<bar> \<le> y * (of_nat (n + 9) * pow2 (- 50))" using assms(2) by (intro near_error[OF assms(1)]) simp
  also have "\<dots> \<le> y * pow2 (- 29)"
    using small_factor[OF assms(2)] nearD(1)[OF assms(1)] by (rule mult_left_mono)
  finally show ?thesis .
qed

text \<open>C2: The allocation is accurate. For a bill of at least one euro, default weights and up to
  \<open>2 ^ 20\<close> topics with nonnegative drivers, every topic's figure, in the order of the topics,
  is its exact weighted share of the bill (40\% by retained bytes, 40\% by throughput, 20\% by
  partitions), within a relative error of \<open>2 ^ -29\<close>; and the figures add up, with the same
  accuracy, to the part of the bill whose driver is present at all: the whole bill when there
  are bytes, traffic and partitions, 60\% of it when no topic has traffic.\<close>

theorem allocate_accounts:
  assumes m: "bill_ok m" and ok: "\<forall>t \<in> set ts. input_ok t" and n: "length ts \<le> 2 ^ 20"
    and p: "(\<Sum>t\<leftarrow>ts. sint (in_Partitions t)) < 2 ^ 63"
  shows "list_all2 (\<lambda>t a. tc_Name a = in_Name t \<and> is_fin (tc_EUR a) \<and>
             \<bar>val (tc_EUR a) - val (cm_MonthlyCostEUR m) * exact_share ts t\<bar>
               \<le> val (cm_MonthlyCostEUR m) * exact_share ts t * pow2 (- 29)) ts (allocate m ts) \<and>
         \<bar>(\<Sum>a\<leftarrow>allocate m ts. val (tc_EUR a)) - val (cm_MonthlyCostEUR m) * covered ts\<bar>
           \<le> val (cm_MonthlyCostEUR m) * covered ts * pow2 (- 29)"
proof
  let ?c = "val (cm_MonthlyCostEUR m)" and ?a = "allocate_one m defaultWeights (alloc_totals ts)"
  have al: "allocate m ts = map ?a ts" using m by (simp add: allocate_def bill_ok_def)
  note one = allocate_one_near[OF m ok n _ p]
  show "list_all2 (\<lambda>t a. tc_Name a = in_Name t \<and> is_fin (tc_EUR a) \<and>
      \<bar>val (tc_EUR a) - ?c * exact_share ts t\<bar> \<le> ?c * exact_share ts t * pow2 (- 29)) ts (allocate m ts)"
    unfolding al list_all2_map2
  proof (rule list_all2_same[THEN iffD2], intro ballI conjI)
    fix t
    assume t: "t \<in> set ts"
    show "tc_Name (?a t) = in_Name t" by (simp add: allocate_one_def split: prod.splits)
    show "is_fin (tc_EUR (?a t))" using fnearD(1)[OF one[OF t]] .
    show "\<bar>val (tc_EUR (?a t)) - ?c * exact_share ts t\<bar> \<le> ?c * exact_share ts t * pow2 (- 29)"
      by (rule fnear_error[OF fnearD(2)[OF one[OF t]] n])
  qed
  have "near (length ts + 9) (\<Sum>t\<leftarrow>ts. val (tc_EUR (?a t))) (\<Sum>t\<leftarrow>ts. ?c * exact_share ts t)"
    using fnearD(2)[OF one] by (intro near_sum_list) auto
  then have "near (length ts + 9) (\<Sum>a\<leftarrow>allocate m ts. val (tc_EUR a)) (?c * covered ts)"
    unfolding sum_list_const_mult exact_share_sum by (simp add: al o_def)
  then show "\<bar>(\<Sum>a\<leftarrow>allocate m ts. val (tc_EUR a)) - ?c * covered ts\<bar> \<le> ?c * covered ts * pow2 (- 29)"
    by (rule fnear_error) (rule n)
qed

definition idle_inputs :: "topicCostInput list" where
  "idle_inputs =
     [\<lparr>in_Name = ''orders'', in_RetainedBytes = 1000000000, in_BytesInPerSec = 0, in_BytesOutPerSec = 0, in_Partitions = 3\<rparr>,
      \<lparr>in_Name = ''audit'', in_RetainedBytes = 3000000000, in_BytesInPerSec = 0, in_BytesOutPerSec = 0, in_Partitions = 1\<rparr>]"

definition idle_model :: costModel where
  "idle_model =
     \<lparr>cm_Provider = '''', cm_MonthlyCostEUR = Fin 1000, cm_StorageEURPerGBMo = 0, cm_NetworkEURPerGB = 0,
      cm_Weights = defaultWeights\<rparr>"

lemma idle_ok: "bill_ok idle_model" "\<forall>t \<in> set idle_inputs. input_ok t"
proof -
  have "\<not> weights_unset defaultWeights"
    using weight_bounds by (auto simp: weights_unset_def feq_fin)
  moreover have "(1000 :: rat) \<le> pow2 200" using pow2_mono[of 10 200] by (simp add: pow2_def[of 10])
  ultimately show "bill_ok idle_model" by (simp add: bill_ok_def idle_model_def effective_weights_def)
  show "\<forall>t \<in> set idle_inputs. input_ok t" by (simp add: idle_inputs_def input_ok_def x_rate_def)
qed

theorem allocate_accounts_witness:
  "\<bar>(\<Sum>a\<leftarrow>allocate idle_model idle_inputs. val (tc_EUR a)) - 600\<bar> \<le> 600 * pow2 (- 29)"
proof -
  have "val (cm_MonthlyCostEUR idle_model) * covered idle_inputs = 600"
    by (simp add: idle_model_def covered_def idle_inputs_def x_bytes_def x_rate_def x_parts_def)
  then show ?thesis
    using allocate_accounts[OF idle_ok] by (simp add: idle_inputs_def)
qed

subsection \<open>Derived prices\<close>

lemma derived_near:
  assumes "bill_ok m" "0 < sint n"
  shows "fnear 5 (cm_MonthlyCostEUR m * Storage defaultWeights / (of_i64 n / fl 1000000000))
           (2 / 5 * val (cm_MonthlyCostEUR m) / (of_int (sint n) / 1000000000))"
proof -
  let ?c = "cm_MonthlyCostEUR m" and ?n = "rat_of_int (sint n)"
  have c: "is_fin ?c" "1 \<le> val ?c" "val ?c \<le> pow2 200" using assms(1) by (simp_all add: bill_ok_def)
  have n: "1 \<le> ?n" "?n \<le> pow2 300" using assms(2) int_driver[of n] by simp_all
  have p: "pow2 300 \<le> pow2 1000" "pow2 200 \<le> pow2 1000" "pow2 240 \<le> pow2 1000" by (rule pow2_mono; simp)+
  have g: "low (?n / 1000000000)" using n by (intro lowI[of _ "- 30"]) (auto simp: pow2_def[of "- 30"])
  have gb: "fnear (Suc (1 + 0)) (of_i64 n / fl 1000000000) (?n / 1000000000)"
    using n p assms(2) g by (intro fnear_div[OF fnear_of_i64]) (auto simp: fnear_def near_refl)
  have cw: "fnear (Suc (0 + 1)) (?c * Storage defaultWeights) (val ?c * (2 / 5))"
    using c p default_weights_near(1) by (intro fnear_mul lowI[of _ "- 3"]) (auto simp: fnear_def near_refl pow2_def[of "- 3"])
  have "fnear (Suc (Suc (0 + 1) + Suc (1 + 0))) (?c * Storage defaultWeights / (of_i64 n / fl 1000000000))
      (val ?c * (2 / 5) / (?n / 1000000000))"
  proof (rule fnear_div[OF cw gb])
    have "pow2 (- 300) = 1 / pow2 300" using pow2_diff[of 0 300] by simp
    also have "\<dots> \<le> 400000000 / ?n" using n by (intro frac_le) auto
    also have "\<dots> \<le> val ?c * 400000000 / ?n" using c(2) n by (intro divide_right_mono) auto
    finally have "pow2 (- 300) \<le> val ?c * (2 / 5) / (?n / 1000000000)" by (simp add: mult.commute)
    then show "low (val ?c * (2 / 5) / (?n / 1000000000))"
      using c n by (intro lowI[of _ "- 300"]) simp_all
    have "val ?c * (2 / 5) / (?n / 1000000000) = val ?c * 400000000 / ?n" by simp
    also have "\<dots> \<le> pow2 200 * pow2 40 / 1"
      using c n by (intro frac_le mult_mono) (auto simp: pow2_def[of 40])
    also have "\<dots> = pow2 240" by (simp flip: pow2_add)
    finally show "val ?c * (2 / 5) / (?n / 1000000000) \<le> pow2 1000" using p(3) by simp
  qed (use n in auto)
  then show ?thesis by (simp add: mult.commute eval_nat_numeral)
qed

text \<open>C37: A derived storage price accounts for the storage share of the bill: multiplied by the
  gigabytes it was derived from, it gives back 40\% of the monthly cost, within a relative error
  of \<open>2 ^ -47\<close>.\<close>

theorem derived_price_accounts:
  assumes "bill_ok m" "\<not> 0 < cm_StorageEURPerGBMo m" "0 < sint n"
  shows "is_fin (StorageEURPerGBMo (resolve m n)) \<and>
    \<bar>val (StorageEURPerGBMo (resolve m n)) * (of_int (sint n) / 10 ^ 9) - 2 / 5 * val (cm_MonthlyCostEUR m)\<bar>
      \<le> 2 / 5 * val (cm_MonthlyCostEUR m) * pow2 (- 47)"
proof -
  let ?c = "val (cm_MonthlyCostEUR m)" and ?g = "rat_of_int (sint n) / 10 ^ 9"
  let ?r = "StorageEURPerGBMo (resolve m n)"
  have "0 < cm_MonthlyCostEUR m" using assms(1) by (simp add: bill_ok_def zero_less_iff)
  then have "?r = cm_MonthlyCostEUR m * Storage defaultWeights / (of_i64 n / fl 1000000000)"
    using assms by (simp add: resolve_def Let_def signed_cmp bytesPerGB_def bill_ok_def split: prod.splits)
  with derived_near[OF assms(1,3)] have nr: "fnear 5 ?r (2 / 5 * ?c / ?g)" by simp
  have g: "0 < ?g" using assms(3) by simp
  have c: "0 \<le> 2 / 5 * ?c" using assms(1) by (simp add: bill_ok_def)
  have "near (5 + 0) (val ?r * ?g) (2 / 5 * ?c / ?g * ?g)"
    using g by (intro near_mult[OF fnearD(2)[OF nr] near_refl]) simp
  then have "near 5 (val ?r * ?g) (2 / 5 * ?c)" using g by simp
  then have "\<bar>val ?r * ?g - 2 / 5 * ?c\<bar> \<le> 2 / 5 * ?c * (of_nat 5 * pow2 (- 50))" by (rule near_error) simp
  also have "\<dots> \<le> 2 / 5 * ?c * pow2 (- 47)" using c by (intro mult_left_mono) (simp_all add: pow2_def)
  finally show ?thesis using fnearD(1)[OF nr] by simp
qed

theorem derived_price_accounts_witness:
  "\<bar>val (StorageEURPerGBMo (resolve idle_model 4000000000)) * 4 - 400\<bar> \<le> 400 * pow2 (- 47)"
  using derived_price_accounts[OF idle_ok(1), of 4000000000] by (simp add: idle_model_def)

end
