(* ===== verification/GoMap.thy ===== *)
theory GoMap
  imports GoSort "HOL-Library.AList"
begin

text \<open>
  Go maps and fallible calls. A map is the list of its entries in the order a \<open>range\<close>
  over it visits them, with different keys; the language leaves that order open, so what a
  component computes from a map is right only if it does not depend on the order, and the
  lemmas say so where it holds. A call to the outside takes the state of the world and
  returns a value or an error (its text) with the new state.
\<close>

type_synonym ('k, 'v) gomap = "('k \<times> 'v) list"

definition gomap_ok :: "('k, 'v) gomap \<Rightarrow> bool" where
  "gomap_ok m \<longleftrightarrow> distinct (map fst m)"

text \<open>\<open>m[k]\<close> with the zero value \<open>d\<close> of the element type; \<open>m[k] = v\<close> keeps the place of a key.\<close>

definition mget :: "'v \<Rightarrow> ('k, 'v) gomap \<Rightarrow> 'k \<Rightarrow> 'v" where
  "mget d m k = (case map_of m k of None \<Rightarrow> d | Some v \<Rightarrow> v)"

abbreviation mput :: "('k, 'v) gomap \<Rightarrow> 'k \<Rightarrow> 'v \<Rightarrow> ('k, 'v) gomap" where
  "mput m k v \<equiv> AList.update k v m"

lemma mput_ok [simp]: "gomap_ok m \<Longrightarrow> gomap_ok (mput m k v)"
  by (simp add: gomap_ok_def distinct_update)

lemma gomap_ok_Nil [simp]: "gomap_ok []"
  by (simp add: gomap_ok_def)

lemma gomap_ok_Cons: "gomap_ok ((k, v) # m) \<longleftrightarrow> k \<notin> fst ` set m \<and> gomap_ok m"
  by (auto simp: gomap_ok_def)

lemma mget_mput [simp]: "mget d (mput m k v) k' = (if k' = k then v else mget d m k')"
  by (simp add: mget_def update_conv')

lemma mget_Nil [simp]: "mget d [] k = d"
  by (simp add: mget_def)

lemma mget_Cons: "mget d ((k', v) # m) k = (if k' = k then v else mget d m k)"
  by (auto simp: mget_def)

lemma mget_in: "gomap_ok m \<Longrightarrow> (k, v) \<in> set m \<Longrightarrow> mget d m k = v"
  by (simp add: mget_def gomap_ok_def)

lemma mget_notin: "k \<notin> fst ` set m \<Longrightarrow> mget d m k = d"
proof -
  assume "k \<notin> fst ` set m"
  then have "map_of m k = None" by (simp only: map_of_eq_None_iff not_False_eq_True)
  then show "mget d m k = d" by (simp add: mget_def)
qed

text \<open>The same map, visited in another order.\<close>

lemma map_of_perm: "gomap_ok m \<Longrightarrow> mset m' = mset m \<Longrightarrow> map_of m' = map_of m"
proof -
  assume m: "gomap_ok m" "mset m' = mset m"
  then have "mset (map fst m') = mset (map fst m)" by simp
  then have "distinct (map fst m')" using m(1) mset_eq_imp_distinct_iff unfolding gomap_ok_def by blast
  then show "map_of m' = map_of m"
    using m map_of_inject_set[of m' m] by (metis gomap_ok_def set_mset_mset)
qed

lemma mget_perm: "gomap_ok m \<Longrightarrow> mset m' = mset m \<Longrightarrow> mget d m' k = mget d m k"
  unfolding mget_def by (simp only: map_of_perm[of m m'])

subsection \<open>Calls to the outside\<close>

type_synonym ('w, 'a) call = "'w \<Rightarrow> (gostring + 'a) \<times> 'w"

text \<open>\<open>x, err := call(); if err != nil { return err }\<close>\<close>

definition bindE :: "('w, 'a) call \<Rightarrow> ('a \<Rightarrow> ('w, 'b) call) \<Rightarrow> ('w, 'b) call" where
  "bindE m f w = (case m w of (Inl e, w') \<Rightarrow> (Inl e, w') | (Inr a, w') \<Rightarrow> f a w')"

definition returnE :: "'a \<Rightarrow> ('w, 'a) call" where
  "returnE a w = (Inr a, w)"

definition failE :: "gostring \<Rightarrow> ('w, 'a) call" where
  "failE e w = (Inl e, w)"

text \<open>\<open>fmt.Errorf("prefix: %w", err)\<close>\<close>

definition wrapE :: "gostring \<Rightarrow> ('w, 'a) call \<Rightarrow> ('w, 'a) call" where
  "wrapE p m w = (case m w of (Inl e, w') \<Rightarrow> (Inl (p @ '': '' @ e), w') | (Inr a, w') \<Rightarrow> (Inr a, w'))"

lemma bindE_Inr: "bindE m f w = (Inr b, w'') \<longleftrightarrow> (\<exists>a w'. m w = (Inr a, w') \<and> f a w' = (Inr b, w''))"
  by (auto simp: bindE_def split: prod.splits sum.splits)

lemma bindE_Inl: "bindE m f w = (Inl e, w'') \<longleftrightarrow>
    m w = (Inl e, w'') \<or> (\<exists>a w'. m w = (Inr a, w') \<and> f a w' = (Inl e, w''))"
  by (auto simp: bindE_def split: prod.splits sum.splits)

lemma wrapE_Inr [simp]: "wrapE p m w = (Inr a, w') \<longleftrightarrow> m w = (Inr a, w')"
  by (auto simp: wrapE_def split: prod.splits sum.splits)

lemma returnE_Inr [simp]: "returnE a w = (Inr b, w') \<longleftrightarrow> a = b \<and> w = w'"
  by (auto simp: returnE_def)

lemma failE_Inr [simp]: "failE e w \<noteq> (Inr b, w')"
  by (simp add: failE_def)

text \<open>A result computed without the outside; \<open>return\<close> of a pair \<open>(x, err)\<close>.\<close>

definition liftE :: "gostring + 'a \<Rightarrow> ('w, 'a) call" where
  "liftE r w = (r, w)"

lemma liftE_Inr [simp]: "liftE r w = (Inr b, w') \<longleftrightarrow> r = Inr b \<and> w = w'"
  by (auto simp: liftE_def)

text \<open>A predicate on the world a call keeps, also when it fails.\<close>

definition keeps :: "('w \<Rightarrow> bool) \<Rightarrow> ('w, 'a) call \<Rightarrow> bool" where
  "keeps I c \<longleftrightarrow> (\<forall>w. I w \<longrightarrow> I (snd (c w)))"

lemma keepsD: "keeps I c \<Longrightarrow> I w \<Longrightarrow> I (snd (c w))"
  by (simp add: keeps_def)

lemma keeps_bindE [intro!]:
  assumes "keeps I m" "\<And>a. keeps I (f a)"
  shows "keeps I (bindE m f)"
  unfolding keeps_def
proof (intro allI impI)
  fix w
  assume "I w"
  obtain r w' where m: "m w = (r, w')" by (cases "m w")
  then have "I w'" using keepsD[OF assms(1) \<open>I w\<close>] by simp
  then show "I (snd (bindE m f w))" using keepsD[OF assms(2)] by (simp add: bindE_def m split: sum.split)
qed

lemma keeps_wrapE [simp]:
  assumes "keeps I m"
  shows "keeps I (wrapE p m)"
  unfolding keeps_def
proof (intro allI impI)
  fix w
  assume "I w"
  obtain r w' where m: "m w = (r, w')" by (cases "m w")
  then have "I w'" using keepsD[OF assms \<open>I w\<close>] by simp
  then show "I (snd (wrapE p m w))" by (simp add: wrapE_def m split: sum.split)
qed

lemma keeps_simple [simp]: "keeps I (returnE a)" "keeps I (failE e)" "keeps I (liftE r)"
  by (simp_all add: keeps_def returnE_def failE_def liftE_def)

end
