(* ===== verification/Kafka.thy ===== *)
theory Kafka
  imports GoText GoMap
begin

text \<open>
  The read surface of the Kafka client (\<open>internal/kafka/reads.go\<close>): brokers, topics,
  topic configurations, log directory sizes, offsets, groups and committed offsets. The
  admin client of franz-go (\<open>kadm\<close>) is not part of the repository: the record \<open>kadm\<close> holds
  one call for each of its requests, and the \<open>kadm_\<close> records hold the fields of its replies
  the code reads. Nothing is assumed of what the calls return.
\<close>

subsection \<open>Replies of the admin client\<close>

record kadm_broker =
  kb_NodeID :: i32
  kb_Host :: gostring
  kb_Port :: i32
  kb_Rack :: "gostring option"

record kadm_topic =
  kt_Err :: "gostring option"
  kt_IsInternal :: bool
  kt_Partitions :: "(i32, i32 list) gomap" \<comment> \<open>the \<open>Replicas\<close> of each partition\<close>

record kadm_config =
  kc_Key :: gostring
  kc_Value :: "gostring option"

record kadm_resource_config =
  rc_Name :: gostring
  rc_Configs :: "kadm_config list"
  rc_Err :: "gostring option"

record kadm_log_dir_partition =
  ld_Topic :: gostring
  ld_Partition :: i32
  ld_Size :: i64
  ld_IsFuture :: bool

record kadm_listed_offset =
  lo_Offset :: i64
  lo_Err :: "gostring option"

type_synonym kadm_listed_offsets = "(gostring, (i32, kadm_listed_offset) gomap) gomap"

record kadm_listed_group =
  lg_Group :: gostring
  lg_State :: gostring

record kadm_offset_response =
  or_Topic :: gostring
  or_Err :: "gostring option"

text \<open>
  \<open>DescribeAllLogDirs\<close> returns, for each broker, the sequence of partitions \<open>EachPartition\<close>
  calls its function on; \<open>FetchOffsets\<close> the sequence \<open>Each\<close> goes through.
\<close>

record 'w kadm =
  BrokerMetadata :: "('w, kadm_broker list) call"
  ListTopics :: "('w, (gostring, kadm_topic) gomap) call"
  DescribeTopicConfigs :: "gostring list \<Rightarrow> ('w, kadm_resource_config list) call"
  DescribeAllLogDirs :: "('w, (i32, kadm_log_dir_partition list) gomap) call"
  ListStartOffsets :: "('w, kadm_listed_offsets) call"
  ListEndOffsets :: "('w, kadm_listed_offsets) call"
  ListGroups :: "('w, (gostring, kadm_listed_group) gomap) call"
  FetchOffsets :: "gostring \<Rightarrow> ('w, kadm_offset_response list) call"

subsection \<open>What the client returns\<close>

record brokerInfo =
  bi_ID :: i32
  bi_Host :: gostring
  bi_Port :: i32
  bi_Rack :: gostring

record topicInfo =
  ti_Name :: gostring
  ti_IsInternal :: bool
  ti_Partitions :: i64
  ti_ReplicationFactor :: i64
  ti_Replicas :: "(i32, i32 list) gomap"

record topicConfig =
  tc_RetentionMs :: "gostring option"
  tc_CompressionType :: "gostring option"
  tc_CleanupPolicy :: "gostring option"
  tc_MinInsyncReplicas :: "gostring option"
  tc_SegmentBytes :: "gostring option"
  tc_SegmentMs :: "gostring option"

definition no_config :: topicConfig where
  "no_config = \<lparr>tc_RetentionMs = None, tc_CompressionType = None, tc_CleanupPolicy = None,
     tc_MinInsyncReplicas = None, tc_SegmentBytes = None, tc_SegmentMs = None\<rparr>"

record groupInfo =
  gi_GroupID :: gostring
  gi_State :: gostring

type_synonym 'v by_partition = "(gostring, (i32, 'v) gomap) gomap"

subsection \<open>Brokers\<close>

definition broker_info :: "kadm_broker \<Rightarrow> brokerInfo" where
  "broker_info b = \<lparr>bi_ID = kb_NodeID b, bi_Host = kb_Host b, bi_Port = kb_Port b,
     bi_Rack = (case kb_Rack b of None \<Rightarrow> '''' | Some r \<Rightarrow> r)\<rparr>"

definition client_Brokers :: "'w kadm \<Rightarrow> ('w, brokerInfo list) call" where
  "client_Brokers adm =
     bindE (wrapE ''kafka: broker metadata'' (BrokerMetadata adm)) (\<lambda>md.
     returnE (slice_stable (\<lambda>a b. bi_ID a <s bi_ID b) (map broker_info md)))"

subsection \<open>Topics\<close>

text \<open>The loop over the partitions: the copied replica lists and the largest of them.\<close>

definition scan_partitions :: "(i32, i32 list) gomap \<Rightarrow> (i32, i32 list) gomap \<times> i64" where
  "scan_partitions ps =
     fold (\<lambda>(pid, rep) (m, maxRF). (mput m pid rep, if maxRF <s len rep then len rep else maxRF)) ps ([], 0)"

definition topic_info :: "gostring \<Rightarrow> kadm_topic \<Rightarrow> topicInfo" where
  "topic_info name d =
     (let (replicas, maxRF) = scan_partitions (kt_Partitions d)
      in \<lparr>ti_Name = name, ti_IsInternal = kt_IsInternal d, ti_Partitions = len (kt_Partitions d),
          ti_ReplicationFactor = maxRF, ti_Replicas = replicas\<rparr>)"

fun topics_loop :: "(gostring, kadm_topic) gomap \<Rightarrow> topicInfo list \<Rightarrow> gostring + topicInfo list" where
  "topics_loop [] out = Inr out"
| "topics_loop ((name, d) # td) out =
     (case kt_Err d of
        Some e \<Rightarrow> Inl (''kafka: topic '' @ go_quote name @ '' metadata: '' @ e)
      | None \<Rightarrow> topics_loop td (out @ [topic_info name d]))"

definition by_name :: "topicInfo \<Rightarrow> topicInfo \<Rightarrow> bool" where
  "by_name a b \<longleftrightarrow> ti_Name a < ti_Name b"

definition client_Topics :: "'w kadm \<Rightarrow> ('w, topicInfo list) call" where
  "client_Topics adm =
     bindE (wrapE ''kafka: list topics'' (ListTopics adm)) (\<lambda>td.
     bindE (liftE (topics_loop td [])) (\<lambda>out.
     returnE (slice_stable by_name out)))"

subsection \<open>Topic configurations\<close>

definition set_config :: "kadm_config \<Rightarrow> topicConfig \<Rightarrow> topicConfig" where
  "set_config c tc =
     (if kc_Key c = ''retention.ms'' then tc\<lparr>tc_RetentionMs := kc_Value c\<rparr>
      else if kc_Key c = ''compression.type'' then tc\<lparr>tc_CompressionType := kc_Value c\<rparr>
      else if kc_Key c = ''cleanup.policy'' then tc\<lparr>tc_CleanupPolicy := kc_Value c\<rparr>
      else if kc_Key c = ''min.insync.replicas'' then tc\<lparr>tc_MinInsyncReplicas := kc_Value c\<rparr>
      else if kc_Key c = ''segment.bytes'' then tc\<lparr>tc_SegmentBytes := kc_Value c\<rparr>
      else if kc_Key c = ''segment.ms'' then tc\<lparr>tc_SegmentMs := kc_Value c\<rparr>
      else tc)"

fun configs_loop :: "kadm_resource_config list \<Rightarrow> (gostring, topicConfig) gomap
    \<Rightarrow> gostring + (gostring, topicConfig) gomap" where
  "configs_loop [] out = Inr out"
| "configs_loop (rc # rcs) out =
     (case rc_Err rc of
        Some e \<Rightarrow> Inl (''kafka: topic '' @ go_quote (rc_Name rc) @ '' configs: '' @ e)
      | None \<Rightarrow> configs_loop rcs (mput out (rc_Name rc) (fold set_config (rc_Configs rc) no_config)))"

definition client_TopicConfigs :: "'w kadm \<Rightarrow> gostring list \<Rightarrow> ('w, (gostring, topicConfig) gomap) call" where
  "client_TopicConfigs adm topics =
     (if topics = [] then returnE []
      else
        bindE (wrapE ''kafka: describe topic configs'' (DescribeTopicConfigs adm topics)) (\<lambda>rcs.
        liftE (configs_loop rcs [])))"

subsection \<open>Log directories\<close>

definition add_replica_size :: "kadm_log_dir_partition \<Rightarrow> i64 list by_partition \<Rightarrow> i64 list by_partition" where
  "add_replica_size p out =
     (if ld_IsFuture p then out
      else let tp = mget [] out (ld_Topic p)
           in mput out (ld_Topic p) (mput tp (ld_Partition p) (mget [] tp (ld_Partition p) @ [ld_Size p])))"

definition replica_sizes :: "(i32, kadm_log_dir_partition list) gomap \<Rightarrow> i64 list by_partition" where
  "replica_sizes dirs = fold (\<lambda>(broker, ps) out. fold add_replica_size ps out) dirs []"

definition client_LogDirSizes :: "'w kadm \<Rightarrow> ('w, i64 list by_partition) call" where
  "client_LogDirSizes adm =
     bindE (wrapE ''kafka: describe log dirs'' (DescribeAllLogDirs adm)) (\<lambda>dirs.
     returnE (replica_sizes dirs))"

subsection \<open>Offsets\<close>

definition flatten_partitions :: "(i32, kadm_listed_offset) gomap \<Rightarrow> (i32, i64) gomap" where
  "flatten_partitions parts =
     fold (\<lambda>(pid, o') tp. if lo_Err o' \<noteq> None then tp else mput tp pid (lo_Offset o')) parts []"

definition flattenOffsets :: "kadm_listed_offsets \<Rightarrow> i64 by_partition" where
  "flattenOffsets lo = fold (\<lambda>(topic, parts) out. mput out topic (flatten_partitions parts)) lo []"

definition client_StartOffsets :: "'w kadm \<Rightarrow> ('w, i64 by_partition) call" where
  "client_StartOffsets adm =
     bindE (wrapE ''kafka: list start offsets'' (ListStartOffsets adm)) (\<lambda>lo. returnE (flattenOffsets lo))"

definition client_EndOffsets :: "'w kadm \<Rightarrow> ('w, i64 by_partition) call" where
  "client_EndOffsets adm =
     bindE (wrapE ''kafka: list end offsets'' (ListEndOffsets adm)) (\<lambda>lo. returnE (flattenOffsets lo))"

subsection \<open>Groups\<close>

definition group_info :: "kadm_listed_group \<Rightarrow> groupInfo" where
  "group_info g = \<lparr>gi_GroupID = lg_Group g, gi_State = lg_State g\<rparr>"

definition client_Groups :: "'w kadm \<Rightarrow> ('w, groupInfo list) call" where
  "client_Groups adm =
     bindE (wrapE ''kafka: list groups'' (ListGroups adm)) (\<lambda>lg.
     returnE (slice_stable (\<lambda>a b. gi_GroupID a < gi_GroupID b) (map (\<lambda>(_, g). group_info g) lg)))"

text \<open>A set of topics is a map to the empty struct.\<close>

definition committed_topics :: "kadm_offset_response list \<Rightarrow> (gostring, unit) gomap" where
  "committed_topics resp =
     fold (\<lambda>o' topics. if or_Err o' \<noteq> None then topics else mput topics (or_Topic o') ()) resp []"

fun committed_loop :: "'w kadm \<Rightarrow> gostring list \<Rightarrow> (gostring, (gostring, unit) gomap) gomap
    \<Rightarrow> ('w, (gostring, (gostring, unit) gomap) gomap) call" where
  "committed_loop adm [] out w = (Inr out, w)"
| "committed_loop adm (g # gs) out w =
     (case FetchOffsets adm g w of
        (Inl err, w') \<Rightarrow> committed_loop adm gs out w'
      | (Inr resp, w') \<Rightarrow> committed_loop adm gs (mput out g (committed_topics resp)) w')"

definition client_CommittedOffsets :: "'w kadm \<Rightarrow> gostring list
    \<Rightarrow> ('w, (gostring, (gostring, unit) gomap) gomap) call" where
  "client_CommittedOffsets adm groups = committed_loop adm groups []"

end
