(* ===== verification/KafkaFacts.thy ===== *)
theory KafkaFacts
  imports Kafka
begin

text \<open>
  What the reads of the Kafka client return: the maps they build are proper maps, topics
  come back sorted with the largest replica list as replication factor, log directory
  sizes and offsets are found where the brokers reported them, and committed offsets never
  fail.
\<close>

subsection \<open>Building maps\<close>

lemma update_fresh: "k \<notin> fst ` set m \<Longrightarrow> mput m k v = m @ [(k, v)]"
  by (induction m) auto

lemma map_of_mput [simp]: "map_of (mput m k v) = (map_of m)(k \<mapsto> v)"
  by (rule update_conv')

lemma mget_map_of: "map_of m k = Some v \<Longrightarrow> mget d m k = v"
  by (simp add: mget_def)

lemma set_mput: "gomap_ok m \<Longrightarrow> (k', v') \<in> set (mput m k v) \<longleftrightarrow> (if k' = k then v' = v else (k', v') \<in> set m)"
proof -
  assume ok: "gomap_ok m"
  then have "(k', v') \<in> set (mput m k v) \<longleftrightarrow> map_of (mput m k v) k' = Some v'"
    using mput_ok[OF ok] by (simp only: gomap_ok_def map_of_eq_Some_iff)
  also have "\<dots> \<longleftrightarrow> (if k' = k then v' = v else (k', v') \<in> set m)"
    using ok by (auto simp: gomap_ok_def)
  finally show ?thesis .
qed

subsection \<open>Topics\<close>

definition replica_lists_small :: "(i32, i32 list) gomap \<Rightarrow> bool" where
  "replica_lists_small ps \<longleftrightarrow> list_all (\<lambda>p. length (snd p) < 2 ^ 63) ps"

definition largest_replica_list :: "(i32, i32 list) gomap \<Rightarrow> int" where
  "largest_replica_list ps = Max (insert 0 ((\<lambda>p. int (length (snd p))) ` set ps))"

lemma sint_len: "length xs < 2 ^ 63 \<Longrightarrow> sint (len xs) = int (length xs)"
  unfolding len_def by (rule sint_eq_of_int) simp_all

lemma scan_partitions_from:
  assumes "gomap_ok (m @ ps)" "replica_lists_small ps" "0 \<le> sint r"
  shows "\<exists>r'. fold (\<lambda>(pid, rep) (m, maxRF). (mput m pid rep, if maxRF <s len rep then len rep else maxRF))
           ps (m, r) = (m @ ps, r') \<and>
         sint r' = Max (insert (sint r) ((\<lambda>p. int (length (snd p))) ` set ps))"
  using assms
proof (induction ps arbitrary: m r)
  case (Cons p ps)
  obtain pid rep where p: "p = (pid, rep)" by (cases p)
  let ?r = "if r <s len rep then len rep else r"
  have fresh: "mput m pid rep = m @ [p]"
    using Cons.prems(1) by (intro update_fresh[of pid m rep, folded p]) (auto simp: gomap_ok_def p)
  have small: "length rep < 2 ^ 63" "replica_lists_small ps"
    using Cons.prems(2) by (simp_all add: replica_lists_small_def p)
  then have r: "sint ?r = max (sint r) (int (length rep))" by (simp add: signed_cmp sint_len)
  then have "0 \<le> sint ?r" using Cons.prems(3) by simp
  with Cons.IH[of "m @ [p]" ?r] Cons.prems(1) small(2)
  obtain r' where IH: "fold (\<lambda>(pid, rep) (m, maxRF). (mput m pid rep, if maxRF <s len rep then len rep else maxRF))
      ps (m @ [p], ?r) = (m @ [p] @ ps, r')"
    and r': "sint r' = Max (insert (sint ?r) ((\<lambda>p. int (length (snd p))) ` set ps))"
    by auto
  have "sint r' = Max (insert (sint r) ((\<lambda>p. int (length (snd p))) ` set (p # ps)))"
    unfolding r' r by (cases "ps = []") (auto simp: p max.assoc)
  then show ?case using IH fresh by (simp add: p)
qed simp

lemma scan_partitions:
  assumes "gomap_ok ps" "replica_lists_small ps"
  shows "fst (scan_partitions ps) = ps" "sint (snd (scan_partitions ps)) = largest_replica_list ps"
  using scan_partitions_from[of "[]" ps 0] assms
  by (auto simp: scan_partitions_def largest_replica_list_def)

text \<open>A topic's metadata as Go can hold it: different partition ids, and slices and maps of
  fewer than \<open>2^63\<close> elements.\<close>

definition kadm_topic_ok :: "kadm_topic \<Rightarrow> bool" where
  "kadm_topic_ok d \<longleftrightarrow> gomap_ok (kt_Partitions d) \<and> replica_lists_small (kt_Partitions d) \<and>
     length (kt_Partitions d) < 2 ^ 63"

lemma topic_info_simps [simp]:
  "ti_Name (topic_info n d) = n" "ti_IsInternal (topic_info n d) = kt_IsInternal d"
  "ti_Partitions (topic_info n d) = len (kt_Partitions d)"
  "ti_Replicas (topic_info n d) = fst (scan_partitions (kt_Partitions d))"
  "ti_ReplicationFactor (topic_info n d) = snd (scan_partitions (kt_Partitions d))"
  by (simp_all add: topic_info_def Let_def case_prod_unfold)

text \<open>The loop stops at the first topic, in the order of the visit, that carries an error.\<close>

definition failed_topic :: "(gostring, kadm_topic) gomap \<Rightarrow> (gostring \<times> kadm_topic) option" where
  "failed_topic td = find (\<lambda>p. kt_Err (snd p) \<noteq> None) td"

lemma topics_loop_find:
  "topics_loop td out =
     (case failed_topic td of
        None \<Rightarrow> Inr (out @ map (\<lambda>(n, d). topic_info n d) td)
      | Some (n, d) \<Rightarrow> Inl (''kafka: topic '' @ go_quote n @ '' metadata: '' @ the (kt_Err d)))"
  by (induction td out rule: topics_loop.induct) (auto simp: failed_topic_def split: option.splits)

lemma client_Topics_run:
  "ListTopics adm w = (Inr td, w') \<Longrightarrow>
     client_Topics adm w =
       (case failed_topic td of
          None \<Rightarrow> (Inr (slice_stable by_name (map (\<lambda>(n, d). topic_info n d) td)), w')
        | Some (n, d) \<Rightarrow> (Inl (''kafka: topic '' @ go_quote n @ '' metadata: '' @ the (kt_Err d)), w'))"
  by (simp add: client_Topics_def bindE_def wrapE_def returnE_def liftE_def topics_loop_find
      split: option.splits prod.splits)

lemma failed_topic_None: "failed_topic td = None \<longleftrightarrow> (\<forall>p \<in> set td. kt_Err (snd p) = None)"
  by (auto simp: failed_topic_def find_None_iff)

lemma by_name_key: "by_name = (\<lambda>a b. ti_Name a < ti_Name b)"
  by (simp add: by_name_def fun_eq_iff)

lemma topic_info_names [simp]: "map ti_Name (map (\<lambda>(n, d). topic_info n d) td) = map fst td"
  by auto

text \<open>C30: \<open>Topics\<close>, on a metadata reply without errors, returns the topics strictly sorted by
  name, each with its number of partitions, its replica lists, and the length of its longest
  replica list as replication factor (the comment of the function says partition 0's).\<close>

theorem topics_correct:
  assumes "ListTopics adm w = (Inr td, w')" "gomap_ok td"
    and "list_all (\<lambda>p. kadm_topic_ok (snd p) \<and> kt_Err (snd p) = None) td"
  shows "\<exists>ts. client_Topics adm w = (Inr ts, w') \<and> sorted_wrt (<) (map ti_Name ts) \<and>
     set (map (\<lambda>t. (ti_Name t, ti_IsInternal t, sint (ti_Partitions t), sint (ti_ReplicationFactor t),
                    ti_Replicas t)) ts) =
     set (map (\<lambda>(n, d). (n, kt_IsInternal d, int (length (kt_Partitions d)),
                          largest_replica_list (kt_Partitions d), kt_Partitions d)) td)"
proof -
  let ?us = "map (\<lambda>(n, d). topic_info n d) td"
  let ?ts = "slice_stable by_name ?us"
  have ok: "kadm_topic_ok d" "kt_Err d = None" if "(n, d) \<in> set td" for n d
    using assms(3) that by (auto simp: list_all_iff)
  then have "failed_topic td = None" by (auto simp: failed_topic_None)
  then have run: "client_Topics adm w = (Inr ?ts, w')" by (simp add: client_Topics_run[OF assms(1)])
  have strict: "sorted_wrt (<) (map ti_Name ?ts)"
    unfolding by_name_key using assms(2) by (intro sort_key_strict) (simp add: gomap_ok_def del: map_map)
  let ?view = "\<lambda>t. (ti_Name t, ti_IsInternal t, sint (ti_Partitions t), sint (ti_ReplicationFactor t),
                    ti_Replicas t)"
  let ?spec = "\<lambda>(n, d). (n, kt_IsInternal d, int (length (kt_Partitions d)),
                    largest_replica_list (kt_Partitions d), kt_Partitions d)"
  have "?view (topic_info (fst p) (snd p)) = ?spec p" if "p \<in> set td" for p
    using ok[of "fst p" "snd p"] that
    by (simp add: kadm_topic_ok_def sint_len scan_partitions case_prod_unfold)
  then have "?view ` (\<lambda>p. topic_info (fst p) (snd p)) ` set td = ?spec ` set td"
    unfolding image_image by (intro image_cong refl) simp
  then have "set (map ?view ?ts) = set (map ?spec td)"
    by (simp add: case_prod_unfold)
  then show ?thesis using run strict by blast
qed

text \<open>\<open>Topics\<close> gives the same list in whatever order the metadata map is visited.\<close>

theorem topics_order_irrelevant:
  assumes "ListTopics adm w = (Inr td, w')" "ListTopics adm' v = (Inr td', v')"
    and "gomap_ok td" "mset td' = mset td" "failed_topic td = None"
  shows "fst (client_Topics adm' v) = fst (client_Topics adm w)"
proof -
  let ?us = "map (\<lambda>(n, d). topic_info n d) td" and ?us' = "map (\<lambda>(n, d). topic_info n d) td'"
  have ok: "failed_topic td' = None"
    using assms(4,5) by (metis failed_topic_None set_mset_mset)
  have "slice_stable by_name ?us' = slice_stable by_name ?us"
    unfolding by_name_key using assms(3,4)
    by (intro sort_key_unique) (simp_all add: gomap_ok_def del: map_map)
  then show ?thesis
    by (simp add: client_Topics_run[OF assms(1)] client_Topics_run[OF assms(2)] assms(5) ok)
qed

subsection \<open>Topic configurations\<close>

text \<open>The last entry of a key wins, an absent key is a nil pointer.\<close>

definition last_value :: "gostring \<Rightarrow> kadm_config list \<Rightarrow> gostring option" where
  "last_value key cs = (case find (\<lambda>c. kc_Key c = key) (rev cs) of None \<Rightarrow> None | Some c \<Rightarrow> kc_Value c)"

lemma last_value_snoc:
  "last_value key (cs @ [c]) = (if kc_Key c = key then kc_Value c else last_value key cs)"
  by (simp add: last_value_def)

lemma topicConfig_eqI:
  assumes "tc_RetentionMs a = tc_RetentionMs b" "tc_CompressionType a = tc_CompressionType b"
    "tc_CleanupPolicy a = tc_CleanupPolicy b" "tc_MinInsyncReplicas a = tc_MinInsyncReplicas b"
    "tc_SegmentBytes a = tc_SegmentBytes b" "tc_SegmentMs a = tc_SegmentMs b"
  shows "a = (b :: topicConfig)"
  using assms by simp

lemma fold_set_config:
  "fold set_config cs no_config =
     \<lparr>tc_RetentionMs = last_value ''retention.ms'' cs, tc_CompressionType = last_value ''compression.type'' cs,
      tc_CleanupPolicy = last_value ''cleanup.policy'' cs,
      tc_MinInsyncReplicas = last_value ''min.insync.replicas'' cs,
      tc_SegmentBytes = last_value ''segment.bytes'' cs, tc_SegmentMs = last_value ''segment.ms'' cs\<rparr>"
proof (induction cs rule: rev_induct)
  case Nil
  then show ?case by (simp add: no_config_def last_value_def)
next
  case (snoc c cs)
  then show ?case
    by (intro topicConfig_eqI) (auto simp: last_value_snoc set_config_def)
qed

definition failed_config :: "kadm_resource_config list \<Rightarrow> kadm_resource_config option" where
  "failed_config rcs = find (\<lambda>rc. rc_Err rc \<noteq> None) rcs"

lemma configs_loop_find:
  "configs_loop rcs out =
     (case failed_config rcs of
        None \<Rightarrow> Inr (fold (\<lambda>rc m. mput m (rc_Name rc) (fold set_config (rc_Configs rc) no_config)) rcs out)
      | Some rc \<Rightarrow> Inl (''kafka: topic '' @ go_quote (rc_Name rc) @ '' configs: '' @ the (rc_Err rc)))"
  by (induction rcs out rule: configs_loop.induct) (auto simp: failed_config_def split: option.splits)

lemma fold_mput_ok: "gomap_ok m \<Longrightarrow> gomap_ok (fold (\<lambda>x m. mput m (f x) (g x)) xs m)"
  by (induction xs arbitrary: m) auto

lemma fold_mput_lookup:
  "map_of (fold (\<lambda>x m. mput m (f x) (g x)) xs m) k =
     (case find (\<lambda>x. f x = k) (rev xs) of None \<Rightarrow> map_of m k | Some x \<Rightarrow> Some (g x))"
  by (induction xs rule: rev_induct) auto

text \<open>\<open>TopicConfigs\<close> of at least one topic, on a reply without errors, maps a topic to the
  values the last answer for it gives, each key's last value counting; it holds nothing else.\<close>

theorem topic_configs_correct:
  assumes "topics \<noteq> []" "DescribeTopicConfigs adm topics w = (Inr rcs, w')" "failed_config rcs = None"
  shows "\<exists>m. client_TopicConfigs adm topics w = (Inr m, w') \<and> gomap_ok m \<and>
     map_of m k = map_option (\<lambda>rc.
       \<lparr>tc_RetentionMs = last_value ''retention.ms'' (rc_Configs rc),
        tc_CompressionType = last_value ''compression.type'' (rc_Configs rc),
        tc_CleanupPolicy = last_value ''cleanup.policy'' (rc_Configs rc),
        tc_MinInsyncReplicas = last_value ''min.insync.replicas'' (rc_Configs rc),
        tc_SegmentBytes = last_value ''segment.bytes'' (rc_Configs rc),
        tc_SegmentMs = last_value ''segment.ms'' (rc_Configs rc)\<rparr>)
       (find (\<lambda>rc. rc_Name rc = k) (rev rcs))"
  using assms
  by (simp add: client_TopicConfigs_def bindE_def wrapE_def liftE_def configs_loop_find fold_mput_ok
      fold_mput_lookup fold_set_config split: option.split)

subsection \<open>Log directories\<close>

text \<open>A map of maps whose keys differ at both levels.\<close>

definition nested_ok :: "('a, ('b, 'v) gomap) gomap \<Rightarrow> bool" where
  "nested_ok m \<longleftrightarrow> gomap_ok m \<and> list_all (\<lambda>p. gomap_ok (snd p)) m"

lemma nested_ok_Nil [simp]: "nested_ok []"
  by (simp add: nested_ok_def)

lemma nested_ok_mget: "nested_ok m \<Longrightarrow> gomap_ok (mget [] m t)"
  by (auto simp: nested_ok_def mget_def list_all_iff dest!: map_of_SomeD split: option.split)

lemma nested_ok_mput: "nested_ok m \<Longrightarrow> gomap_ok tp \<Longrightarrow> nested_ok (mput m t tp)"
  by (auto simp: nested_ok_def list_all_iff set_mput split: if_splits)

lemma replica_sizes_concat: "replica_sizes dirs = fold add_replica_size (concat (map snd dirs)) []"
proof -
  have "fold (\<lambda>(broker, ps) out. fold add_replica_size ps out) dirs out
      = fold add_replica_size (concat (map snd dirs)) out" for out
    by (induction dirs arbitrary: out) auto
  then show ?thesis by (simp add: replica_sizes_def)
qed

lemma fold_add_replica_size_ok: "nested_ok m \<Longrightarrow> nested_ok (fold add_replica_size ps m)"
  by (induction ps arbitrary: m)
    (auto simp: add_replica_size_def Let_def intro!: nested_ok_mput mput_ok nested_ok_mget)

lemma replica_sizes_ok: "nested_ok (replica_sizes dirs)"
  by (simp add: replica_sizes_concat fold_add_replica_size_ok)

definition reported_sizes :: "gostring \<Rightarrow> i32 \<Rightarrow> kadm_log_dir_partition list \<Rightarrow> i64 list" where
  "reported_sizes t p es =
     map ld_Size (filter (\<lambda>e. \<not> ld_IsFuture e \<and> ld_Topic e = t \<and> ld_Partition e = p) es)"

lemma reported_sizes_snoc:
  "reported_sizes t p (es @ [e]) = reported_sizes t p es @
     (if \<not> ld_IsFuture e \<and> ld_Topic e = t \<and> ld_Partition e = p then [ld_Size e] else [])"
  by (simp add: reported_sizes_def)

lemma fold_add_replica_size:
  "map_of (mget [] (fold add_replica_size es []) t) p =
     (if reported_sizes t p es = [] then None else Some (reported_sizes t p es))"
proof (induction es arbitrary: t p rule: rev_induct)
  case Nil
  then show ?case by (simp add: reported_sizes_def)
next
  case (snoc e es)
  define m where "m = fold add_replica_size es []"
  have IH: "map_of (mget [] m t) p =
      (if reported_sizes t p es = [] then None else Some (reported_sizes t p es))" for t p
    unfolding m_def by (rule snoc)
  have "mget [] (mget [] m (ld_Topic e)) (ld_Partition e) = reported_sizes (ld_Topic e) (ld_Partition e) es"
    by (simp add: mget_def[of _ _ "ld_Partition e"] IH)
  then have "map_of (mget [] (add_replica_size e m) t) p =
      (if reported_sizes t p (es @ [e]) = [] then None else Some (reported_sizes t p (es @ [e])))"
    using IH[of t p] by (auto simp: add_replica_size_def Let_def reported_sizes_snoc)
  then show ?case by (simp add: m_def)
qed

text \<open>\<open>LogDirSizes\<close> lists under a topic and partition exactly the sizes the brokers
  reported for it, one per replica, in the order they were reported, shadow replicas of a
  reassignment left out; a partition nobody reported is absent.\<close>

theorem log_dir_sizes_correct:
  assumes "DescribeAllLogDirs adm w = (Inr dirs, w')"
  shows "\<exists>m. client_LogDirSizes adm w = (Inr m, w') \<and> nested_ok m \<and>
     map_of (mget [] m t) p =
       (let sizes = reported_sizes t p (concat (map snd dirs)) in if sizes = [] then None else Some sizes)"
  using assms replica_sizes_ok[of dirs] fold_add_replica_size[of "concat (map snd dirs)" t p]
  by (simp add: client_LogDirSizes_def bindE_def wrapE_def returnE_def replica_sizes_concat)

subsection \<open>Offsets\<close>

lemma flatten_partitions_ok: "gomap_ok (flatten_partitions parts)"
proof -
  have "gomap_ok tp \<Longrightarrow> gomap_ok (fold (\<lambda>(pid, o') tp. if lo_Err o' \<noteq> None then tp
      else mput tp pid (lo_Offset o')) parts tp)" for tp
    by (induction parts arbitrary: tp) auto
  then show ?thesis by (simp add: flatten_partitions_def)
qed

lemma fold_flatten_partitions:
  assumes "gomap_ok parts"
  shows "map_of (fold (\<lambda>(pid, o') tp. if lo_Err o' \<noteq> None then tp else mput tp pid (lo_Offset o')) parts tp) p =
     (case map_of parts p of
        Some o' \<Rightarrow> if lo_Err o' = None then Some (lo_Offset o') else map_of tp p
      | None \<Rightarrow> map_of tp p)"
  using assms
proof (induction parts arbitrary: tp)
  case (Cons q parts)
  have "map_of parts (fst q) = None"
    using Cons.prems unfolding map_of_eq_None_iff by (simp add: gomap_ok_def)
  with Cons show ?case by (cases q) (auto simp: gomap_ok_def split: option.split)
qed simp

lemma flatten_partitions_lookup:
  "gomap_ok parts \<Longrightarrow> map_of (flatten_partitions parts) p =
     (case map_of parts p of
        Some o' \<Rightarrow> if lo_Err o' = None then Some (lo_Offset o') else None
      | None \<Rightarrow> None)"
  using fold_flatten_partitions[of parts "[]" p]
  by (cases "map_of parts p") (simp_all add: flatten_partitions_def)

lemma flattenOffsets_fold:
  "flattenOffsets lo = fold (\<lambda>x m. mput m (fst x) (flatten_partitions (snd x))) lo []"
  by (simp add: flattenOffsets_def case_prod_unfold)

lemma fold_nested_ok:
  "nested_ok m \<Longrightarrow> (\<And>x. gomap_ok (g x)) \<Longrightarrow> nested_ok (fold (\<lambda>x m. mput m (f x) (g x)) xs m)"
  by (induction xs arbitrary: m) (auto intro: nested_ok_mput)

lemma flattenOffsets_ok: "nested_ok (flattenOffsets lo)"
  unfolding flattenOffsets_fold by (rule fold_nested_ok) (simp_all add: flatten_partitions_ok)

lemma find_rev_map_of:
  assumes "gomap_ok m"
  shows "find (\<lambda>x. fst x = k) (rev m) = map_option (Pair k) (map_of m k)"
  using assms
proof (induction m)
  case (Cons p m)
  have "map_of m (fst p) = None"
    using Cons.prems unfolding map_of_eq_None_iff by (simp add: gomap_ok_def)
  moreover have "find P (xs @ [x]) = (case find P xs of None \<Rightarrow> if P x then Some x else None | Some y \<Rightarrow> Some y)"
    for P xs and x :: "'a \<times> 'b"
    by (induction xs) auto
  ultimately show ?case using Cons by (cases p) (auto simp: gomap_ok_def split: option.split)
qed simp

text \<open>The offset reads keep exactly the offsets listed without an error: a partition whose
  listing failed is absent, a topic is there even if all its partitions failed.\<close>

theorem flatten_offsets_correct:
  assumes "gomap_ok lo" "list_all (\<lambda>p. gomap_ok (snd p)) lo"
  shows "nested_ok (flattenOffsets lo) \<and>
     map_option (\<lambda>m. map_of m p) (map_of (flattenOffsets lo) t) =
     map_option (\<lambda>parts. case map_of parts p of
         Some o' \<Rightarrow> if lo_Err o' = None then Some (lo_Offset o') else None
       | None \<Rightarrow> None) (map_of lo t)"
proof -
  have "map_of (flattenOffsets lo) t = map_option flatten_partitions (map_of lo t)"
    using assms(1) by (simp add: flattenOffsets_fold fold_mput_lookup find_rev_map_of option.map_comp comp_def
        split: option.split)
  moreover have "gomap_ok parts" if "map_of lo t = Some parts" for parts
    using assms(2) map_of_SomeD[OF that] by (auto simp: list_all_iff)
  ultimately show ?thesis
    using flattenOffsets_ok by (cases "map_of lo t") (auto simp: flatten_partitions_lookup)
qed

subsection \<open>Groups and committed offsets\<close>

lemma committed_topics_ok: "gomap_ok (committed_topics resp)"
proof -
  have "gomap_ok m \<Longrightarrow> gomap_ok (fold (\<lambda>o' topics. if or_Err o' \<noteq> None then topics
      else mput topics (or_Topic o') ()) resp m)" for m
    by (induction resp arbitrary: m) auto
  then show ?thesis by (simp add: committed_topics_def)
qed

lemma dom_mput [simp]: "fst ` set (mput m k v) = insert k (fst ` set m)"
  by (induction m) auto

lemma committed_topics_dom:
  "fst ` set (committed_topics resp) = set (map or_Topic (filter (\<lambda>r. or_Err r = None) resp))"
proof -
  have "fst ` set (fold (\<lambda>o' topics. if or_Err o' \<noteq> None then topics
      else mput topics (or_Topic o') ()) resp m) = fst ` set m \<union> set (map or_Topic (filter (\<lambda>r. or_Err r = None) resp))" for m
    by (induction resp arbitrary: m) auto
  from this[of "[]"] show ?thesis by (simp add: committed_topics_def)
qed

text \<open>The answers of the fetches one after the other, and the world after them.\<close>

fun fetch_all :: "'w kadm \<Rightarrow> gostring list \<Rightarrow> 'w \<Rightarrow> (gostring + kadm_offset_response list) list \<times> 'w" where
  "fetch_all adm [] w = ([], w)"
| "fetch_all adm (g # gs) w =
     (let (r, w1) = FetchOffsets adm g w; (rs, w2) = fetch_all adm gs w1 in (r # rs, w2))"

definition answered :: "gostring list \<Rightarrow> (gostring + kadm_offset_response list) list
    \<Rightarrow> (gostring \<times> kadm_offset_response list) list" where
  "answered gs rs = concat (map (\<lambda>(g, r). case r of Inl e \<Rightarrow> [] | Inr resp \<Rightarrow> [(g, resp)]) (zip gs rs))"

lemma committed_loop_fold:
  "committed_loop adm gs out w =
     (let (rs, w') = fetch_all adm gs w
      in (Inr (fold (\<lambda>x m. mput m (fst x) (committed_topics (snd x))) (answered gs rs) out), w'))"
  by (induction adm gs out w rule: committed_loop.induct)
    (auto simp: answered_def Let_def split: prod.splits sum.splits)

lemma answered_ok: "distinct gs \<Longrightarrow> gomap_ok (answered gs rs)"
proof (induction gs arbitrary: rs)
  case (Cons g gs)
  have "g \<notin> fst ` set (answered gs rs')" for rs'
    using Cons.prems by (auto simp: answered_def split: sum.splits dest: set_zip_leftD)
  with Cons show ?case
    by (cases rs) (auto simp: answered_def gomap_ok_def split: sum.split)
qed (simp add: answered_def)

text \<open>\<open>CommittedOffsets\<close> never fails: a group whose fetch fails is left out, and every other
  one is mapped to the topics it has an offset without error on.\<close>

theorem committed_offsets_correct:
  assumes "distinct gs" "fetch_all adm gs w = (rs, w')"
  shows "\<exists>m. client_CommittedOffsets adm gs w = (Inr m, w') \<and> nested_ok m \<and>
     map_option (\<lambda>topics. fst ` set topics) (map_of m g) =
     map_option (\<lambda>resp. set (map or_Topic (filter (\<lambda>r. or_Err r = None) resp))) (map_of (answered gs rs) g)"
proof -
  let ?m = "fold (\<lambda>x m. mput m (fst x) (committed_topics (snd x))) (answered gs rs) []"
  have "client_CommittedOffsets adm gs w = (Inr ?m, w')"
    by (simp add: client_CommittedOffsets_def committed_loop_fold assms(2))
  moreover have "nested_ok ?m" by (rule fold_nested_ok) (simp_all add: committed_topics_ok)
  moreover have "map_of ?m g = map_option committed_topics (map_of (answered gs rs) g)"
    using answered_ok[OF assms(1)]
    by (simp add: fold_mput_lookup find_rev_map_of option.map_comp comp_def split: option.split)
  ultimately show ?thesis
    by (auto simp: option.map_comp comp_def committed_topics_dom)
qed

end
