(* ===== verification/Collect.thy ===== *)
theory Collect
  imports RuleTypes KafkaFacts
begin

text \<open>
  Building a snapshot from the reads (\<open>internal/collect/collect.go\<close>). The \<open>reader\<close>
  interface is a record of calls, \<open>kafka_reader\<close> the one the Kafka client provides; the
  clock and the sleep of the sample window are parameters. The mapping helpers are pure
  functions of the replies, and \<open>build\<close> is the sequence of reads, in the code's order, that
  ends at the first error.
\<close>

subsection \<open>The reader and the options\<close>

record 'w reader =
  rd_Brokers :: "('w, brokerInfo list) call"
  rd_Topics :: "('w, topicInfo list) call"
  rd_TopicConfigs :: "gostring list \<Rightarrow> ('w, (gostring, topicConfig) gomap) call"
  rd_LogDirSizes :: "('w, i64 list by_partition) call"
  rd_StartOffsets :: "('w, i64 by_partition) call"
  rd_EndOffsets :: "('w, i64 by_partition) call"
  rd_Groups :: "('w, groupInfo list) call"
  rd_CommittedOffsets :: "gostring list \<Rightarrow> ('w, (gostring, (gostring, unit) gomap) gomap) call"

definition kafka_reader :: "'w kadm \<Rightarrow> 'w reader" where
  "kafka_reader adm =
     \<lparr>rd_Brokers = client_Brokers adm, rd_Topics = client_Topics adm,
      rd_TopicConfigs = client_TopicConfigs adm, rd_LogDirSizes = client_LogDirSizes adm,
      rd_StartOffsets = client_StartOffsets adm, rd_EndOffsets = client_EndOffsets adm,
      rd_Groups = client_Groups adm, rd_CommittedOffsets = client_CommittedOffsets adm\<rparr>"

text \<open>A \<open>time.Duration\<close> is a number of nanoseconds.\<close>

record options =
  o_ClusterName :: gostring
  o_Provider :: gostring
  o_Now :: gotime
  o_SampleWindow :: i64
  o_IncludeInternal :: bool

definition duration_seconds :: "i64 \<Rightarrow> f64" where
  "duration_seconds d =
     (let sec = go_quot d 1000000000; nsec = d - sec * 1000000000
      in of_i64 sec + of_i64 nsec / fl 1000000000)"

subsection \<open>Mapping helpers\<close>

definition dropInternal :: "topicInfo list \<Rightarrow> topicInfo list" where
  "dropInternal ts = filter (\<lambda>t. \<not> (ti_IsInternal t \<or> hasPrefix (ti_Name t) ''__'')) ts"

definition topicNames :: "topicInfo list \<Rightarrow> gostring list" where
  "topicNames ts = map ti_Name ts"

definition sum_sizes :: "i64 list \<Rightarrow> i64 \<Rightarrow> i64" where
  "sum_sizes bs acc = fold (\<lambda>b acc. acc + b) bs acc"

definition sumReplicaBytes :: "(i32, i64 list) gomap \<Rightarrow> i64" where
  "sumReplicaBytes parts = fold (\<lambda>(pid, replicas) acc. sum_sizes replicas acc) parts 0"

definition perPartitionBytes :: "(i32, i64 list) gomap \<Rightarrow> i64 list" where
  "perPartitionBytes parts =
     (if parts = [] then []
      else
        let pids = slice_stable (\<lambda>a b. a <s b) (map fst parts)
        in map (\<lambda>pid. sum_sizes (mget [] parts pid) 0) pids)"

definition span_step :: "(i32, i64) gomap \<Rightarrow> (i32, i64) gomap \<Rightarrow> i32 \<times> i32 list
    \<Rightarrow> i64 \<times> i64 \<times> bool \<Rightarrow> i64 \<times> i64 \<times> bool" where
  "span_step starts ends p acc =
     (let (earliest, latest, first) = acc; pid = fst p;
          earliest' = (case map_of starts pid of
              Some s \<Rightarrow> if first \<or> s <s earliest then s else earliest
            | None \<Rightarrow> earliest);
          latest' = (case map_of ends pid of
              Some e \<Rightarrow> if latest <s e then e else latest
            | None \<Rightarrow> latest)
      in (earliest', latest', False))"

definition offsetSpan :: "topicInfo \<Rightarrow> (i32, i64) gomap \<Rightarrow> (i32, i64) gomap \<Rightarrow> i64 \<times> i64" where
  "offsetSpan t starts ends =
     (let (earliest, latest, first) = fold (span_step starts ends) (ti_Replicas t) (0, 0, True)
      in (earliest, latest))"

definition isInactiveState :: "gostring \<Rightarrow> bool" where
  "isInactiveState state =
     (let s = to_lower (trim_space state) in s = ''empty'' \<or> s = ''dead'' \<or> s = '''')"

definition activeConsumers :: "groupInfo list \<Rightarrow> (gostring, (gostring, unit) gomap) gomap
    \<Rightarrow> (gostring, i64) gomap" where
  "activeConsumers groups committed =
     fold (\<lambda>g out.
        if isInactiveState (gi_State g) then out
        else fold (\<lambda>(topic, _) out. mput out topic (mget 0 out topic + 1))
               (mget [] committed (gi_GroupID g)) out) groups []"

definition mapBrokers :: "brokerInfo list \<Rightarrow> i64 list by_partition \<Rightarrow> broker list" where
  "mapBrokers brokers logDirs = map (\<lambda>b. \<lparr>BrokerID = word_of_int (sint (bi_ID b)), LogDirBytes = 0\<rparr>) brokers"

definition mapGroups :: "groupInfo list \<Rightarrow> consumerGrp list" where
  "mapGroups groups =
     map (\<lambda>g. \<lparr>GroupID = gi_GroupID g, State = gi_State g, LastCommitAgeDays = - 1\<rparr>) groups"

definition record_deltas :: "(i32, i64) gomap \<Rightarrow> (i32, i64) gomap \<Rightarrow> (i32, i64) gomap \<Rightarrow> i64 \<times> i64" where
  "record_deltas starts end0 end1 =
     fold (\<lambda>(pid, e0) (totalRecords, deltaRecords).
        let s = mget 0 starts pid
        in (if s <s e0 then totalRecords + (e0 - s) else totalRecords,
            case map_of end1 pid of
              Some e1 \<Rightarrow> if e0 <s e1 then deltaRecords + (e1 - e0) else deltaRecords
            | None \<Rightarrow> deltaRecords)) end0 (0, 0)"

definition estimateBytesInPerSec :: "i64 \<Rightarrow> (i32, i64) gomap \<Rightarrow> (i32, i64) gomap \<Rightarrow> (i32, i64) gomap
    \<Rightarrow> f64 \<Rightarrow> f64" where
  "estimateBytesInPerSec retained starts end0 end1 windowSecs =
     (if windowSecs \<le> 0 then 0
      else
        let (totalRecords, deltaRecords) = record_deltas starts end0 end1
        in if totalRecords \<le>s 0 \<or> deltaRecords \<le>s 0 \<or> retained \<le>s 0 then 0
           else
             let avgRecordBytes = of_i64 retained / of_i64 totalRecords
             in (of_i64 deltaRecords / windowSecs) * avgRecordBytes)"

definition retentionMs :: "gostring option \<Rightarrow> i64" where
  "retentionMs v =
     (case v of None \<Rightarrow> - 1
      | Some s \<Rightarrow> (case parse_int (trim_space s) of None \<Rightarrow> - 1 | Some n \<Rightarrow> n))"

definition strOr :: "gostring option \<Rightarrow> gostring \<Rightarrow> gostring" where
  "strOr v def = (case v of None \<Rightarrow> def | Some s \<Rightarrow> if s = '''' then def else s)"

definition collect_clusterName :: "options \<Rightarrow> gostring" where
  "collect_clusterName opts = (if o_ClusterName opts \<noteq> '''' then o_ClusterName opts else ''kafka-cluster'')"

definition providerOrSelf :: "gostring \<Rightarrow> gostring" where
  "providerOrSelf p = (if p = '''' then ''self'' else p)"

subsection \<open>The snapshot\<close>

text \<open>The replies \<open>build\<close> has collected when it assembles the snapshot.\<close>

record readings =
  x_Brokers :: "brokerInfo list"
  x_Topics :: "topicInfo list"
  x_Configs :: "(gostring, topicConfig) gomap"
  x_LogDirs :: "i64 list by_partition"
  x_Start :: "i64 by_partition"
  x_End :: "i64 by_partition"
  x_Groups :: "groupInfo list"
  x_Committed :: "(gostring, (gostring, unit) gomap) gomap"
  x_End2 :: "i64 by_partition"
  x_WindowSecs :: f64

text \<open>The body of the loop over the topics; \<open>active\<close> is the map of active consumers.\<close>

definition snapshot_topic :: "options \<Rightarrow> readings \<Rightarrow> (gostring, i64) gomap \<Rightarrow> topicInfo \<Rightarrow> topic" where
  "snapshot_topic opts x active t =
     (let name = ti_Name t; conf = mget no_config (x_Configs x) name;
          retained = sumReplicaBytes (mget [] (x_LogDirs x) name);
          (earliest, latest) = offsetSpan t (mget [] (x_Start x) name) (mget [] (x_End x) name);
          top = \<lparr>Name = name, Partitions = ti_Partitions t, ReplicationFactor = ti_ReplicationFactor t,
                 RetentionMs = retentionMs (tc_RetentionMs conf),
                 CompressionType = strOr (tc_CompressionType conf) ''producer'',
                 CleanupPolicy = strOr (tc_CleanupPolicy conf) ''delete'',
                 RetainedBytes = retained, BytesInPerSec = 0, BytesOutPerSec = 0,
                 ThroughputSource = ''none'',
                 PartitionBytes = perPartitionBytes (mget [] (x_LogDirs x) name),
                 EarliestOffset = earliest, LatestOffset = latest, MaxConsumerLagMs = - 1,
                 ActiveConsumers = mget 0 active name\<rparr>
      in if 0 <s o_SampleWindow opts
         then top\<lparr>BytesInPerSec := estimateBytesInPerSec retained (mget [] (x_Start x) name)
                                    (mget [] (x_End x) name) (mget [] (x_End2 x) name) (x_WindowSecs x),
                  BytesOutPerSec := 0, ThroughputSource := ''estimated''\<rparr>
         else top)"

definition assemble :: "options \<Rightarrow> gotime \<Rightarrow> readings \<Rightarrow> snapshot" where
  "assemble opts now x =
     (let active = activeConsumers (x_Groups x) (x_Committed x);
          topics = map (snapshot_topic opts x active) (x_Topics x)
      in \<lparr>TakenAt = now,
          Cluster = \<lparr>ClusterName = collect_clusterName opts, ClusterProvider = providerOrSelf (o_Provider opts)\<rparr>,
          Topics = slice_stable (\<lambda>a b. Name a < Name b) topics,
          Groups = mapGroups (x_Groups x),
          Brokers = mapBrokers (x_Brokers x) (x_LogDirs x)\<rparr>)"

definition read_all :: "'w reader \<Rightarrow> (i64 \<Rightarrow> ('w, unit) call) \<Rightarrow> options \<Rightarrow> ('w, readings) call" where
  "read_all r sleep opts =
     bindE (rd_Brokers r) (\<lambda>brokers.
     bindE (rd_Topics r) (\<lambda>all_topics.
     let topics = (if o_IncludeInternal opts then all_topics else dropInternal all_topics) in
     bindE (rd_TopicConfigs r (topicNames topics)) (\<lambda>configs.
     bindE (rd_LogDirSizes r) (\<lambda>logDirs.
     bindE (rd_StartOffsets r) (\<lambda>startOff.
     bindE (rd_EndOffsets r) (\<lambda>endOff.
     bindE (rd_Groups r) (\<lambda>groups.
     bindE (rd_CommittedOffsets r (map gi_GroupID groups)) (\<lambda>committed.
     bindE (if 0 <s o_SampleWindow opts
            then bindE (sleep (o_SampleWindow opts)) (\<lambda>_.
                 bindE (rd_EndOffsets r) (\<lambda>end2.
                 returnE (end2, duration_seconds (o_SampleWindow opts))))
            else returnE ([], 0)) (\<lambda>(endOff2, windowSecs).
     returnE \<lparr>x_Brokers = brokers, x_Topics = topics, x_Configs = configs, x_LogDirs = logDirs,
              x_Start = startOff, x_End = endOff, x_Groups = groups, x_Committed = committed,
              x_End2 = endOff2, x_WindowSecs = windowSecs\<rparr>)))))))))"

definition build :: "'w reader \<Rightarrow> ('w \<Rightarrow> gotime \<times> 'w) \<Rightarrow> (i64 \<Rightarrow> ('w, unit) call) \<Rightarrow> options
    \<Rightarrow> ('w, snapshot) call" where
  "build r clock sleep opts w =
     (let (now, w') = (if IsZero (o_Now opts) then clock w else (o_Now opts, w))
      in bindE (read_all r sleep opts) (\<lambda>x. returnE (assemble opts now x)) w')"

text \<open>\<open>Build\<close>, on the Kafka client.\<close>

definition collect_Build :: "'w kadm \<Rightarrow> ('w \<Rightarrow> gotime \<times> 'w) \<Rightarrow> (i64 \<Rightarrow> ('w, unit) call) \<Rightarrow> options
    \<Rightarrow> ('w, snapshot) call" where
  "collect_Build adm clock ctxSleep opts = build (kafka_reader adm) clock ctxSleep opts"

end
