(* ===== verification/CollectFacts.thy ===== *)
theory CollectFacts
  imports Collect RelErr
begin

text \<open>
  The mapping helpers of \<open>collect\<close>, one by one: bytes per partition and in all, the span of
  the offsets, the consumers of a topic, and the throughput estimate, each against what its
  comment promises.
\<close>

subsection \<open>Bytes\<close>

lemma sum_sizes [simp]: "sum_sizes bs acc = acc + sum_list bs"
  by (induction bs arbitrary: acc) (simp_all add: sum_sizes_def add.assoc)

lemma sumReplicaBytes_sum: "sumReplicaBytes parts = (\<Sum>p\<leftarrow>parts. sum_list (snd p))"
proof -
  have "fold (\<lambda>(pid, replicas) acc. sum_sizes replicas acc) parts acc = acc + (\<Sum>p\<leftarrow>parts. sum_list (snd p))" for acc
    by (induction parts arbitrary: acc) (simp_all add: case_prod_unfold add.assoc)
  from this[of 0] show ?thesis by (simp add: sumReplicaBytes_def)
qed

lemma sless_key: "(\<lambda>a b. a <s b) = (\<lambda>a b :: i32. sint a < sint b)"
  by (simp add: fun_eq_iff word_sless_alt)

lemma sum_list_mset_eq: "mset xs = mset ys \<Longrightarrow> sum_list xs = sum_list ys" for xs :: "'a :: comm_monoid_add list"
  by (metis sum_mset_sum_list)

lemma sum_over_keys:
  fixes f :: "'v \<Rightarrow> 'a :: comm_monoid_add"
  assumes "gomap_ok parts" "mset pids = mset (map fst parts)"
  shows "(\<Sum>p\<leftarrow>pids. f (mget d parts p)) = (\<Sum>q\<leftarrow>parts. f (snd q))"
proof -
  have "(\<Sum>p\<leftarrow>pids. f (mget d parts p)) = (\<Sum>p\<leftarrow>map fst parts. f (mget d parts p))"
    by (rule sum_list_mset_eq) (simp only: mset_map[of "\<lambda>p. f (mget d parts p)"] assms(2))
  also have "map (\<lambda>p. f (mget d parts p)) (map fst parts) = map (\<lambda>q. f (snd q)) parts"
    using assms(1) by (auto simp: mget_in)
  finally show ?thesis .
qed

definition sorted_pids :: "(i32, 'v) gomap \<Rightarrow> i32 list" where
  "sorted_pids parts = slice_stable (\<lambda>a b. a <s b) (map fst parts)"

lemma perPartitionBytes_map: "perPartitionBytes parts = map (\<lambda>p. sum_list (mget [] parts p)) (sorted_pids parts)"
  by (cases "parts = []") (simp_all add: perPartitionBytes_def sorted_pids_def Let_def)

lemma sorted_pids_strict:
  assumes "gomap_ok parts"
  shows "sorted_wrt (<) (map sint (sorted_pids parts))"
proof -
  have "distinct (map sint (map fst parts))"
    unfolding distinct_map[of sint] using assms
    by (auto simp: gomap_ok_def intro!: inj_onI intro: signed_word_eqI)
  then show ?thesis unfolding sorted_pids_def sless_key by (rule sort_key_strict)
qed

lemma sum_partitions: "gomap_ok parts \<Longrightarrow> sum_list (perPartitionBytes parts) = sumReplicaBytes parts"
  using sum_over_keys[of parts "sorted_pids parts" sum_list "[]"]
  by (simp add: perPartitionBytes_map sumReplicaBytes_sum sorted_pids_def comp_def)

text \<open>The sizes per partition are in the order of the partition ids and add up to the
  topic's retained bytes (both modulo \<open>2 ^ 64\<close>), whatever the order of the map.\<close>

lemma partition_bytes_sum:
  assumes "gomap_ok parts"
  shows "sum_list (perPartitionBytes parts) = sumReplicaBytes parts \<and>
     (\<exists>pids. sorted_wrt (<) (map sint pids) \<and> set pids = fst ` set parts \<and>
        perPartitionBytes parts = map (\<lambda>p. sum_list (mget [] parts p)) pids)"
  using sum_partitions[OF assms] sorted_pids_strict[OF assms]
  by (intro conjI exI[of _ "sorted_pids parts"])
    (simp_all add: perPartitionBytes_map sorted_pids_def)

text \<open>The sum of a topic's replicas is what the brokers reported for it.\<close>

lemma sum_mput:
  "(\<Sum>p\<leftarrow>mput tp k (mget [] tp k @ [x]). sum_list (snd p)) = (\<Sum>p\<leftarrow>tp. sum_list (snd p)) + (x :: i64)"
  by (induction tp) (auto simp: mget_Cons add_ac)

lemma sumReplicaBytes_reported:
  "sumReplicaBytes (mget [] (replica_sizes dirs) t) =
     (\<Sum>e\<leftarrow>filter (\<lambda>e. \<not> ld_IsFuture e \<and> ld_Topic e = t) (concat (map snd dirs)). ld_Size e)"
proof -
  have "sumReplicaBytes (mget [] (fold add_replica_size es []) t) =
      (\<Sum>e\<leftarrow>filter (\<lambda>e. \<not> ld_IsFuture e \<and> ld_Topic e = t) es. ld_Size e)" for es
  proof (induction es rule: rev_induct)
    case Nil
    then show ?case by (simp add: sumReplicaBytes_sum)
  next
    case (snoc e es)
    define m where "m = fold add_replica_size es []"
    have "sumReplicaBytes (mget [] (add_replica_size e m) t) =
        sumReplicaBytes (mget [] m t) + (if \<not> ld_IsFuture e \<and> ld_Topic e = t then ld_Size e else 0)"
      by (simp add: add_replica_size_def Let_def sumReplicaBytes_sum sum_mput)
    then show ?case using snoc[folded m_def] by (simp flip: m_def)
  qed
  then show ?thesis by (simp add: replica_sizes_concat)
qed

lemma sint_sum_list:
  assumes "list_all (\<lambda>x. 0 \<le> sint x) xs" "(\<Sum>x\<leftarrow>xs. sint x) < 2 ^ 63"
  shows "sint (sum_list xs) = (\<Sum>x\<leftarrow>xs. sint (x :: i64))"
  using assms
proof (induction xs)
  case (Cons x xs)
  have "0 \<le> (\<Sum>x\<leftarrow>xs. sint x)" using Cons.prems(1) by (intro sum_list_nonneg) (auto simp: list_all_iff)
  with Cons show ?case by (simp add: sint_add_in_range)
qed simp

text \<open>C31: A topic's retained bytes are the true footprint: the sum of what all brokers report
  for its replicas, shadow replicas left out, as long as that fits into 63 bits.\<close>

theorem retained_bytes_footprint:
  assumes "DescribeAllLogDirs adm w = (Inr dirs, w')"
    and "es = filter (\<lambda>e. \<not> ld_IsFuture e \<and> ld_Topic e = t) (concat (map snd dirs))"
    and "list_all (\<lambda>e. 0 \<le> sint (ld_Size e)) es" "(\<Sum>e\<leftarrow>es. sint (ld_Size e)) < 2 ^ 63"
  shows "\<exists>m. client_LogDirSizes adm w = (Inr m, w') \<and>
     sint (sumReplicaBytes (mget [] m t)) = (\<Sum>e\<leftarrow>es. sint (ld_Size e))"
proof -
  have "sint (\<Sum>e\<leftarrow>es. ld_Size e) = (\<Sum>e\<leftarrow>es. sint (ld_Size e))"
    using sint_sum_list[of "map ld_Size es"] assms(3,4) by (simp add: comp_def list_all_length)
  then show ?thesis using assms(1)
    by (simp add: client_LogDirSizes_def bindE_def wrapE_def returnE_def sumReplicaBytes_reported assms(2))
qed

subsection \<open>Offsets\<close>

text \<open>The offsets a map knows for some partitions.\<close>

definition known_offsets :: "(i32, i64) gomap \<Rightarrow> i32 set \<Rightarrow> int set" where
  "known_offsets m ps = {sint o' | p o'. p \<in> ps \<and> map_of m p = Some o'}"

definition has_offset :: "(i32, i64) gomap \<Rightarrow> i32 \<Rightarrow> bool" where
  "has_offset m p \<longleftrightarrow> map_of m p \<noteq> None"

lemma known_offsets_insert:
  "known_offsets m (insert p ps) =
     (case map_of m p of None \<Rightarrow> known_offsets m ps | Some o' \<Rightarrow> insert (sint o') (known_offsets m ps))"
  unfolding known_offsets_def by (auto split: option.split)

lemma known_offsets_empty [simp]: "known_offsets m {} = {}"
  by (simp add: known_offsets_def)

lemma finite_known_offsets: "finite ps \<Longrightarrow> finite (known_offsets m ps)"
  by (induction ps rule: finite_induct) (simp_all add: known_offsets_insert split: option.split)

lemma span_latest:
  "sint (fst (snd (fold (span_step starts ends) reps (e, l, f)))) =
     Max (insert (sint l) (known_offsets ends (fst ` set reps)))"
proof (induction reps arbitrary: e l f)
  case (Cons r reps)
  let ?S = "known_offsets ends (fst ` set reps)"
  obtain e' l' where step: "span_step starts ends r (e, l, f) = (e', l', False)"
    and l': "l' = (case map_of ends (fst r) of None \<Rightarrow> l | Some o' \<Rightarrow> if l <s o' then o' else l)"
    by (simp add: span_step_def Let_def)
  have "sint l' = (case map_of ends (fst r) of None \<Rightarrow> sint l | Some o' \<Rightarrow> max (sint l) (sint o'))"
    unfolding l' by (simp add: signed_cmp split: option.split)
  then show ?case
    using Cons[of e' l' False] finite_known_offsets[of "fst ` set reps" ends]
    by (cases "?S = {}") (auto simp: step known_offsets_insert max.assoc split: option.split)
qed simp

lemma span_earliest:
  "sint (fst (fold (span_step starts ends) reps (e, l, False))) =
     Min (insert (sint e) (known_offsets starts (fst ` set reps)))"
proof (induction reps arbitrary: e l)
  case (Cons r reps)
  let ?S = "known_offsets starts (fst ` set reps)"
  obtain e' l' where step: "span_step starts ends r (e, l, False) = (e', l', False)"
    and e': "e' = (case map_of starts (fst r) of None \<Rightarrow> e | Some s \<Rightarrow> if s <s e then s else e)"
    by (auto simp: span_step_def Let_def split: option.split)
  have "sint e' = (case map_of starts (fst r) of None \<Rightarrow> sint e | Some s \<Rightarrow> min (sint e) (sint s))"
    unfolding e' by (simp add: signed_cmp split: option.split)
  then show ?case
    using Cons[of e' l'] finite_known_offsets[of "fst ` set reps" starts]
    by (cases "?S = {}") (auto simp: step known_offsets_insert min.assoc split: option.split)
qed simp

text \<open>C40: The span \<open>offsetSpan\<close> computes, for every topic and every pair of replies. The latest
  offset is the largest known end offset of the topic's partitions, and at least 0. The earliest
  is the least known start offset when the partition the map is visited at first has one; when
  that one is missing (or there is no partition) it is the least of 0 and the known ones, so it
  depends on the order of the map whenever some offsets are known and some are not.\<close>

theorem offset_span_exact:
  "sint (snd (offsetSpan t starts ends)) = Max (insert 0 (known_offsets ends (fst ` set (ti_Replicas t)))) \<and>
   sint (fst (offsetSpan t starts ends)) =
     (if ti_Replicas t \<noteq> [] \<and> has_offset starts (fst (hd (ti_Replicas t)))
      then Min (known_offsets starts (fst ` set (ti_Replicas t)))
      else Min (insert 0 (known_offsets starts (fst ` set (ti_Replicas t)))))"
proof
  show "sint (snd (offsetSpan t starts ends)) = Max (insert 0 (known_offsets ends (fst ` set (ti_Replicas t))))"
    using span_latest[of starts ends "ti_Replicas t" 0 0 True]
    by (simp add: offsetSpan_def Let_def case_prod_unfold)
  have span: "fst (offsetSpan t starts ends) = fst (fold (span_step starts ends) (ti_Replicas t) (0, 0, True))"
    by (simp add: offsetSpan_def case_prod_unfold Let_def)
  show "sint (fst (offsetSpan t starts ends)) =
     (if ti_Replicas t \<noteq> [] \<and> has_offset starts (fst (hd (ti_Replicas t)))
      then Min (known_offsets starts (fst ` set (ti_Replicas t)))
      else Min (insert 0 (known_offsets starts (fst ` set (ti_Replicas t)))))"
  proof (cases "ti_Replicas t")
    case (Cons r reps)
    obtain l' where "span_step starts ends r (0, 0, True) =
        ((case map_of starts (fst r) of None \<Rightarrow> 0 | Some s \<Rightarrow> s), l', False)"
      by (auto simp: span_step_def Let_def split: option.split)
    then show ?thesis
      unfolding span Cons by (simp add: span_earliest known_offsets_insert has_offset_def split: option.split)
  qed (simp add: span)
qed

text \<open>Partition 1 starts at 500 and the start of partition 0 is unknown: the code answers 0 or 500.\<close>

definition two_partitions :: "bool \<Rightarrow> topicInfo" where
  "two_partitions swapped =
     \<lparr>ti_Name = ''orders'', ti_IsInternal = False, ti_Partitions = 2, ti_ReplicationFactor = 1,
      ti_Replicas = (if swapped then [(1, [1]), (0, [1])] else [(0, [1]), (1, [1])])\<rparr>"

lemma offset_span_order_dependent:
  "fst (offsetSpan (two_partitions False) [(1, 500)] []) = 0"
  "fst (offsetSpan (two_partitions True) [(1, 500)] []) = 500"
  by (simp_all add: two_partitions_def offsetSpan_def span_step_def Let_def signed_cmp)

subsection \<open>Consumers\<close>

lemma fold_count:
  assumes "gomap_ok tps"
  shows "mget 0 (fold (\<lambda>(topic, _) out. mput out topic (mget 0 out topic + 1)) tps out) t
      = mget 0 out t + (if t \<in> fst ` set tps then 1 else (0 :: i64))"
  using assms
proof (induction tps arbitrary: out)
  case (Cons tp tps)
  then show ?case by (cases tp) (auto simp: gomap_ok_Cons)
qed simp

text \<open>A group is live on a topic when it has committed offsets on it and its state, without
  surrounding space and in lower case, is none of \<open>empty\<close>, \<open>dead\<close> and the empty string.\<close>

definition live_on :: "(gostring, (gostring, unit) gomap) gomap \<Rightarrow> gostring \<Rightarrow> groupInfo \<Rightarrow> bool" where
  "live_on committed t g \<longleftrightarrow>
     to_lower (trim_space (gi_State g)) \<notin> {''empty'', ''dead'', ''''} \<and>
     t \<in> fst ` set (mget [] committed (gi_GroupID g))"

text \<open>C32: The active consumers of a topic are the groups that have committed offsets on it and
  whose state is not Empty, Dead or missing, in any case and with any space around it; other
  groups and topics do not count.\<close>

theorem active_consumers_count:
  assumes "nested_ok committed"
  shows "mget 0 (activeConsumers groups committed) t = len (filter (live_on committed t) groups)"
proof -
  have "mget 0 (fold (\<lambda>g out. if isInactiveState (gi_State g) then out
        else fold (\<lambda>(topic, _) out. mput out topic (mget 0 out topic + 1)) (mget [] committed (gi_GroupID g)) out)
      groups out) t = mget 0 out t + len (filter (live_on committed t) groups)" for out
  proof (induction groups arbitrary: out)
    case (Cons g groups)
    then show ?case
      by (simp add: fold_count[OF nested_ok_mget[OF assms]] live_on_def isInactiveState_def Let_def len_def)
  qed (simp add: len_def)
  then show ?thesis by (simp add: activeConsumers_def)
qed

definition four_groups :: "groupInfo list" where
  "four_groups =
     [\<lparr>gi_GroupID = ''web'', gi_State = ''Stable''\<rparr>, \<lparr>gi_GroupID = ''old'', gi_State = '' Dead ''\<rparr>,
      \<lparr>gi_GroupID = ''etl'', gi_State = ''CompletingRebalance''\<rparr>, \<lparr>gi_GroupID = ''batch'', gi_State = ''Empty''\<rparr>]"

definition four_commits :: "(gostring, (gostring, unit) gomap) gomap" where
  "four_commits =
     [(''web'', [(''orders'', ())]), (''old'', [(''orders'', ())]), (''etl'', [(''clicks'', ())]),
      (''batch'', [(''orders'', ()), (''clicks'', ())])]"

theorem active_consumers_count_witness:
  "mget 0 (activeConsumers four_groups four_commits) ''orders'' = 1"
proof -
  have "nested_ok four_commits" by code_simp
  moreover have "len (filter (live_on four_commits ''orders'') four_groups) = 1" by code_simp
  ultimately show ?thesis using active_consumers_count[of four_commits four_groups "''orders''"] by simp
qed

subsection \<open>Throughput\<close>

definition offsets_ok :: "(i32, i64) gomap \<Rightarrow> bool" where
  "offsets_ok m \<longleftrightarrow> list_all (\<lambda>p. 0 \<le> sint (snd p)) m"

text \<open>The records retained and the records produced in the window, as integers.\<close>

definition retained_records :: "(i32, i64) gomap \<Rightarrow> (i32, i64) gomap \<Rightarrow> int" where
  "retained_records starts end0 = (\<Sum>q\<leftarrow>end0. max 0 (sint (snd q) - sint (mget 0 starts (fst q))))"

definition new_records :: "(i32, i64) gomap \<Rightarrow> (i32, i64) gomap \<Rightarrow> int" where
  "new_records end0 end1 =
     (\<Sum>q\<leftarrow>end0. case map_of end1 (fst q) of Some e1 \<Rightarrow> max 0 (sint e1 - sint (snd q)) | None \<Rightarrow> 0)"

lemma offsets_okD: "offsets_ok m \<Longrightarrow> map_of m p = Some v \<Longrightarrow> 0 \<le> sint v"
  by (auto simp: offsets_ok_def list_all_iff dest!: map_of_SomeD)

lemma offsets_ok_mget: "offsets_ok m \<Longrightarrow> 0 \<le> sint (mget 0 m p)"
  by (auto simp: mget_def offsets_okD split: option.split)

lemma records_nonneg: "0 \<le> retained_records starts end0" "0 \<le> new_records end0 end1"
  unfolding retained_records_def new_records_def by (auto intro!: sum_list_nonneg split: option.split)

lemma add_if_larger:
  fixes a x y :: i64
  assumes "0 \<le> sint a" "0 \<le> sint x" "0 \<le> sint y" "sint a + max 0 (sint y - sint x) < 2 ^ 63"
  shows "sint (if x <s y then a + (y - x) else a) = sint a + max 0 (sint y - sint x)"
proof -
  have "sint (y - x) = sint y - sint x"
    using assms(2,3) sint_range[of x] sint_range[of y] by (intro sint_sub_in_range) linarith+
  then show ?thesis using assms by (auto simp: signed_cmp sint_add_in_range)
qed

lemma record_deltas_exact:
  assumes "offsets_ok starts" "offsets_ok end0" "offsets_ok end1"
    and "retained_records starts end0 < 2 ^ 63" "new_records end0 end1 < 2 ^ 63"
  shows "sint (fst (record_deltas starts end0 end1)) = retained_records starts end0"
    "sint (snd (record_deltas starts end0 end1)) = new_records end0 end1"
proof -
  let ?step = "\<lambda>(pid, e0) (totalRecords, deltaRecords).
      let s = mget 0 starts pid
      in (if s <s e0 then totalRecords + (e0 - s) else totalRecords,
          case map_of end1 pid of
            Some e1 \<Rightarrow> if e0 <s e1 then deltaRecords + (e1 - e0) else deltaRecords
          | None \<Rightarrow> deltaRecords)"
  have "sint (fst (fold ?step xs (a, b))) = sint a + retained_records starts xs \<and>
        sint (snd (fold ?step xs (a, b))) = sint b + new_records xs end1"
    if "offsets_ok xs" "0 \<le> sint a" "0 \<le> sint b" "sint a + retained_records starts xs < 2 ^ 63"
      "sint b + new_records xs end1 < 2 ^ 63" for xs a b
    using that
  proof (induction xs arbitrary: a b)
    case (Cons q xs)
    obtain p e0 where q: "q = (p, e0)" by (cases q)
    have e0: "0 \<le> sint e0" "offsets_ok xs" using Cons.prems(1) by (simp_all add: offsets_ok_def q)
    let ?dt = "max 0 (sint e0 - sint (mget 0 starts p))"
    let ?dd = "case map_of end1 p of Some e1 \<Rightarrow> max 0 (sint e1 - sint e0) | None \<Rightarrow> 0"
    have split: "retained_records starts (q # xs) = ?dt + retained_records starts xs"
      "new_records (q # xs) end1 = ?dd + new_records xs end1"
      by (simp_all add: retained_records_def new_records_def q split: option.split)
    note nn = records_nonneg(1)[of starts xs] records_nonneg(2)[of xs end1]
    have dd: "0 \<le> ?dd" by (simp split: option.split)
    obtain a' b' where step: "?step q (a, b) = (a', b')" by (cases "?step q (a, b)")
    then have a': "a' = (if mget 0 starts p <s e0 then a + (e0 - mget 0 starts p) else a)"
      and b': "b' = (case map_of end1 p of Some e1 \<Rightarrow> if e0 <s e1 then b + (e1 - e0) else b | None \<Rightarrow> b)"
      by (simp_all add: q Let_def)
    have "sint a' = sint a + ?dt" unfolding a'
      using Cons.prems(2,4) e0 split(1) nn(1) offsets_ok_mget[OF assms(1)] by (intro add_if_larger) auto
    moreover have "sint b' = sint b + ?dd"
    proof (cases "map_of end1 p")
      case (Some e1)
      then show ?thesis unfolding b'
        using Cons.prems(3,5) e0 split(2) nn(2) offsets_okD[OF assms(3) Some] add_if_larger[of b e0 e1]
        by (simp add: Some)
    qed (simp add: b')
    ultimately show ?case
      using Cons.IH[of a' b'] Cons.prems e0 split dd nn by (simp add: step)
  qed (simp add: retained_records_def new_records_def)
  from this[of end0 0 0] assms
  show "sint (fst (record_deltas starts end0 end1)) = retained_records starts end0"
    "sint (snd (record_deltas starts end0 end1)) = new_records end0 end1"
    by (simp_all add: record_deltas_def)
qed

definition window_length :: "i64 \<Rightarrow> rat" where
  "window_length d = of_int (sint d) / 1000000000"

lemma int_div_le: "a div b \<le> a" if "0 < a" "0 < b" for a b :: int
proof -
  have "a div b * 1 \<le> a div b * b" using that by (intro mult_left_mono) (auto simp: pos_imp_zdiv_nonneg_iff)
  also have "\<dots> \<le> a" using that by (simp flip: minus_mod_eq_div_mult)
  finally show ?thesis by simp
qed

lemma go_quot_pos: "0 < sint d \<Longrightarrow> 0 < sint c \<Longrightarrow> sint (go_quot d c) = sint d div sint c"
proof -
  assume dc: "0 < sint d" "0 < sint c"
  then have "sint d div sint c \<le> sint d" "0 \<le> sint d div sint c"
    by (simp_all add: int_div_le pos_imp_zdiv_nonneg_iff)
  then have "sint (word_of_int (sint d div sint c) :: i64) = sint d div sint c"
    using sint_range[of d] by (intro sint_eq_of_int) linarith+
  then show ?thesis using dc by (simp add: go_quot_def)
qed

lemma duration_parts:
  assumes "0 < sint d"
  shows "sint (go_quot d 1000000000) = sint d div 1000000000"
    "sint (d - go_quot d 1000000000 * 1000000000) = sint d mod 1000000000"
proof -
  have c: "sint (1000000000 :: i64) = 1000000000" by simp
  show q: "sint (go_quot d 1000000000) = sint d div 1000000000"
    using go_quot_pos[OF assms, of 1000000000] by simp
  have "0 \<le> sint d div 1000000000" using assms by (simp add: pos_imp_zdiv_nonneg_iff)
  moreover have e: "sint d div 1000000000 * 1000000000 = sint d - sint d mod 1000000000"
    by (simp add: minus_mod_eq_div_mult)
  moreover have "0 \<le> sint d mod 1000000000" "sint d mod 1000000000 < 1000000000" by simp_all
  ultimately have r: "0 \<le> sint d - sint d mod 1000000000" "sint d - sint d mod 1000000000 < 2 ^ 63"
    using sint_range[of d] by linarith+
  have p: "sint (go_quot d 1000000000) * sint (1000000000 :: i64) = sint d - sint d mod 1000000000"
    unfolding c q by (rule e)
  have m: "sint (go_quot d 1000000000 * 1000000000) = sint d - sint d mod 1000000000"
    using sint_mult_in_range[of "go_quot d 1000000000" 1000000000] r unfolding p by linarith
  have "0 \<le> sint d mod 1000000000" "sint d mod 1000000000 < 1000000000" "(1000000000 :: int) < 2 ^ 63"
    by simp_all
  then have "sint d - sint (go_quot d 1000000000 * 1000000000) = sint d mod 1000000000"
    "- (2 ^ 63) \<le> sint d mod 1000000000" "sint d mod 1000000000 < 2 ^ 63"
    unfolding m by linarith+
  then show "sint (d - go_quot d 1000000000 * 1000000000) = sint d mod 1000000000"
    using sint_sub_in_range[of d "go_quot d 1000000000 * 1000000000"] by metis
qed

lemma int_bounded: "0 \<le> k \<Longrightarrow> k < 2 ^ 63 \<Longrightarrow> rat_of_int k \<le> pow2 64"
proof -
  assume "0 \<le> k" "k < 2 ^ 63"
  then have "rat_of_int k \<le> of_int (2 ^ 64)" unfolding of_int_le_iff by simp
  then show ?thesis by (simp add: pow2_def)
qed

lemma duration_seconds_near:
  assumes "0 < sint d"
  shows "fnear 3 (duration_seconds d) (window_length d)" "pow2 (- 30) \<le> window_length d"
proof -
  let ?q = "sint d div 1000000000" and ?r = "sint d mod 1000000000"
  note parts = duration_parts[OF assms]
  have q0: "0 \<le> ?q" "?q < 2 ^ 63" and r0: "0 \<le> ?r" "?r < 2 ^ 63"
    using assms sint_range[of d] pos_mod_bound[of 1000000000 "sint d"]
      int_div_le[of "sint d" 1000000000]
    by (simp_all add: pos_imp_zdiv_nonneg_iff)
  have s: "fnear 1 (of_i64 (go_quot d 1000000000)) (of_int ?q)"
    using fnear_of_i64[of "go_quot d 1000000000"] q0 by (simp add: parts)
  have n: "fnear 1 (of_i64 (d - go_quot d 1000000000 * 1000000000)) (of_int ?r)"
    using fnear_of_i64[of "d - go_quot d 1000000000 * 1000000000"] r0 by (simp add: parts)
  have g: "fnear 0 (fl 1000000000) 1000000000"
    using fnear_exact[of "Fin 1000000000"] by simp
  have up: "pow2 64 \<le> pow2 900" "pow2 65 \<le> pow2 1000" by (rule pow2_mono; simp)+
  have small: "pow2 (- 30) \<le> 1 / 1000000000" by (simp add: pow2_def)
  have ratio: "rat_of_int ?r / 1000000000 \<le> pow2 64"
    using int_bounded[OF r0] r0 by (simp add: field_simps)
  have lowr: "low (rat_of_int ?r / 1000000000)"
  proof (cases "?r = 0")
    case False
    then have "1 \<le> rat_of_int ?r" using r0 by simp
    then have "pow2 (- 30) \<le> rat_of_int ?r / 1000000000" using small by simp
    then show ?thesis using False by (intro lowI[of _ "- 30"]) auto
  qed simp
  have f: "fnear 2 (of_i64 (d - go_quot d 1000000000 * 1000000000) / fl 1000000000) (of_int ?r / 1000000000)"
    using fnear_div[OF n g _ _ lowr order_trans[OF ratio]] up pow2_mono[of 64 1000]
    by (simp add: numeral_2_eq_2)
  have "window_length d = of_int ?q + of_int ?r / 1000000000"
  proof -
    have "rat_of_int (sint d) = of_int (?q * 1000000000 + ?r)" by simp
    then show ?thesis by (simp only: window_length_def of_int_add of_int_mult) (simp add: add_divide_distrib)
  qed
  moreover have "fnear (Suc 2) (of_i64 (go_quot d 1000000000) +
      of_i64 (d - go_quot d 1000000000 * 1000000000) / fl 1000000000) (of_int ?q + of_int ?r / 1000000000)"
  proof (rule fnear_add[OF fnear_mono[OF s] f _ low_int[OF q0(1)] lowr])
    show "rat_of_int ?q + of_int ?r / 1000000000 \<le> pow2 1000"
      using int_bounded[OF q0] ratio up pow2_Suc[of 64] by simp
  qed simp_all
  ultimately show "fnear 3 (duration_seconds d) (window_length d)"
    by (simp add: duration_seconds_def Let_def numeral_3_eq_3)
  have "1 \<le> rat_of_int (sint d)" using assms by simp
  then show "pow2 (- 30) \<le> window_length d" using small by (simp add: window_length_def)
qed

text \<open>The estimate in exact arithmetic.\<close>

definition exact_rate :: "i64 \<Rightarrow> (i32, i64) gomap \<Rightarrow> (i32, i64) gomap \<Rightarrow> (i32, i64) gomap \<Rightarrow> i64 \<Rightarrow> rat" where
  "exact_rate retained starts end0 end1 d =
     (if 0 < sint retained \<and> 0 < retained_records starts end0
      then of_int (new_records end0 end1) / window_length d
           * (of_int (sint retained) / of_int (retained_records starts end0))
      else 0)"

lemma low_pos_div: "0 < a \<Longrightarrow> 0 < b \<Longrightarrow> rat_of_int b \<le> pow2 64 \<Longrightarrow> pow2 (- 64) \<le> rat_of_int a / of_int b"
proof -
  assume a: "0 < a" "0 < b" "rat_of_int b \<le> pow2 64"
  then have "pow2 (- 64) * of_int b \<le> pow2 (- 64) * pow2 64" by (intro mult_left_mono) auto
  also have "\<dots> = 1" by (simp add: pow2_def)
  also have "\<dots> \<le> rat_of_int a" using a(1) by simp
  finally show ?thesis using a(2) by (simp add: pos_le_divide_eq)
qed

text \<open>The last line of the function, for positive counts.\<close>

lemma estimate_near:
  assumes "0 < sint d" "0 < sint dr" "0 < sint tr" "0 < sint retained"
  shows "fnear 9 ((of_i64 dr / duration_seconds d) * (of_i64 retained / of_i64 tr))
     (of_int (sint dr) / window_length d * (of_int (sint retained) / of_int (sint tr)))"
proof -
  note w = duration_seconds_near[OF assms(1)]
  have wpos: "0 < window_length d" using w(2) pow2_pos[of "- 30"] by linarith
  let ?D = "rat_of_int (sint dr)" and ?T = "rat_of_int (sint tr)" and ?R = "rat_of_int (sint retained)"
  let ?x = "?D / window_length d * (?R / ?T)"
  have b: "?D \<le> pow2 64" "?T \<le> pow2 64" "?R \<le> pow2 64" "rat_of_int (sint d) \<le> pow2 64"
    using assms sint_range[of retained] sint_range[of d] sint_range[of dr] sint_range[of tr]
    by (auto intro!: int_bounded)
  have n: "fnear 1 (of_i64 dr) ?D" "fnear 1 (of_i64 tr) ?T" "fnear 1 (of_i64 retained) ?R"
    using fnear_of_i64 assms by (simp_all add: less_imp_le)
  have q1: "?D / window_length d = of_int (sint dr * 1000000000) / of_int (sint d)"
    by (simp add: window_length_def)
  have l1: "pow2 (- 64) \<le> ?D / window_length d"
    unfolding q1 using assms b(4) by (intro low_pos_div) auto
  have l2: "pow2 (- 64) \<le> ?R / ?T" using assms b(2) by (intro low_pos_div) auto
  have "?D / window_length d \<le> pow2 64 / pow2 (- 30)"
    using b(1) w(2) assms by (intro frac_le) auto
  then have u1: "?D / window_length d \<le> pow2 94" by (simp add: pow2_def)
  have "1 \<le> ?T" using assms by linarith
  then have u2: "?R / ?T \<le> pow2 64" using b(3) assms frac_le[of "pow2 64" ?R 1 ?T] by simp
  have big: "pow2 94 \<le> pow2 1000" "pow2 64 \<le> pow2 1000" by (rule pow2_mono; simp)+
  have s1: "fnear 5 (of_i64 dr / duration_seconds d) (?D / window_length d)"
    using fnear_div[OF n(1) w(1) _ wpos lowI[OF _ l1] order_trans[OF u1 big(1)]] wpos assms by simp
  have s2: "fnear 3 (of_i64 retained / of_i64 tr) (?R / ?T)"
    using fnear_div[OF n(3,2) _ _ lowI[OF _ l2] order_trans[OF u2 big(2)]] assms
    by (simp add: numeral_3_eq_3)
  have nn: "0 \<le> ?D / window_length d" "0 \<le> ?R / ?T" using assms wpos by simp_all
  have "pow2 (- 64) * pow2 (- 64) \<le> ?x" using l1 l2 nn by (intro mult_mono) auto
  then have l: "pow2 (- 128) \<le> ?x" by (simp add: pow2_def)
  have "?x \<le> pow2 94 * pow2 64" using u1 u2 nn by (intro mult_mono) auto
  also have "\<dots> = pow2 158" by (simp add: pow2_def)
  also have "\<dots> \<le> pow2 1000" by (rule pow2_mono) simp
  finally have u: "?x \<le> pow2 1000" .
  have "pow2 (- 128) \<noteq> 0" "0 < pow2 (- 128)" using pow2_pos[of "- 128"] by simp_all
  then have "low ?x" using l by (intro lowI[of _ "- 128"]) linarith+
  then show ?thesis using fnear_mul[OF s1 s2] u by simp
qed

lemma window_positive: "0 < sint d \<Longrightarrow> \<not> duration_seconds d \<le> 0" "0 < sint d \<Longrightarrow> 0 < window_length d"
proof -
  assume d: "0 < sint d"
  note w = duration_seconds_near[OF d]
  show pos: "0 < window_length d" using w(2) pow2_pos[of "- 30"] by linarith
  then show "\<not> duration_seconds d \<le> 0"
    using fnear_pos_iff[OF w(1)] fnearD(1)[OF w(1)] by (simp add: zero_less_iff le_zero_iff)
qed

text \<open>Whatever the offsets, also when the sums wrap, the estimate is a finite number \<open>\<ge> 0\<close>.\<close>

lemma mul_f64_ok: "is_fin (a * b) \<Longrightarrow> f64_ok (a * b)"
  by (cases a; cases b) (auto simp: times_f64_def fmul_def rnd_f64_ok split: if_splits)

lemma estimate_fin:
  assumes "0 < sint d"
  shows "f64_ok (estimateBytesInPerSec retained starts end0 end1 (duration_seconds d)) \<and>
     0 \<le> estimateBytesInPerSec retained starts end0 end1 (duration_seconds d)"
proof -
  obtain tr dr where deltas: "record_deltas starts end0 end1 = (tr, dr)" by (cases "record_deltas starts end0 end1")
  show ?thesis
  proof (cases "0 < sint tr \<and> 0 < sint dr \<and> 0 < sint retained")
    case True
    note n = estimate_near[OF assms, of dr tr retained]
    show ?thesis
      using True n fnearD(1)[OF n] nearD(2)[OF fnearD(2)[OF n]] window_positive[OF assms]
      by (simp add: estimateBytesInPerSec_def deltas signed_cmp Let_def zero_le_iff mul_f64_ok)
  qed (auto simp: estimateBytesInPerSec_def deltas signed_cmp Let_def le_fin)
qed

text \<open>C12: The throughput estimate is new records per second times the average record size, as
  its comment says, within a relative error of \<open>2 ^ -46\<close>; it is 0 when nothing is retained or
  nothing was produced.\<close>

theorem estimate_accurate:
  assumes "0 < sint d" "offsets_ok starts" "offsets_ok end0" "offsets_ok end1"
    and "retained_records starts end0 < 2 ^ 63" "new_records end0 end1 < 2 ^ 63"
  shows "is_fin (estimateBytesInPerSec retained starts end0 end1 (duration_seconds d)) \<and>
     \<bar>val (estimateBytesInPerSec retained starts end0 end1 (duration_seconds d)) -
        exact_rate retained starts end0 end1 d\<bar> \<le> exact_rate retained starts end0 end1 d * pow2 (- 46)"
proof -
  let ?T = "retained_records starts end0" and ?D = "new_records end0 end1"
  obtain tr dr where deltas: "record_deltas starts end0 end1 = (tr, dr)" by (cases "record_deltas starts end0 end1")
  then have t: "sint tr = ?T" "sint dr = ?D" using record_deltas_exact[OF assms(2-6)] by simp_all
  let ?e = "estimateBytesInPerSec retained starts end0 end1 (duration_seconds d)"
    and ?x = "exact_rate retained starts end0 end1 d"
  have near: "fnear 9 ?e ?x"
  proof (cases "0 < ?T \<and> 0 < ?D \<and> 0 < sint retained")
    case True
    then show ?thesis
      using estimate_near[OF assms(1), of dr tr retained] window_positive[OF assms(1)]
      by (simp add: estimateBytesInPerSec_def exact_rate_def deltas Let_def signed_cmp t)
  next
    case False
    then have "?e = 0"
      using window_positive[OF assms(1)] by (auto simp: estimateBytesInPerSec_def deltas Let_def signed_cmp t)
    moreover have "?x = 0"
      using False records_nonneg(2)[of end0 end1] by (auto simp: exact_rate_def)
    ultimately show ?thesis by (simp add: fnear_def)
  qed
  have "rat_of_nat 9 * pow2 (- 50) \<le> 16 * pow2 (- 50)" by simp
  also have "\<dots> = pow2 (- 46)" by (simp add: pow2_def)
  finally have "?x * (of_nat 9 * pow2 (- 50)) \<le> ?x * pow2 (- 46)"
    using nearD(1)[OF fnearD(2)[OF near]] by (rule mult_left_mono)
  then show ?thesis using fnearD(1)[OF near] near_error[OF fnearD(2)[OF near]] by simp
qed

theorem estimate_accurate_witness:
  "\<bar>val (estimateBytesInPerSec 8000 [(0, 100)] [(0, 900)] [(0, 960)] (duration_seconds 30000000000)) - 20\<bar>
     \<le> 20 * pow2 (- 46)"
  using estimate_accurate[of 30000000000 "[(0, 100)]" "[(0, 900)]" "[(0, 960)]" 8000]
  by (simp add: offsets_ok_def retained_records_def new_records_def exact_rate_def window_length_def mget_def)

end
