(* ===== verification/BuildFacts.thy ===== *)
theory BuildFacts
  imports CollectFacts Engine
begin

text \<open>
  The snapshot as a whole. The locale \<open>reader_laws\<close> states what \<open>build\<close> relies on of its
  reader; the Kafka client's reads satisfy it for every admin client. From it: what every
  collected snapshot looks like, what building one cannot change, and that it fails only when a
  read does. Which requests it makes is in \<open>BuildTrace\<close>.
\<close>

subsection \<open>The reader interface\<close>

locale reader_laws =
  fixes rd :: "'w reader"
  assumes topics_sorted: "rd_Topics rd w = (Inr ts, w') \<Longrightarrow> sorted (map ti_Name ts)"
    and replicas_ok: "rd_Topics rd w = (Inr ts, w') \<Longrightarrow> list_all (\<lambda>t. gomap_ok (ti_Replicas t)) ts"
    and log_dirs_ok: "rd_LogDirSizes rd w = (Inr m, w') \<Longrightarrow> nested_ok m"
    and start_ok: "rd_StartOffsets rd w = (Inr so, w') \<Longrightarrow> nested_ok so"
    and end_ok: "rd_EndOffsets rd w = (Inr eo, w') \<Longrightarrow> nested_ok eo"
    and committed_ok: "rd_CommittedOffsets rd gs w = (Inr co, w') \<Longrightarrow> nested_ok co"
    and committed_total: "\<exists>co w'. rd_CommittedOffsets rd gs w = (Inr co, w')"

definition kept :: "options \<Rightarrow> topicInfo \<Rightarrow> bool" where
  "kept opts t \<longleftrightarrow> o_IncludeInternal opts \<or> \<not> (ti_IsInternal t \<or> hasPrefix (ti_Name t) ''__'')"

definition readings_ok :: "options \<Rightarrow> readings \<Rightarrow> bool" where
  "readings_ok opts x \<longleftrightarrow> sorted (map ti_Name (x_Topics x)) \<and>
     list_all (\<lambda>t. gomap_ok (ti_Replicas t) \<and> kept opts t) (x_Topics x) \<and>
     nested_ok (x_LogDirs x) \<and> nested_ok (x_Start x) \<and> nested_ok (x_End x) \<and> nested_ok (x_Committed x) \<and>
     nested_ok (x_End2 x) \<and>
     (if 0 <s o_SampleWindow opts then x_WindowSecs x = duration_seconds (o_SampleWindow opts)
      else x_End2 x = [])"

lemma kept_topics:
  "sorted (map ti_Name ts) \<Longrightarrow> sorted (map ti_Name (dropInternal ts))"
  "list_all (\<lambda>t. gomap_ok (ti_Replicas t)) ts \<Longrightarrow>
     list_all (\<lambda>t. gomap_ok (ti_Replicas t) \<and> kept opts t) (dropInternal ts)"
  "o_IncludeInternal opts \<Longrightarrow> list_all (\<lambda>t. gomap_ok (ti_Replicas t)) ts \<Longrightarrow>
     list_all (\<lambda>t. gomap_ok (ti_Replicas t) \<and> kept opts t) ts"
  by (auto simp: dropInternal_def kept_def list_all_iff sorted_filter)

context reader_laws
begin

lemma topics_ok:
  "rd_Topics rd w = (Inr ts, w') \<Longrightarrow> sorted (map ti_Name ts) \<and> list_all (\<lambda>t. gomap_ok (ti_Replicas t)) ts"
  using topics_sorted replicas_ok by blast

lemma read_all_ok:
  assumes "read_all rd sleep opts w = (Inr x, w')"
  shows "readings_ok opts x"
  using assms unfolding read_all_def bindE_Inr Let_def
  by (elim exE conjE)
    (auto simp: readings_ok_def bindE_Inr kept_topics
      dest!: topics_ok log_dirs_ok start_ok end_ok committed_ok split: if_splits)

lemma build_assembles:
  assumes "build rd clock sleep opts w = (Inr s, w')"
  shows "\<exists>now x. s = assemble opts now x \<and> readings_ok opts x \<and>
     now = (if IsZero (o_Now opts) then fst (clock w) else o_Now opts)"
  using assms read_all_ok
  by (fastforce simp: build_def bindE_Inr split: prod.splits if_splits)

end

text \<open>The Kafka client satisfies the laws whatever the admin client answers.\<close>

lemma scan_partitions_ok: "gomap_ok (fst (scan_partitions ps))"
proof -
  have "gomap_ok m \<Longrightarrow> gomap_ok (fst (fold (\<lambda>(pid, rep) (m, maxRF). (mput m pid rep,
      if maxRF <s len rep then len rep else maxRF)) ps (m, r)))" for m and r :: i64
    by (induction ps arbitrary: m r) auto
  then show ?thesis by (simp add: scan_partitions_def)
qed

lemma client_Topics_Inr:
  assumes "client_Topics adm w = (Inr ts, w')"
  shows "\<exists>td. ts = slice_stable by_name (map (\<lambda>(n, d). topic_info n d) td)"
  using assms
  by (auto simp: client_Topics_def bindE_Inr topics_loop_find split: option.splits prod.splits)

interpretation kafka: reader_laws "kafka_reader adm" for adm :: "'w kadm"
proof unfold_locales
  fix w ts w'
  assume "rd_Topics (kafka_reader adm) w = (Inr ts, w')"
  then obtain td where ts: "ts = slice_stable by_name (map (\<lambda>(n, d). topic_info n d) td)"
    using client_Topics_Inr by (fastforce simp: kafka_reader_def)
  show "sorted (map ti_Name ts)" unfolding ts by_name_key by (rule sort_key_sorted)
  show "list_all (\<lambda>t. gomap_ok (ti_Replicas t)) ts"
    by (auto simp: ts list_all_iff scan_partitions_ok)
next
  fix w m w' assume "rd_LogDirSizes (kafka_reader adm) w = (Inr m, w')"
  then show "nested_ok m"
    by (auto simp: kafka_reader_def client_LogDirSizes_def bindE_Inr replica_sizes_ok)
next
  fix w so w' assume "rd_StartOffsets (kafka_reader adm) w = (Inr so, w')"
  then show "nested_ok so"
    by (auto simp: kafka_reader_def client_StartOffsets_def bindE_Inr flattenOffsets_ok)
next
  fix w eo w' assume "rd_EndOffsets (kafka_reader adm) w = (Inr eo, w')"
  then show "nested_ok eo"
    by (auto simp: kafka_reader_def client_EndOffsets_def bindE_Inr flattenOffsets_ok)
next
  fix gs w co w' assume "rd_CommittedOffsets (kafka_reader adm) gs w = (Inr co, w')"
  then show "nested_ok co"
    by (auto simp: kafka_reader_def client_CommittedOffsets_def committed_loop_fold Let_def
        intro!: fold_nested_ok committed_topics_ok split: prod.splits)
next
  fix gs w show "\<exists>co w'. rd_CommittedOffsets (kafka_reader adm) gs w = (Inr co, w')"
    by (simp add: kafka_reader_def client_CommittedOffsets_def committed_loop_fold Let_def split: prod.split)
qed

subsection \<open>Every collected snapshot\<close>

lemma snapshot_topic_simps [simp]:
  "Name (snapshot_topic opts x active t) = ti_Name t"
  "Partitions (snapshot_topic opts x active t) = ti_Partitions t"
  "ReplicationFactor (snapshot_topic opts x active t) = ti_ReplicationFactor t"
  "RetainedBytes (snapshot_topic opts x active t) = sumReplicaBytes (mget [] (x_LogDirs x) (ti_Name t))"
  "PartitionBytes (snapshot_topic opts x active t) = perPartitionBytes (mget [] (x_LogDirs x) (ti_Name t))"
  "BytesOutPerSec (snapshot_topic opts x active t) = 0"
  "MaxConsumerLagMs (snapshot_topic opts x active t) = - 1"
  "ActiveConsumers (snapshot_topic opts x active t) = mget 0 active (ti_Name t)"
  "ThroughputSource (snapshot_topic opts x active t) = (if 0 <s o_SampleWindow opts then ''estimated'' else ''none'')"
  "BytesInPerSec (snapshot_topic opts x active t) =
     (if 0 <s o_SampleWindow opts
      then estimateBytesInPerSec (sumReplicaBytes (mget [] (x_LogDirs x) (ti_Name t)))
             (mget [] (x_Start x) (ti_Name t)) (mget [] (x_End x) (ti_Name t))
             (mget [] (x_End2 x) (ti_Name t)) (x_WindowSecs x)
      else 0)"
  "CompressionType (snapshot_topic opts x active t) =
     strOr (tc_CompressionType (mget no_config (x_Configs x) (ti_Name t))) ''producer''"
  "CleanupPolicy (snapshot_topic opts x active t) =
     strOr (tc_CleanupPolicy (mget no_config (x_Configs x) (ti_Name t))) ''delete''"
  "RetentionMs (snapshot_topic opts x active t) =
     retentionMs (tc_RetentionMs (mget no_config (x_Configs x) (ti_Name t)))"
  by (simp_all add: snapshot_topic_def Let_def case_prod_unfold)

lemma assemble_simps:
  "readings_ok opts x \<Longrightarrow> Topics (assemble opts now x) =
     map (snapshot_topic opts x (activeConsumers (x_Groups x) (x_Committed x))) (x_Topics x)"
  "Groups (assemble opts now x) = mapGroups (x_Groups x)"
  "Cluster (assemble opts now x) =
     \<lparr>ClusterName = collect_clusterName opts, ClusterProvider = providerOrSelf (o_Provider opts)\<rparr>"
  "TakenAt (assemble opts now x) = now"
  by (simp_all add: assemble_def readings_ok_def sort_key_id comp_def)

lemma strOr_nonempty: "def \<noteq> '''' \<Longrightarrow> strOr v def \<noteq> ''''"
  by (simp add: strOr_def split: option.split)

definition collected_topic :: "options \<Rightarrow> topic \<Rightarrow> bool" where
  "collected_topic opts t \<longleftrightarrow>
     sum_list (PartitionBytes t) = RetainedBytes t \<and>
     f64_ok (BytesInPerSec t) \<and> 0 \<le> BytesInPerSec t \<and> BytesOutPerSec t = 0 \<and>
     ThroughputSource t = (if 0 <s o_SampleWindow opts then ''estimated'' else ''none'') \<and>
     (o_SampleWindow opts \<le>s 0 \<longrightarrow> BytesInPerSec t = 0) \<and>
     MaxConsumerLagMs t = - 1 \<and> CompressionType t \<noteq> '''' \<and> CleanupPolicy t \<noteq> '''' \<and>
     (o_IncludeInternal opts \<or> \<not> hasPrefix (Name t) ''__'')"

lemma snapshot_topic_collected:
  assumes "readings_ok opts x" "t \<in> set (x_Topics x)"
  shows "collected_topic opts (snapshot_topic opts x active t)" (is "collected_topic _ ?top")
proof -
  have "gomap_ok (mget [] (x_LogDirs x) (ti_Name t))"
    using assms(1) by (auto simp: readings_ok_def intro: nested_ok_mget)
  then have "sum_list (perPartitionBytes (mget [] (x_LogDirs x) (ti_Name t))) =
      sumReplicaBytes (mget [] (x_LogDirs x) (ti_Name t))" by (rule sum_partitions)
  moreover have "kept opts t" using assms by (auto simp: readings_ok_def list_all_iff)
  moreover have "f64_ok (BytesInPerSec ?top) \<and> 0 \<le> BytesInPerSec ?top"
  proof (cases "0 <s o_SampleWindow opts")
    case True
    then have "x_WindowSecs x = duration_seconds (o_SampleWindow opts)"
      using assms(1) by (simp add: readings_ok_def)
    then show ?thesis using True estimate_fin[of "o_SampleWindow opts"] by (simp add: signed_cmp)
  qed (simp add: le_fin)
  moreover have "o_SampleWindow opts \<le>s 0 \<Longrightarrow> BytesInPerSec ?top = 0" by (simp add: signed_cmp)
  ultimately show ?thesis
    unfolding collected_topic_def
    by (auto simp: kept_def strOr_nonempty simp del: snapshot_topic_simps(10))
qed

lemma collected_cluster:
  assumes "collect_Build adm clock sleep opts w = (Inr s, w')"
  shows "Cluster s = \<lparr>ClusterName = collect_clusterName opts, ClusterProvider = providerOrSelf (o_Provider opts)\<rparr>"
  using kafka.build_assembles[OF assms[unfolded collect_Build_def]] by (auto simp: assemble_simps)

lemma collected_facts:
  assumes "collect_Build adm clock sleep opts w = (Inr s, w')"
  shows "sorted (map Name (Topics s))" "list_all (collected_topic opts) (Topics s)"
    "list_all (\<lambda>g. LastCommitAgeDays g = - 1) (Groups s)"
    "ClusterName (Cluster s) \<noteq> ''''" "ClusterProvider (Cluster s) \<noteq> ''''"
    "TakenAt s = (if IsZero (o_Now opts) then fst (clock w) else o_Now opts)"
proof -
  obtain now x where s: "s = assemble opts now x" and x: "readings_ok opts x"
    and now: "now = (if IsZero (o_Now opts) then fst (clock w) else o_Now opts)"
    using kafka.build_assembles[OF assms[unfolded collect_Build_def]] by (elim exE conjE)
  show "sorted (map Name (Topics s))" using x by (simp add: s assemble_simps comp_def readings_ok_def)
  show "list_all (collected_topic opts) (Topics s)"
    using x snapshot_topic_collected[OF x] by (simp add: s assemble_simps list_all_iff)
  show "list_all (\<lambda>g. LastCommitAgeDays g = - 1) (Groups s)"
    by (simp add: s assemble_simps mapGroups_def list_all_iff)
  show "ClusterName (Cluster s) \<noteq> ''''" "ClusterProvider (Cluster s) \<noteq> ''''"
    by (simp_all add: s assemble_simps collect_clusterName_def providerOrSelf_def)
  show "TakenAt s = (if IsZero (o_Now opts) then fst (clock w) else o_Now opts)"
    using now by (simp add: s assemble_simps)
qed

text \<open>C3: Whatever the cluster answers, a collected snapshot is well formed: topics sorted by
  name; sizes per partition that add up to the retained bytes; a finite inbound rate \<open>\<ge> 0\<close>,
  labelled \<open>estimated\<close> or, without a sample window, 0 and labelled \<open>none\<close>; no outbound rate and
  no lag; non-empty policies; no \<open>__\<close> topic unless asked for; a cluster label and the provider.\<close>

theorem collected_snapshot:
  assumes "collect_Build adm clock sleep opts w = (Inr s, w')"
  shows "sorted (map Name (Topics s)) \<and> list_all (collected_topic opts) (Topics s) \<and>
     list_all (\<lambda>g. LastCommitAgeDays g = - 1) (Groups s) \<and>
     ClusterName (Cluster s) \<noteq> '''' \<and> ClusterProvider (Cluster s) \<noteq> '''' \<and>
     TakenAt s = (if IsZero (o_Now opts) then fst (clock w) else o_Now opts)"
  using collected_facts[OF assms] by blast

subsection \<open>What building keeps\<close>

text \<open>What every read, the sleep and the clock leave true is true after a run, also after an error.\<close>

definition admin_keeps :: "('w \<Rightarrow> bool) \<Rightarrow> 'w kadm \<Rightarrow> bool" where
  "admin_keeps I adm \<longleftrightarrow>
     keeps I (BrokerMetadata adm) \<and> keeps I (ListTopics adm) \<and> (\<forall>ts. keeps I (DescribeTopicConfigs adm ts)) \<and>
     keeps I (DescribeAllLogDirs adm) \<and> keeps I (ListStartOffsets adm) \<and> keeps I (ListEndOffsets adm) \<and>
     keeps I (ListGroups adm) \<and> (\<forall>g. keeps I (FetchOffsets adm g))"

lemma keeps_committed_loop:
  assumes "\<And>g. keeps I (FetchOffsets adm g)"
  shows "keeps I (committed_loop adm gs out)"
proof -
  have "I w \<Longrightarrow> I (snd (committed_loop adm gs out w))" for w
  proof (induction gs arbitrary: out w)
    case (Cons g gs)
    obtain r w' where f: "FetchOffsets adm g w = (r, w')" by (cases "FetchOffsets adm g w")
    then have "I w'" using assms[of g] Cons.prems by (metis keepsD snd_conv)
    then show ?case using Cons.IH by (cases r) (simp_all add: f)
  qed simp
  then show ?thesis by (simp add: keeps_def)
qed

lemma kafka_reader_simps:
  "rd_Brokers (kafka_reader adm) = client_Brokers adm" "rd_Topics (kafka_reader adm) = client_Topics adm"
  "rd_TopicConfigs (kafka_reader adm) = client_TopicConfigs adm"
  "rd_LogDirSizes (kafka_reader adm) = client_LogDirSizes adm"
  "rd_StartOffsets (kafka_reader adm) = client_StartOffsets adm"
  "rd_EndOffsets (kafka_reader adm) = client_EndOffsets adm" "rd_Groups (kafka_reader adm) = client_Groups adm"
  "rd_CommittedOffsets (kafka_reader adm) = client_CommittedOffsets adm"
  by (simp_all add: kafka_reader_def)

lemma kafka_reader_keeps:
  assumes "admin_keeps I adm"
  shows "keeps I (rd_Brokers (kafka_reader adm))" "keeps I (rd_Topics (kafka_reader adm))"
    "keeps I (rd_TopicConfigs (kafka_reader adm) ts)" "keeps I (rd_LogDirSizes (kafka_reader adm))"
    "keeps I (rd_StartOffsets (kafka_reader adm))" "keeps I (rd_EndOffsets (kafka_reader adm))"
    "keeps I (rd_Groups (kafka_reader adm))" "keeps I (rd_CommittedOffsets (kafka_reader adm) gs)"
  using assms unfolding admin_keeps_def kafka_reader_def
  by (auto simp: client_Brokers_def client_Topics_def client_TopicConfigs_def client_LogDirSizes_def
      client_StartOffsets_def client_EndOffsets_def client_Groups_def client_CommittedOffsets_def
      intro!: keeps_committed_loop)

lemma build_keeps:
  assumes "admin_keeps I adm" "\<forall>d. keeps I (sleep d)" "\<forall>v. I v \<longrightarrow> I (snd (clock v))" "I w"
  shows "I (snd (collect_Build adm clock sleep opts w))"
proof -
  note reads = kafka_reader_keeps[OF assms(1)]
  have "keeps I (read_all (kafka_reader adm) sleep opts)"
    unfolding read_all_def Let_def using reads assms(2) by (auto split: prod.split)
  then have "keeps I (bindE (read_all (kafka_reader adm) sleep opts) (\<lambda>x. returnE (assemble opts now x)))" for now
    by auto
  then show ?thesis
    using assms(3,4) by (auto simp: collect_Build_def build_def keeps_def split: prod.split)
qed

subsection \<open>Errors\<close>

lemma wrapE_Inl: "wrapE p m w = (Inl e, w') \<longleftrightarrow> (\<exists>x. m w = (Inl x, w') \<and> e = p @ '': '' @ x)"
  by (auto simp: wrapE_def split: prod.splits sum.splits)

lemma simple_Inl [simp]:
  "returnE a w \<noteq> (Inl e, w')" "failE x w = (Inl e, w') \<longleftrightarrow> x = e \<and> w = w'"
  "liftE r w = (Inl e, w') \<longleftrightarrow> r = Inl e \<and> w = w'"
  by (auto simp: returnE_def failE_def liftE_def)

lemma client_error_text:
  "client_Brokers adm w = (Inl e, w') \<Longrightarrow> prefix ''kafka: '' e"
  "client_Topics adm w = (Inl e, w') \<Longrightarrow> prefix ''kafka: '' e"
  "client_TopicConfigs adm ts w = (Inl e, w') \<Longrightarrow> prefix ''kafka: '' e"
  "client_LogDirSizes adm w = (Inl e, w') \<Longrightarrow> prefix ''kafka: '' e"
  "client_StartOffsets adm w = (Inl e, w') \<Longrightarrow> prefix ''kafka: '' e"
  "client_EndOffsets adm w = (Inl e, w') \<Longrightarrow> prefix ''kafka: '' e"
  "client_Groups adm w = (Inl e, w') \<Longrightarrow> prefix ''kafka: '' e"
  "client_CommittedOffsets adm gs w \<noteq> (Inl e, w')"
  by (auto simp: client_Brokers_def client_Topics_def client_TopicConfigs_def client_LogDirSizes_def
      client_StartOffsets_def client_EndOffsets_def client_Groups_def client_CommittedOffsets_def
      bindE_Inl wrapE_Inl topics_loop_find configs_loop_find committed_loop_fold Let_def
      split: option.splits if_splits prod.splits)

text \<open>C25: Building a snapshot fails only with the error of the read, or of the sleep, it failed
  at, and stops there: nothing is done after it. The error of a read says that it comes from
  the Kafka client.\<close>

theorem build_error_origin:
  assumes "collect_Build adm clock sleep opts w = (Inl e, w')"
  shows "(\<exists>v. client_Brokers adm v = (Inl e, w') \<or> client_Topics adm v = (Inl e, w') \<or>
      (\<exists>ts. client_TopicConfigs adm ts v = (Inl e, w')) \<or> client_LogDirSizes adm v = (Inl e, w') \<or>
      client_StartOffsets adm v = (Inl e, w') \<or> client_EndOffsets adm v = (Inl e, w') \<or>
      client_Groups adm v = (Inl e, w')) \<and> prefix ''kafka: '' e \<or>
     0 <s o_SampleWindow opts \<and> (\<exists>v. sleep (o_SampleWindow opts) v = (Inl e, w'))"
proof -
  obtain v where "read_all (kafka_reader adm) sleep opts v = (Inl e, w')"
    using assms by (auto simp: collect_Build_def build_def bindE_Inl split: prod.splits)
  then show ?thesis
    unfolding read_all_def bindE_Inl Let_def kafka_reader_simps
    by (elim disjE exE conjE)
      (auto simp: bindE_Inl client_error_text(8) dest: client_error_text(1-7) split: if_splits prod.splits)
qed

end
