(* ===== verification/BuildTrace.thy ===== *)
theory BuildTrace
  imports BuildFacts
begin

text \<open>
  Which requests building a snapshot makes. The admin client, the clock and the sleep are
  instrumented: a second component of the world records every call with its arguments and
  whether it failed. A run on the instrumented client does what the run on the client does, and
  its record is the plan of \<open>build\<close>, up to the first failure.
\<close>

subsection \<open>Recording calls\<close>

datatype request =
  ReadClock
| AskMetadata
| AskTopics
| AskConfigs "gostring list"
| AskLogDirs
| AskStartOffsets
| AskEndOffsets
| AskGroups
| AskCommitted gostring \<comment> \<open>the offsets of one group\<close>
| Sleeps i64

type_synonym 'w recorded = "'w \<times> (request \<times> bool) list"

definition recorded :: "request \<Rightarrow> ('w, 'a) call \<Rightarrow> ('w recorded, 'a) call" where
  "recorded q m v = (case m (fst v) of (r, w) \<Rightarrow> (r, (w, snd v @ [(q, isl r)])))"

definition recorded_kadm :: "'w kadm \<Rightarrow> 'w recorded kadm" where
  "recorded_kadm adm =
     \<lparr>BrokerMetadata = recorded AskMetadata (BrokerMetadata adm),
      ListTopics = recorded AskTopics (ListTopics adm),
      DescribeTopicConfigs = (\<lambda>ts. recorded (AskConfigs ts) (DescribeTopicConfigs adm ts)),
      DescribeAllLogDirs = recorded AskLogDirs (DescribeAllLogDirs adm),
      ListStartOffsets = recorded AskStartOffsets (ListStartOffsets adm),
      ListEndOffsets = recorded AskEndOffsets (ListEndOffsets adm),
      ListGroups = recorded AskGroups (ListGroups adm),
      FetchOffsets = (\<lambda>g. recorded (AskCommitted g) (FetchOffsets adm g))\<rparr>"

definition recorded_clock :: "('w \<Rightarrow> gotime \<times> 'w) \<Rightarrow> 'w recorded \<Rightarrow> gotime \<times> 'w recorded" where
  "recorded_clock clock v = (case clock (fst v) of (t, w) \<Rightarrow> (t, (w, snd v @ [(ReadClock, False)])))"

definition recorded_sleep :: "(i64 \<Rightarrow> ('w, unit) call) \<Rightarrow> i64 \<Rightarrow> ('w recorded, unit) call" where
  "recorded_sleep sleep d = recorded (Sleeps d) (sleep d)"

text \<open>The requests of a run that fails nowhere, for the topics and groups it finds.\<close>

definition read_plan :: "options \<Rightarrow> gostring list \<Rightarrow> gostring list \<Rightarrow> request list" where
  "read_plan opts topics groups =
     [AskMetadata, AskTopics] @ (if topics = [] then [] else [AskConfigs topics]) @
     [AskLogDirs, AskStartOffsets, AskEndOffsets, AskGroups] @ map AskCommitted groups @
     (if 0 <s o_SampleWindow opts then [Sleeps (o_SampleWindow opts), AskEndOffsets] else [])"

definition build_plan :: "options \<Rightarrow> gostring list \<Rightarrow> gostring list \<Rightarrow> request list" where
  "build_plan opts topics groups =
     (if IsZero (o_Now opts) then [ReadClock] else []) @ read_plan opts topics groups"

text \<open>A call the run may go on after: one that succeeded, or the offsets of one group.\<close>

definition tolerated :: "request \<times> bool \<Rightarrow> bool" where
  "tolerated p = (case fst p of AskCommitted g \<Rightarrow> True | _ \<Rightarrow> \<not> snd p)"

subsection \<open>Recorded runs\<close>

text \<open>A call on the recorded world does what the call does, and what it adds to the record
  satisfies \<open>P\<close>.\<close>

definition records :: "('w recorded, 'a) call \<Rightarrow> ('w, 'a) call \<Rightarrow> (gostring + 'a \<Rightarrow> (request \<times> bool) list \<Rightarrow> bool) \<Rightarrow> bool" where
  "records m' m P \<longleftrightarrow> (\<forall>w l. \<exists>r w' k. m w = (r, w') \<and> m' (w, l) = (r, (w', l @ k)) \<and> P r k)"

definition one_call :: "request \<Rightarrow> gostring + 'a \<Rightarrow> (request \<times> bool) list \<Rightarrow> bool" where
  "one_call q r k \<longleftrightarrow> (\<exists>b. k = [(q, b)] \<and> (b \<longrightarrow> isl r))"

lemma one_call_simps [simp]:
  "one_call q (Inr a) k \<longleftrightarrow> k = [(q, False)]"
  "one_call q (Inl e) k \<longleftrightarrow> k = [(q, False)] \<or> k = [(q, True)]"
  by (auto simp: one_call_def)

lemma recordsI:
  assumes "\<And>w l. \<exists>r w' k. m w = (r, w') \<and> m' (w, l) = (r, (w', l @ k)) \<and> P r k"
  shows "records m' m P"
  using assms by (simp add: records_def)

lemma records_call: "records (recorded q m) m (one_call q)"
proof (rule recordsI)
  fix w l
  obtain r w' where "m w = (r, w')" by (cases "m w")
  then show "\<exists>r w' k. m w = (r, w') \<and> recorded q m (w, l) = (r, (w', l @ k)) \<and> one_call q r k"
    by (simp add: recorded_def one_call_def)
qed

lemma records_return: "P (Inr a) [] \<Longrightarrow> records (returnE a) (returnE a) P"
  by (rule recordsI) (simp add: returnE_def)

lemma records_lift: "P r [] \<Longrightarrow> records (liftE r) (liftE r) P"
  by (rule recordsI) (simp add: liftE_def)

lemma records_bind:
  assumes "records m' m P" "\<And>e k. P (Inl e) k \<Longrightarrow> R (Inl e) k"
    and "\<And>a k. P (Inr a) k \<Longrightarrow> records (f' a) (f a) (\<lambda>r k'. R r (k @ k'))"
  shows "records (bindE m' f') (bindE m f) R"
proof (rule recordsI)
  fix w l
  obtain r w' k where m: "m w = (r, w')" "m' (w, l) = (r, (w', l @ k))" "P r k"
    using assms(1) unfolding records_def by blast
  show "\<exists>r w' k. bindE m f w = (r, w') \<and> bindE m' f' (w, l) = (r, (w', l @ k)) \<and> R r k"
  proof (cases r)
    case (Inl e)
    then show ?thesis using m assms(2) by (simp add: bindE_def)
  next
    case (Inr a)
    then obtain q u k' where "f a w' = (q, u)" "f' a (w', l @ k) = (q, (u, (l @ k) @ k'))" "R q (k @ k')"
      using assms(3)[of a k] m(3) unfolding records_def by blast
    then show ?thesis using m Inr by (intro exI[of _ q] exI[of _ u] exI[of _ "k @ k'"]) (simp add: bindE_def)
  qed
qed

lemma records_wrap:
  assumes "records m' m (one_call q)"
  shows "records (wrapE p m') (wrapE p m) (one_call q)"
proof (rule recordsI)
  fix w l
  obtain r w' k where m: "m w = (r, w')" "m' (w, l) = (r, (w', l @ k))" "one_call q r k"
    using assms unfolding records_def by blast
  then show "\<exists>r w' k. wrapE p m w = (r, w') \<and> wrapE p m' (w, l) = (r, (w', l @ k)) \<and> one_call q r k"
    by (cases r) (simp_all add: wrapE_def)
qed

text \<open>A read that is one call, and the two that look into the reply.\<close>

lemma records_read:
  assumes "records m' m (one_call q)"
  shows "records (bindE (wrapE p m') (\<lambda>a. returnE (f a))) (bindE (wrapE p m) (\<lambda>a. returnE (f a))) (one_call q)"
  by (rule records_bind[OF records_wrap[OF assms]]) (simp_all add: records_return)

lemma records_reads:
  "records (client_Brokers (recorded_kadm adm)) (client_Brokers adm) (one_call AskMetadata)"
  "records (client_LogDirSizes (recorded_kadm adm)) (client_LogDirSizes adm) (one_call AskLogDirs)"
  "records (client_StartOffsets (recorded_kadm adm)) (client_StartOffsets adm) (one_call AskStartOffsets)"
  "records (client_EndOffsets (recorded_kadm adm)) (client_EndOffsets adm) (one_call AskEndOffsets)"
  "records (client_Groups (recorded_kadm adm)) (client_Groups adm) (one_call AskGroups)"
  unfolding client_Brokers_def client_LogDirSizes_def client_StartOffsets_def client_EndOffsets_def client_Groups_def
  by (simp_all add: recorded_kadm_def records_read records_call)

lemma records_Topics: "records (client_Topics (recorded_kadm adm)) (client_Topics adm) (one_call AskTopics)"
proof -
  have "records (bindE (liftE (topics_loop td [])) (\<lambda>out. returnE (slice_stable by_name out)))
      (bindE (liftE (topics_loop td [])) (\<lambda>out. returnE (slice_stable by_name out)))
      (\<lambda>r k. one_call AskTopics r ([(AskTopics, False)] @ k))" for td
    by (rule recordsI) (cases "topics_loop td []"; simp add: bindE_def liftE_def returnE_def)
  then show ?thesis
    unfolding client_Topics_def
    by (intro records_bind[OF records_wrap]) (auto simp: recorded_kadm_def records_call)
qed

definition configs_call :: "gostring list \<Rightarrow> gostring + 'a \<Rightarrow> (request \<times> bool) list \<Rightarrow> bool" where
  "configs_call ts r k = (if ts = [] then k = [] \<and> \<not> isl r else one_call (AskConfigs ts) r k)"

lemma records_TopicConfigs:
  "records (client_TopicConfigs (recorded_kadm adm) ts) (client_TopicConfigs adm ts) (configs_call ts)"
proof (cases "ts = []")
  case False
  have "records (liftE (configs_loop rcs [])) (liftE (configs_loop rcs []))
      (\<lambda>r k. configs_call ts r ([(AskConfigs ts, False)] @ k))" for rcs
    using False by (intro records_lift) (auto simp: configs_call_def one_call_def)
  note looked_up = this
  have "records (bindE (wrapE p (recorded (AskConfigs ts) (DescribeTopicConfigs adm ts))) (\<lambda>rcs. liftE (configs_loop rcs [])))
      (bindE (wrapE p (DescribeTopicConfigs adm ts)) (\<lambda>rcs. liftE (configs_loop rcs []))) (configs_call ts)" for p
  proof (rule records_bind[OF records_wrap[OF records_call]])
    fix a k
    assume "one_call (AskConfigs ts) (Inr a :: gostring + kadm_resource_config list) k"
    then have k: "k = [(AskConfigs ts, False)]" by simp
    show "records (liftE (configs_loop a [])) (liftE (configs_loop a [])) (\<lambda>r k'. configs_call ts r (k @ k'))"
      unfolding k by (rule looked_up)
  qed (use False in \<open>simp add: configs_call_def\<close>)
  then show ?thesis using False by (simp add: client_TopicConfigs_def recorded_kadm_def)
qed (simp add: client_TopicConfigs_def configs_call_def records_return)

definition offsets_calls :: "gostring list \<Rightarrow> gostring + 'a \<Rightarrow> (request \<times> bool) list \<Rightarrow> bool" where
  "offsets_calls gs r k \<longleftrightarrow> \<not> isl r \<and> map fst k = map AskCommitted gs"

lemma records_CommittedOffsets:
  "records (client_CommittedOffsets (recorded_kadm adm) gs) (client_CommittedOffsets adm gs) (offsets_calls gs)"
proof -
  have "\<exists>r w' k. committed_loop adm gs out w = (r, w') \<and>
      committed_loop (recorded_kadm adm) gs out (w, l) = (r, (w', l @ k)) \<and> offsets_calls gs r k" for out w l
  proof (induction gs arbitrary: out w l)
    case (Cons g gs)
    obtain r u where f: "FetchOffsets adm g w = (r, u)" by (cases "FetchOffsets adm g w")
    define out' where "out' = (case r of Inl e \<Rightarrow> out | Inr resp \<Rightarrow> mput out g (committed_topics resp))"
    obtain q w' k where "committed_loop adm gs out' u = (q, w')"
      "committed_loop (recorded_kadm adm) gs out' (u, l @ [(AskCommitted g, isl r)]) =
         (q, (w', (l @ [(AskCommitted g, isl r)]) @ k))" "offsets_calls gs q k"
      using Cons.IH by blast
    then show ?case
      by (intro exI[of _ q] exI[of _ w'] exI[of _ "(AskCommitted g, isl r) # k"], cases r)
        (simp_all add: f out'_def recorded_kadm_def recorded_def offsets_calls_def)
  qed (simp add: offsets_calls_def)
  then show ?thesis unfolding client_CommittedOffsets_def by (rule recordsI)
qed

lemmas records_kafka = records_reads records_Topics records_TopicConfigs records_CommittedOffsets

subsection \<open>The reads in order\<close>

text \<open>A run that fails stops with a call of the plan, and nothing before it failed but the offsets
  of single groups.\<close>

definition stopped :: "options \<Rightarrow> (request \<times> bool) list \<Rightarrow> bool" where
  "stopped opts k \<longleftrightarrow> k \<noteq> [] \<and> list_all tolerated (butlast k) \<and>
     (\<exists>ts gs. prefix (map fst k) (read_plan opts ts gs))"

definition read_result :: "options \<Rightarrow> gostring + readings \<Rightarrow> (request \<times> bool) list \<Rightarrow> bool" where
  "read_result opts r k =
     (case r of
        Inl e \<Rightarrow> stopped opts k
      | Inr x \<Rightarrow> list_all tolerated k \<and>
          map fst k = read_plan opts (topicNames (x_Topics x)) (map gi_GroupID (x_Groups x)))"

lemma stopI:
  assumes "k \<noteq> []" "list_all tolerated (butlast k)" "prefix (map fst k) (read_plan opts ts gs)"
  shows "read_result opts (Inl e) k"
  using assms by (auto simp: read_result_def stopped_def)

lemma configs_call_simps [simp]:
  "configs_call ts (Inr c) k \<longleftrightarrow> k = (if ts = [] then [] else [(AskConfigs ts, False)])"
  "configs_call ts (Inl e) k \<longleftrightarrow> ts \<noteq> [] \<and> (\<exists>b. k = [(AskConfigs ts, b)])"
  by (auto simp: configs_call_def)

lemma tolerated_simps [simp]:
  "tolerated (AskMetadata, b) \<longleftrightarrow> \<not> b" "tolerated (AskTopics, b) \<longleftrightarrow> \<not> b" "tolerated (AskConfigs ts, b) \<longleftrightarrow> \<not> b"
  "tolerated (AskLogDirs, b) \<longleftrightarrow> \<not> b" "tolerated (AskStartOffsets, b) \<longleftrightarrow> \<not> b" "tolerated (AskEndOffsets, b) \<longleftrightarrow> \<not> b"
  "tolerated (AskGroups, b) \<longleftrightarrow> \<not> b" "tolerated (Sleeps d, b) \<longleftrightarrow> \<not> b" "tolerated (ReadClock, b) \<longleftrightarrow> \<not> b"
  by (simp_all add: tolerated_def)

lemma offsets_tolerated: "map fst k = map AskCommitted gs \<Longrightarrow> list_all tolerated k"
  by (induction k arbitrary: gs) (auto simp: tolerated_def split: request.split)

lemma offsets_calls_Inr: "offsets_calls gs (Inr c) k \<Longrightarrow> map fst k = map AskCommitted gs \<and> list_all tolerated k"
  using offsets_tolerated by (auto simp: offsets_calls_def)

text \<open>What the record holds when the read of the log directories starts, and what comes after.\<close>

definition opening_reads :: "gostring list \<Rightarrow> (request \<times> bool) list" where
  "opening_reads ts = [(AskMetadata, False), (AskTopics, False)] @ (if ts = [] then [] else [(AskConfigs ts, False)])"

definition middle_reads :: "(request \<times> bool) list" where
  "middle_reads = [(AskLogDirs, False), (AskStartOffsets, False), (AskEndOffsets, False), (AskGroups, False)]"

lemma stops_opening:
  "read_result opts (Inl e) [(AskMetadata, b)]"
  "read_result opts (Inl e) [(AskMetadata, False), (AskTopics, b)]"
  by (rule stopI[where ts = "[]" and gs = "[]"]; simp add: read_plan_def)+

lemma stops_configs:
  "ts \<noteq> [] \<Longrightarrow> read_result opts (Inl e) [(AskMetadata, False), (AskTopics, False), (AskConfigs ts, b)]"
  by (rule stopI[where ts = ts and gs = "[]"]; simp add: read_plan_def)

lemma stops_middle:
  "read_result opts (Inl e) (opening_reads ts @ [(AskLogDirs, b)])"
  "read_result opts (Inl e) (opening_reads ts @ [(AskLogDirs, False), (AskStartOffsets, b)])"
  "read_result opts (Inl e) (opening_reads ts @ [(AskLogDirs, False), (AskStartOffsets, False), (AskEndOffsets, b)])"
  "read_result opts (Inl e)
     (opening_reads ts @ [(AskLogDirs, False), (AskStartOffsets, False), (AskEndOffsets, False), (AskGroups, b)])"
  by (rule stopI[where ts = ts and gs = "[]"]; simp add: read_plan_def opening_reads_def butlast_append)+

lemma stops_window:
  assumes "0 <s o_SampleWindow opts" "map fst k = map AskCommitted gs"
  shows "read_result opts (Inl e) (opening_reads ts @ middle_reads @ k @ [(Sleeps (o_SampleWindow opts), b)])"
    "read_result opts (Inl e)
       (opening_reads ts @ middle_reads @ k @ [(Sleeps (o_SampleWindow opts), False), (AskEndOffsets, b)])"
  using assms offsets_tolerated[OF assms(2)]
  by (intro stopI[where ts = ts and gs = gs];
      simp add: read_plan_def opening_reads_def middle_reads_def butlast_append)+

text \<open>The sampling window: nothing, or the sleep and a second look at the end offsets.\<close>

definition window_calls :: "options \<Rightarrow> gostring + 'a \<Rightarrow> (request \<times> bool) list \<Rightarrow> bool" where
  "window_calls opts r k \<longleftrightarrow>
     (if 0 <s o_SampleWindow opts
      then (case r of
          Inl e \<Rightarrow> (\<exists>b. k = [(Sleeps (o_SampleWindow opts), b)] \<or>
                       k = [(Sleeps (o_SampleWindow opts), False), (AskEndOffsets, b)])
        | Inr a \<Rightarrow> k = [(Sleeps (o_SampleWindow opts), False), (AskEndOffsets, False)])
      else k = [] \<and> \<not> isl r)"

lemma records_window:
  "records
     (if 0 <s o_SampleWindow opts
      then bindE (recorded (Sleeps (o_SampleWindow opts)) (sleep (o_SampleWindow opts))) (\<lambda>_.
           bindE (client_EndOffsets (recorded_kadm adm)) (\<lambda>end2.
           returnE (end2, duration_seconds (o_SampleWindow opts))))
      else returnE ([], 0))
     (if 0 <s o_SampleWindow opts
      then bindE (sleep (o_SampleWindow opts)) (\<lambda>_.
           bindE (client_EndOffsets adm) (\<lambda>end2.
           returnE (end2, duration_seconds (o_SampleWindow opts))))
      else returnE ([], 0))
     (window_calls opts)"
proof (cases "0 <s o_SampleWindow opts")
  case True
  show ?thesis
    unfolding if_P[OF True]
    by (rule records_bind[OF records_call], (auto simp: window_calls_def True)[1],
        rule records_bind[OF records_kafka(4)])
      (auto simp: window_calls_def True intro!: records_return)
qed (simp add: window_calls_def records_return)

lemma window_stops:
  assumes "map fst k = map AskCommitted gs" "window_calls opts (Inl e) k'"
  shows "read_result opts (Inl e') (opening_reads ts @ middle_reads @ k @ k')"
  using assms(2) stops_window[OF _ assms(1)] by (auto simp: window_calls_def split: if_splits)

lemma window_done:
  assumes "map fst k = map AskCommitted gs" "window_calls opts (Inr a) k'"
    and "ts = topicNames (x_Topics x)" "gs = map gi_GroupID (x_Groups x)"
  shows "read_result opts (Inr x) (opening_reads ts @ middle_reads @ k @ k')"
  using assms(2) assms(1,3,4) offsets_tolerated[OF assms(1)]
  by (cases "0 <s o_SampleWindow opts")
    (simp_all add: window_calls_def read_result_def read_plan_def opening_reads_def middle_reads_def)

lemma fold_opening:
  assumes "one_call AskMetadata (Inr a) k1" "one_call AskTopics (Inr b) k2" "configs_call ts (Inr c) k3"
    and "records m' m (\<lambda>r k. read_result opts r (opening_reads ts @ k))"
  shows "records m' m (\<lambda>r k. read_result opts r (k1 @ k2 @ k3 @ k))"
proof -
  have "k1 @ k2 @ k3 @ k = opening_reads ts @ k" for k using assms(1-3) by (simp add: opening_reads_def)
  then show ?thesis using assms(4) by (simp only:)
qed

lemma fold_middle:
  assumes "one_call AskLogDirs (Inr a) k1" "one_call AskStartOffsets (Inr b) k2" "one_call AskEndOffsets (Inr c) k3"
    "one_call AskGroups (Inr d) k4" "records m' m (\<lambda>r k. read_result opts r (os @ middle_reads @ k))"
  shows "records m' m (\<lambda>r k. read_result opts r (os @ k1 @ k2 @ k3 @ k4 @ k))"
proof -
  have "os @ k1 @ k2 @ k3 @ k4 @ k = os @ middle_reads @ k" for k using assms(1-4) by (simp add: middle_reads_def)
  then show ?thesis using assms(5) by (simp only:)
qed

lemma records_read_all:
  "records (read_all (kafka_reader (recorded_kadm adm)) (recorded_sleep sleep) opts)
     (read_all (kafka_reader adm) sleep opts) (read_result opts)"
  unfolding read_all_def kafka_reader_simps Let_def recorded_sleep_def
  apply (rule records_bind[OF records_kafka(1)], use stops_opening in \<open>force\<close>)
  apply (rule records_bind[OF records_kafka(6)], use stops_opening in \<open>force\<close>)
  apply (rule records_bind[OF records_kafka(7)], use stops_configs in \<open>force\<close>)
  apply (rule fold_opening, assumption+)
  apply (rule records_bind[OF records_kafka(2)], use stops_middle(1) in \<open>force\<close>)
  apply (rule records_bind[OF records_kafka(3)], use stops_middle(2) in \<open>force\<close>)
  apply (rule records_bind[OF records_kafka(4)], use stops_middle(3) in \<open>force\<close>)
  apply (rule records_bind[OF records_kafka(5)], use stops_middle(4) in \<open>force\<close>)
  apply (rule fold_middle, assumption+)
  apply (rule records_bind[OF records_kafka(8)], (simp add: offsets_calls_def)[1])
  apply (rule records_bind[OF records_window], (auto simp: offsets_calls_def simp del: map_map intro: window_stops)[1])
  by (auto simp: offsets_calls_def simp del: map_map intro!: records_return intro: window_done)

subsection \<open>What building asks for\<close>

text \<open>C23: Building a snapshot asks the cluster for exactly its plan, in order: the brokers, the
  topics, the configurations of the topics it keeps (no call without one), the log directories,
  the start and the end offsets, the groups, the committed offsets of each of these groups, and with
  a sample window the sleep of that length and the end offsets once more; the clock is read first,
  and only when no time was given. On success every call of the plan was made once and none failed
  but, possibly, the offsets of single groups. On an error the calls made are the beginning of such
  a plan, with nothing after a failed call but the same exception. Recording the calls changes
  neither the result nor the world.\<close>

theorem build_requests:
  assumes "collect_Build (recorded_kadm adm) (recorded_clock clock) (recorded_sleep sleep) opts (w, []) = (r, (w', trace))"
  shows "collect_Build adm clock sleep opts w = (r, w') \<and>
    (case r of
       Inr s \<Rightarrow> map fst trace = build_plan opts (map Name (Topics s)) (map GroupID (Groups s)) \<and> list_all tolerated trace
     | Inl e \<Rightarrow> trace \<noteq> [] \<and> list_all tolerated (butlast trace) \<and>
         (\<exists>topics groups. prefix (map fst trace) (build_plan opts topics groups)))"
proof -
  define pre where "pre = (if IsZero (o_Now opts) then [(ReadClock, False)] else [])"
  define now u where "now = (if IsZero (o_Now opts) then fst (clock w) else o_Now opts)"
    and "u = (if IsZero (o_Now opts) then snd (clock w) else w)"
  obtain q v k where run: "read_all (kafka_reader adm) sleep opts u = (q, v)"
    "read_all (kafka_reader (recorded_kadm adm)) (recorded_sleep sleep) opts (u, pre) = (q, (v, pre @ k))"
    "read_result opts q k"
    using records_read_all[of adm sleep opts] unfolding records_def by blast
  have rec: "collect_Build (recorded_kadm adm) (recorded_clock clock) (recorded_sleep sleep) opts (w, []) =
      (map_sum id (assemble opts now) q, (v, pre @ k))"
    using run(2) by (cases q)
      (auto simp: collect_Build_def build_def bindE_def returnE_def recorded_clock_def now_def u_def pre_def
        split: prod.split)
  have plain: "collect_Build adm clock sleep opts w = (map_sum id (assemble opts now) q, v)"
    using run(1) by (cases q)
      (auto simp: collect_Build_def build_def bindE_def returnE_def now_def u_def split: prod.split)
  have r: "r = map_sum id (assemble opts now) q" "w' = v" "trace = pre @ k" using assms rec by auto
  have pre: "map fst pre @ read_plan opts ts gs = build_plan opts ts gs" "list_all tolerated pre" for ts gs
    by (simp_all add: pre_def build_plan_def)
  show ?thesis
  proof (cases q)
    case (Inl e)
    then have "k \<noteq> []" "list_all tolerated (butlast k)" "\<exists>ts gs. prefix (map fst k) (read_plan opts ts gs)"
      using run(3) by (simp_all add: read_result_def stopped_def)
    then show ?thesis using plain pre by (auto simp: r Inl butlast_append simp flip: pre(1))
  next
    case (Inr x)
    have "readings_ok opts x" using kafka.read_all_ok[OF run(1)[unfolded Inr]] .
    then have "map Name (Topics (assemble opts now x)) = topicNames (x_Topics x)"
      "map GroupID (Groups (assemble opts now x)) = map gi_GroupID (x_Groups x)"
      by (simp_all add: assemble_simps topicNames_def mapGroups_def comp_def)
    then show ?thesis using plain pre run(3) by (simp add: r Inr read_result_def)
  qed
qed

end
