(* ===== verification/DemoCluster.thy ===== *)
theory DemoCluster
  imports BuildTrace
begin

text \<open>
  A small cluster the witnesses read from: three brokers, the topics \<open>orders\<close>,
  \<open>clicks\<close>, \<open>wide\<close> and an internal one, two groups. Its world is the list of the requests served
  so far; the end offsets move on between two probes. The theorems on the reads and on the
  snapshot are applied to it here.
\<close>

type_synonym demo_world = "gostring list"

definition serve :: "gostring \<Rightarrow> 'a \<Rightarrow> (demo_world, 'a) call" where
  "serve req a w = (Inr a, w @ [req])"

definition demo_topic_reply :: "(gostring, kadm_topic) gomap" where
  "demo_topic_reply =
     [(''orders'', \<lparr>kt_Err = None, kt_IsInternal = False, kt_Partitions = [(0, [1, 2]), (1, [2, 3, 1])]\<rparr>),
      (''__consumer_offsets'', \<lparr>kt_Err = None, kt_IsInternal = True, kt_Partitions = [(0, [3])]\<rparr>),
      (''wide'', \<lparr>kt_Err = None, kt_IsInternal = False, kt_Partitions = 
        [(0, [2]), (1, [2]), (2, [2]), (3, [2]), (4, [2]), (5, [2]), (6, [2]), (7, [2]), (8, [2]), (9, [2]), (10, [2]), (11, [2]), (12, [2]), (13, [2]), (14, [2]), (15, [2])]\<rparr>),
      (''clicks'', \<lparr>kt_Err = None, kt_IsInternal = False, kt_Partitions = [(0, [1])]\<rparr>)]"

definition demo_config_reply :: "kadm_resource_config list" where
  "demo_config_reply =
     [\<lparr>rc_Name = ''clicks'', rc_Configs = [], rc_Err = None\<rparr>,
      \<lparr>rc_Name = ''orders'',
       rc_Configs = [\<lparr>kc_Key = ''retention.ms'', kc_Value = Some ''604800000''\<rparr>,
                     \<lparr>kc_Key = ''compression.type'', kc_Value = Some ''zstd''\<rparr>],
       rc_Err = None\<rparr>]"

definition demo_dirs :: "(i32, kadm_log_dir_partition list) gomap" where
  "demo_dirs =
     [(1, [\<lparr>ld_Topic = ''orders'', ld_Partition = 0, ld_Size = 4000000000, ld_IsFuture = False\<rparr>,
           \<lparr>ld_Topic = ''clicks'', ld_Partition = 0, ld_Size = 7, ld_IsFuture = True\<rparr>]),
      (2, [\<lparr>ld_Topic = ''orders'', ld_Partition = 1, ld_Size = 500, ld_IsFuture = False\<rparr>,
           \<lparr>ld_Topic = ''orders'', ld_Partition = 0, ld_Size = 4000000000, ld_IsFuture = False\<rparr>,
           \<lparr>ld_Topic = ''clicks'', ld_Partition = 0, ld_Size = 5000000000, ld_IsFuture = False\<rparr>])]"

definition demo_starts :: kadm_listed_offsets where
  "demo_starts =
     [(''orders'', [(0, \<lparr>lo_Offset = 100, lo_Err = None\<rparr>), (1, \<lparr>lo_Offset = 40, lo_Err = None\<rparr>)]),
      (''clicks'', [(0, \<lparr>lo_Offset = 0, lo_Err = Some ''leader not available''\<rparr>)])]"

definition demo_ends :: "i64 \<Rightarrow> kadm_listed_offsets" where
  "demo_ends grown =
     [(''orders'', [(0, \<lparr>lo_Offset = 900 + grown, lo_Err = None\<rparr>), (1, \<lparr>lo_Offset = 240, lo_Err = None\<rparr>)]),
      (''clicks'', [(0, \<lparr>lo_Offset = 30, lo_Err = None\<rparr>)])]"

definition demo_kadm :: "demo_world kadm" where
  "demo_kadm =
     \<lparr>BrokerMetadata = serve ''Metadata''
        [\<lparr>kb_NodeID = 3, kb_Host = ''c'', kb_Port = 9092, kb_Rack = None\<rparr>,
         \<lparr>kb_NodeID = 1, kb_Host = ''a'', kb_Port = 9092, kb_Rack = Some ''r1''\<rparr>],
      ListTopics = serve ''Metadata'' demo_topic_reply,
      DescribeTopicConfigs = (\<lambda>ts. serve ''DescribeConfigs'' demo_config_reply),
      DescribeAllLogDirs = serve ''DescribeLogDirs'' demo_dirs,
      ListStartOffsets = serve ''ListOffsets'' demo_starts,
      ListEndOffsets = (\<lambda>w. serve ''ListOffsets'' (demo_ends (if ''sleep'' \<in> set w then 60 else 0)) w),
      ListGroups = serve ''ListGroups''
        [(''web'', \<lparr>lg_Group = ''web'', lg_State = ''Stable''\<rparr>),
         (''old'', \<lparr>lg_Group = ''old'', lg_State = ''Empty''\<rparr>)],
      FetchOffsets = (\<lambda>g w. if g = ''old'' then (Inl ''group is gone'', w @ [''OffsetFetch''])
         else serve ''OffsetFetch'' [\<lparr>or_Topic = ''orders'', or_Err = None\<rparr>,
                \<lparr>or_Topic = ''orders'', or_Err = None\<rparr>, \<lparr>or_Topic = ''clicks'', or_Err = Some ''denied''\<rparr>] w)\<rparr>"

lemma demo_kadm_calls [simp]:
  "ListTopics demo_kadm w = (Inr demo_topic_reply, w @ [''Metadata''])"
  "DescribeTopicConfigs demo_kadm ts w = (Inr demo_config_reply, w @ [''DescribeConfigs''])"
  "DescribeAllLogDirs demo_kadm w = (Inr demo_dirs, w @ [''DescribeLogDirs''])"
  "ListStartOffsets demo_kadm w = (Inr demo_starts, w @ [''ListOffsets''])"
  "ListEndOffsets demo_kadm w = (Inr (demo_ends (if ''sleep'' \<in> set w then 60 else 0)), w @ [''ListOffsets''])"
  by (simp_all add: demo_kadm_def serve_def)

lemma demo_topics_good:
  "gomap_ok demo_topic_reply"
  "list_all (\<lambda>p. kadm_topic_ok (snd p) \<and> kt_Err (snd p) = None) demo_topic_reply"
  "failed_topic demo_topic_reply = None"
  by (simp_all add: demo_topic_reply_def gomap_ok_def kadm_topic_ok_def replica_lists_small_def failed_topic_def)

theorem topics_correct_witness:
  "\<exists>ts. client_Topics demo_kadm [] = (Inr ts, [''Metadata'']) \<and> sorted_wrt (<) (map ti_Name ts) \<and>
     (''orders'', False, 2, 3, [(0, [1, 2]), (1, [2, 3, 1])])
       \<in> set (map (\<lambda>t. (ti_Name t, ti_IsInternal t, sint (ti_Partitions t), sint (ti_ReplicationFactor t),
                    ti_Replicas t)) ts)"
proof -
  let ?view = "\<lambda>t. (ti_Name t, ti_IsInternal t, sint (ti_Partitions t), sint (ti_ReplicationFactor t),
                    ti_Replicas t)"
  let ?spec = "\<lambda>(n, d). (n, kt_IsInternal d, int (length (kt_Partitions d)),
                    largest_replica_list (kt_Partitions d), kt_Partitions d)"
  have "ListTopics demo_kadm [] = (Inr demo_topic_reply, [''Metadata''])" by simp
  from topics_correct[OF this demo_topics_good(1,2)] obtain ts
    where ts: "client_Topics demo_kadm [] = (Inr ts, [''Metadata''])" "sorted_wrt (<) (map ti_Name ts)"
      and eq: "set (map ?view ts) = set (map ?spec demo_topic_reply)"
    by (elim exE conjE)
  have "(''orders'', False, 2, 3, [(0, [1, 2]), (1, [2, 3, 1])]) \<in> set (map ?spec demo_topic_reply)"
    by (simp add: demo_topic_reply_def largest_replica_list_def)
  then show ?thesis unfolding eq[symmetric] using ts by (intro exI conjI)
qed

theorem topics_order_irrelevant_witness:
  "fst (client_Topics (demo_kadm\<lparr>ListTopics := serve ''Metadata'' (rev demo_topic_reply)\<rparr>) [])
   = fst (client_Topics demo_kadm [])"
  using demo_topics_good
  by (intro topics_order_irrelevant[of demo_kadm "[]" demo_topic_reply "[''Metadata'']" _ "[]"
        "rev demo_topic_reply" "[''Metadata'']"]) (simp_all add: serve_def)

theorem topic_configs_correct_witness:
  "\<exists>m. client_TopicConfigs demo_kadm [''orders''] [] = (Inr m, [''DescribeConfigs'']) \<and>
     map_option tc_RetentionMs (map_of m ''orders'') = Some (Some ''604800000'')"
  using topic_configs_correct[of "[''orders'']" demo_kadm "[]" demo_config_reply "[''DescribeConfigs'']" "''orders''"]
  by (auto simp: demo_config_reply_def failed_config_def last_value_def)

theorem log_dir_sizes_correct_witness:
  "\<exists>m. client_LogDirSizes demo_kadm [] = (Inr m, [''DescribeLogDirs'']) \<and>
     map_of (mget [] m ''orders'') 0 = Some [4000000000, 4000000000]"
  using log_dir_sizes_correct[of demo_kadm "[]" demo_dirs "[''DescribeLogDirs'']" "''orders''" 0]
  by (auto simp: demo_dirs_def reported_sizes_def)

lemma demo_offsets_good:
  "gomap_ok demo_starts" "list_all (\<lambda>p. gomap_ok (snd p)) demo_starts"
  by (simp_all add: demo_starts_def gomap_ok_def)

theorem flatten_offsets_correct_witness:
  "map_option (\<lambda>m. map_of m 1) (map_of (flattenOffsets demo_starts) ''orders'') = Some (Some 40) \<and>
   map_option (\<lambda>m. map_of m 0) (map_of (flattenOffsets demo_starts) ''clicks'') = Some None"
  using flatten_offsets_correct[OF demo_offsets_good, of 1 "''orders''"]
    flatten_offsets_correct[OF demo_offsets_good, of 0 "''clicks''"]
  by (simp add: demo_starts_def)

theorem committed_offsets_correct_witness:
  "\<exists>m. client_CommittedOffsets demo_kadm [''old'', ''web''] [] = (Inr m, [''OffsetFetch'', ''OffsetFetch'']) \<and>
     map_option (\<lambda>topics. fst ` set topics) (map_of m ''web'') = Some {''orders''}"
proof -
  have fetch: "fetch_all demo_kadm [''old'', ''web''] [] =
      ([Inl ''group is gone'', Inr [\<lparr>or_Topic = ''orders'', or_Err = None\<rparr>,
                \<lparr>or_Topic = ''orders'', or_Err = None\<rparr>, \<lparr>or_Topic = ''clicks'', or_Err = Some ''denied''\<rparr>]],
       [''OffsetFetch'', ''OffsetFetch''])"
    by (simp add: demo_kadm_def serve_def)
  have "map_option (\<lambda>resp. set (map or_Topic (filter (\<lambda>r. or_Err r = None) resp)))
      (map_of (answered [''old'', ''web''] (fst (fetch_all demo_kadm [''old'', ''web''] []))) ''web'')
      = Some {''orders''}"
    unfolding fetch by (simp add: answered_def del: set_map set_filter)
  then show ?thesis
    using committed_offsets_correct[OF _ fetch, of "''web''"] by (simp only: fetch fst_conv) auto
qed

subsection \<open>The snapshot of the demo cluster\<close>

definition demo_opts :: "i64 \<Rightarrow> options" where
  "demo_opts window = \<lparr>o_ClusterName = '''', o_Provider = '''', o_Now = zero_time, o_SampleWindow = window,
     o_IncludeInternal = False\<rparr>"

definition demo_clock :: "demo_world \<Rightarrow> gotime \<times> demo_world" where
  "demo_clock w = (utc 1700000000000000000, w)"

definition demo_sleep :: "i64 \<Rightarrow> (demo_world, unit) call" where
  "demo_sleep d = serve ''sleep'' ()"

definition live_orders :: topic where
  "live_orders =
     \<lparr>Name = ''orders'', Partitions = 2, ReplicationFactor = 3, RetentionMs = 604800000,
      CompressionType = ''zstd'', CleanupPolicy = ''delete'', RetainedBytes = 8000000500,
      BytesInPerSec = Fin 0, BytesOutPerSec = Fin 0, ThroughputSource = ''none'',
      PartitionBytes = [8000000000, 500], EarliestOffset = 40, LatestOffset = 900,
      MaxConsumerLagMs = - 1, ActiveConsumers = 1\<rparr>"

definition live_clicks :: topic where
  "live_clicks =
     \<lparr>Name = ''clicks'', Partitions = 1, ReplicationFactor = 1, RetentionMs = - 1,
      CompressionType = ''producer'', CleanupPolicy = ''delete'', RetainedBytes = 5000000000,
      BytesInPerSec = Fin 0, BytesOutPerSec = Fin 0, ThroughputSource = ''none'',
      PartitionBytes = [5000000000], EarliestOffset = 0, LatestOffset = 30, MaxConsumerLagMs = - 1,
      ActiveConsumers = 0\<rparr>"

definition live_wide :: topic where
  "live_wide =
     \<lparr>Name = ''wide'', Partitions = 16, ReplicationFactor = 1, RetentionMs = - 1,
      CompressionType = ''producer'', CleanupPolicy = ''delete'', RetainedBytes = 0,
      BytesInPerSec = Fin 0, BytesOutPerSec = Fin 0, ThroughputSource = ''none'',
      PartitionBytes = [], EarliestOffset = 0, LatestOffset = 0, MaxConsumerLagMs = - 1,
      ActiveConsumers = 0\<rparr>"

definition live_snapshot :: snapshot where
  "live_snapshot =
     \<lparr>TakenAt = utc 1700000000000000000,
      Cluster = \<lparr>ClusterName = ''kafka-cluster'', ClusterProvider = ''self''\<rparr>,
      Topics = [live_clicks, live_orders, live_wide],
      Groups = [\<lparr>GroupID = ''old'', State = ''Empty'', LastCommitAgeDays = - 1\<rparr>,
                \<lparr>GroupID = ''web'', State = ''Stable'', LastCommitAgeDays = - 1\<rparr>],
      Brokers = [\<lparr>BrokerID = 1, LogDirBytes = 0\<rparr>, \<lparr>BrokerID = 3, LogDirBytes = 0\<rparr>]\<rparr>"

definition demo_requests :: demo_world where
  "demo_requests = [''Metadata'', ''Metadata'', ''DescribeConfigs'', ''DescribeLogDirs'',
     ''ListOffsets'', ''ListOffsets'', ''ListGroups'', ''OffsetFetch'', ''OffsetFetch'']"

lemma demo_collect:
  "collect_Build demo_kadm demo_clock demo_sleep (demo_opts 0) [] = (Inr live_snapshot, demo_requests)"
  by code_simp

theorem collected_snapshot_witness:
  "sorted (map Name (Topics live_snapshot)) \<and> TakenAt live_snapshot = utc 1700000000000000000"
  using collected_snapshot[OF demo_collect] by (simp add: demo_opts_def demo_clock_def IsZero_def)

lemma demo_recorded:
  "collect_Build (recorded_kadm demo_kadm) (recorded_clock demo_clock) (recorded_sleep demo_sleep) (demo_opts 0) ([], []) =
     (Inr live_snapshot, (demo_requests,
       [(ReadClock, False), (AskMetadata, False), (AskTopics, False), (AskConfigs [''clicks'', ''orders'', ''wide''], False),
        (AskLogDirs, False), (AskStartOffsets, False), (AskEndOffsets, False), (AskGroups, False),
        (AskCommitted ''old'', True), (AskCommitted ''web'', False)]))"
  by code_simp

theorem build_requests_witness:
  "collect_Build demo_kadm demo_clock demo_sleep (demo_opts 0) [] = (Inr live_snapshot, demo_requests) \<and>
   build_plan (demo_opts 0) [''clicks'', ''orders'', ''wide''] [''old'', ''web''] =
     [ReadClock, AskMetadata, AskTopics, AskConfigs [''clicks'', ''orders'', ''wide''], AskLogDirs, AskStartOffsets,
      AskEndOffsets, AskGroups, AskCommitted ''old'', AskCommitted ''web'']"
  using build_requests[OF demo_recorded] by (simp add: live_snapshot_def live_clicks_def live_orders_def live_wide_def)

definition broken_kadm :: "demo_world kadm" where
  "broken_kadm = demo_kadm\<lparr>ListEndOffsets := (\<lambda>w. (Inl ''timed out'', w @ [''ListOffsets'']))\<rparr>"

lemma broken_collect:
  "collect_Build broken_kadm demo_clock demo_sleep (demo_opts 0) [] =
     (Inl ''kafka: list end offsets: timed out'',
      [''Metadata'', ''Metadata'', ''DescribeConfigs'', ''DescribeLogDirs'', ''ListOffsets'', ''ListOffsets''])"
  by code_simp

theorem build_error_origin_witness:
  "prefix ''kafka: '' (''kafka: list end offsets: timed out'' :: gostring)"
  using build_error_origin[OF broken_collect] by (simp add: demo_opts_def)

theorem retained_bytes_footprint_witness:
  "\<exists>m. client_LogDirSizes demo_kadm [] = (Inr m, [''DescribeLogDirs'']) \<and>
     sint (sumReplicaBytes (mget [] m ''orders'')) = 8000000500"
  using retained_bytes_footprint[of demo_kadm "[]" demo_dirs "[''DescribeLogDirs'']" _ "''orders''"]
  by (simp add: demo_dirs_def)

end
