(* ===== verification/LiveRules.thy ===== *)
theory LiveRules
  imports DemoCluster
begin

text \<open>
  The rules on a collected snapshot: what a live scan can and cannot report. A single
  snapshot knows neither how long a group has been empty nor a consumer's lag in time, so two
  rules never fire; without a sample window the rate is unknown, yet R1 reads it as 0; and the
  provider given on the command line does not reach R4.
\<close>

text \<open>C33: R2 and R3 never report anything on a snapshot collected from a live cluster, whatever
  their thresholds: the history they need is marked unknown.\<close>

theorem live_never_r2_r3:
  assumes "collect_Build adm clock sleep opts w = (Inr s, w')"
    and "evaluate (hs @ [s]) cm c = Some fs" "f \<in> set fs"
  shows "RuleID f \<noteq> ''R2'' \<and> RuleID f \<noteq> ''R3''"
proof (intro conjI notI)
  note col = collected_facts[OF assms(1)]
  let ?ctx = "eval_context s cm c"
  {
    assume "RuleID f = ''R2''"
    moreover have "\<lparr>rule_ident = ''R2'', staticCapable = True, rule_eval = evalR2\<rparr> \<in> set registry"
      by (simp add: registry_def)
    ultimately obtain gs where "evalR2 ?ctx = Some gs" "f \<in> set gs"
      using evaluate_by_rule[OF assms(2,3)] by (metis latest_snoc(1) option.inject rule.select_convs(1,3))
    then obtain g where "g \<in> set (Groups s)" "r2_body ?ctx g = Emit f"
      using walk_set[of "r2_body ?ctx"] by (auto simp: evalR2_def)
    then show False using col by (auto simp: r2_emit list_all_iff signed_cmp)
  next
    assume "RuleID f = ''R3''"
    moreover have "\<lparr>rule_ident = ''R3'', staticCapable = True, rule_eval = evalR3\<rparr> \<in> set registry"
      by (simp add: registry_def)
    ultimately obtain gs where "evalR3 ?ctx = Some gs" "f \<in> set gs"
      using evaluate_by_rule[OF assms(2,3)] by (metis latest_snoc(1) option.inject rule.select_convs(1,3))
    then obtain t where "t \<in> set (Topics s)" "r3_body ?ctx t = Emit f"
      using walk_set[of "r3_body ?ctx"] by (auto simp: evalR3_def)
    then show False using col by (auto simp: r3_body_def collected_topic_def list_all_iff Let_def signed_cmp split: if_splits)
  }
qed

text \<open>C21: A live scan always ends in a report: with the default configuration and a cost model of
  the form the command line builds, evaluating a collected snapshot whose retained bytes are not
  negative does not panic, and no saving in it is negative or undefined.\<close>

theorem live_scan_reports:
  assumes "collect_Build adm clock sleep opts w = (Inr s, w')" "model_ok cm"
    and "list_all (\<lambda>t. 0 \<le> sint (RetainedBytes t)) (Topics s)"
  shows "\<exists>fs. evaluate [s] cm (defaultConfig now) = Some fs \<and>
     list_all (\<lambda>f. 0 \<le> EstSavingEUR f \<and> EstSavingEUR f \<noteq> NaN) fs \<and> 0 \<le> totalSavingsEUR fs"
proof -
  have ok: "list_all topic_ok (Topics s)"
    using collected_facts[OF assms(1)] assms(3)
    by (auto simp: list_all_iff topic_ok_def collected_topic_def f64_okD)
  obtain gs where run: "run_rules (eval_context s cm (defaultConfig now)) False registry = Some gs"
    using run_rules_defined[of registry "eval_context s cm (defaultConfig now)"] registry_rules by auto
  define fs where "fs = slice_stable finding_less gs"
  have ev: "evaluate [s] cm (defaultConfig now) = Some fs"
    by (simp add: evaluate_latest_run run fs_def)
  have ctx: "ctx_ok (eval_context s cm (defaultConfig now))"
    using ok resolve_prices_ok[OF assms(2)] by (simp add: ctx_ok_def)
  have pos: "0 \<le> EstSavingEUR f" if f: "f \<in> set fs" for f
  proof -
    obtain s' r gs where o: "latest [s] = Some s'" "r \<in> set registry"
      "rule_eval r (eval_context s' cm (defaultConfig now)) = Some gs" "f \<in> set gs"
      using evaluate_origin[OF ev f] by metis
    then have "s' = s" by simp
    then show ?thesis using engine_rule.ev_saving[OF registry_rules[OF o(2)] ctx] o(3,4) by simp
  qed
  show ?thesis
    using ev pos totalSavings_nonneg nonneg_not_nan by (intro exI[of _ fs]) (auto simp: list_all_iff)
qed

text \<open>C20: Without a sample window, the topics R1 reports as dead are exactly those of at least
  1 GiB without active consumers that are not internal to Kafka Streams (a changelog or a
  repartition topic, which R1 skips), whatever is written to them: the rate it tests is 0 because
  it was not measured (the snapshot labels it \<open>none\<close>, which R1 does not look at).\<close>

theorem unsampled_scan_flags_idle_consumers:
  assumes "collect_Build adm clock sleep opts w = (Inr s, w')" "o_SampleWindow opts \<le>s 0"
    and "evaluate (hs @ [s]) cm (defaultConfig now) = Some fs"
  shows "{n. ''R1:'' @ n \<in> ResourceKey ` set fs} =
     Name ` {t \<in> set (Topics s). \<not> isStreamsInternal (Name t) \<and> sint (ActiveConsumers t) \<le> 0 \<and>
                2 ^ 30 \<le> sint (RetainedBytes t)}"
proof -
  let ?c = "defaultConfig now"
  let ?ctx = "eval_context s cm ?c"
  let ?dead = "\<lambda>t. \<not> isStreamsInternal (Name t) \<and> sint (ActiveConsumers t) \<le> 0 \<and> 2 ^ 30 \<le> sint (RetainedBytes t)"
  have zero: "BytesInPerSec t = 0" if "t \<in> set (Topics s)" for t
    using collected_facts[OF assms(1)] assms(2) that by (auto simp: list_all_iff collected_topic_def)
  obtain gs where gs: "evalR1 ?ctx = Some gs" using only_r7_panics(1) by (metis option.exhaust)
  have "r1_body ?ctx t = Emit f \<longleftrightarrow> ?dead t \<and> f = r1_finding ?ctx t" if "t \<in> set (Topics s)" for t f
    using zero[OF that] by (auto simp: r1_emit defaultConfig_def defaultR1_def less_fin signed_cmp)
  then have set: "set gs = r1_finding ?ctx ` {t \<in> set (Topics s). ?dead t}"
    using gs walk_image[of "r1_body ?ctx" "Topics s" gs] by (simp add: evalR1_def)
  have mem: "{f \<in> set fs. RuleID f = ''R1''} = set gs"
    using evaluate_rule_set[OF assms(3), of "\<lparr>rule_ident = ''R1'', staticCapable = True, rule_eval = evalR1\<rparr>" gs]
      gs by (simp add: registry_def disabled_def defaultConfig_def)
  have "''R1:'' @ n \<in> ResourceKey ` set fs \<longleftrightarrow> ''R1:'' @ n \<in> ResourceKey ` set gs" for n
  proof
    assume "''R1:'' @ n \<in> ResourceKey ` set fs"
    then obtain f where f: "''R1:'' @ n = ResourceKey f" "f \<in> set fs" by (rule imageE)
    then have "f \<in> set gs" using key_ident[OF assms(3) f(2), of "''R1''" n] mem by auto
    then show "''R1:'' @ n \<in> ResourceKey ` set gs" using f(1) by blast
  qed (use mem in blast)
  then have "{n. ''R1:'' @ n \<in> ResourceKey ` set fs} = {n. ''R1:'' @ n \<in> ResourceKey ` set gs}"
    by blast
  also have "\<dots> = Name ` {t \<in> set (Topics s). ?dead t}"
    unfolding set by (auto simp: finding_shape resource_key_def image_iff)
  finally show ?thesis .
qed

text \<open>C34: On a snapshot collected by the command line, which records no provider, R4 never uses
  Confluent's price per partition, also when the cost model says the cluster is Confluent's:
  every R4 finding is priced as amortised broker overhead.\<close>

theorem live_r4_ignores_provider:
  assumes "collect_Build adm clock sleep opts w = (Inr s, w')" "o_Provider opts = ''''"
    and "evaluate (hs @ [s]) cm c = Some fs" "f \<in> set fs" "RuleID f = ''R4''"
  shows "prefix (''ASSUMPTION: amortized broker overhead '') (Basis f)"
proof -
  let ?ctx = "eval_context s cm c"
  have prov: "ClusterProvider (Cluster s) = ''self''"
    using collected_cluster[OF assms(1)] assms(2) by (simp add: providerOrSelf_def)
  have "\<lparr>rule_ident = ''R4'', staticCapable = True, rule_eval = evalR4\<rparr> \<in> set registry"
    by (simp add: registry_def)
  then obtain gs where "evalR4 ?ctx = Some gs" "f \<in> set gs"
    using evaluate_by_rule[OF assms(3,4)] assms(5) by (metis latest_snoc(1) option.inject rule.select_convs(1,3))
  then obtain t where "r4_body ?ctx t = Emit f"
    using walk_set[of "r4_body ?ctx"] by (auto simp: evalR4_def)
  then show ?thesis
    by (auto simp: r4_emit r4_finding_def r4_priced_def prov Let_def)
qed

subsection \<open>The demo cluster\<close>

lemma live_sizes: "list_all (\<lambda>t. 0 \<le> sint (RetainedBytes t)) (Topics live_snapshot)"
  by (simp add: live_snapshot_def live_clicks_def live_orders_def live_wide_def)

theorem live_scan_reports_witness:
  "\<exists>fs. evaluate [live_snapshot] demo_model (defaultConfig zero_time) = Some fs \<and> 0 \<le> totalSavingsEUR fs"
  using live_scan_reports[OF demo_collect demo_model_ok live_sizes, of zero_time] by blast

lemma live_internal: "isStreamsInternal ''clicks'' = False" "isStreamsInternal ''orders'' = False"
  "isStreamsInternal ''wide'' = False"
  by code_simp+

theorem unsampled_scan_flags_idle_consumers_witness:
  "\<exists>fs. evaluate [live_snapshot] demo_model (defaultConfig zero_time) = Some fs \<and>
     {n. ''R1:'' @ n \<in> ResourceKey ` set fs} = {''clicks''}"
proof -
  obtain fs where fs: "evaluate ([] @ [live_snapshot]) demo_model (defaultConfig zero_time) = Some fs"
    using evaluate_defined[OF default_thresholds_default] by blast
  have "{t \<in> set (Topics live_snapshot). \<not> isStreamsInternal (Name t) \<and> sint (ActiveConsumers t) \<le> 0 \<and>
      2 ^ 30 \<le> sint (RetainedBytes t)} = {live_clicks}"
    by (auto simp: live_snapshot_def live_clicks_def live_orders_def live_wide_def live_internal)
  then show ?thesis
    using unsampled_scan_flags_idle_consumers[OF demo_collect _ fs] fs
    by (simp add: demo_opts_def live_clicks_def)
qed

theorem live_never_r2_r3_witness:
  "\<exists>fs. evaluate [live_snapshot] demo_model (defaultConfig zero_time) = Some fs \<and>
     list_all (\<lambda>f. RuleID f \<noteq> ''R2'') fs"
proof -
  obtain fs where fs: "evaluate ([] @ [live_snapshot]) demo_model (defaultConfig zero_time) = Some fs"
    using evaluate_defined[OF default_thresholds_default] by blast
  then show ?thesis
    using live_never_r2_r3[OF demo_collect fs] by (auto simp: list_all_iff)
qed

definition confluent_model :: costModel where
  "confluent_model = demo_model\<lparr>cm_Provider := ''confluent''\<rparr>"

theorem live_r4_ignores_provider_witness:
  "\<exists>fs f. evaluate [live_snapshot] confluent_model (defaultConfig zero_time) = Some fs \<and> f \<in> set fs \<and>
     RuleID f = ''R4'' \<and> prefix (''ASSUMPTION: amortized broker overhead '') (Basis f)"
proof -
  let ?ctx = "eval_context live_snapshot confluent_model (defaultConfig zero_time)"
  obtain fs where fs: "evaluate ([] @ [live_snapshot]) confluent_model (defaultConfig zero_time) = Some fs"
    using evaluate_defined[OF default_thresholds_default] by blast
  obtain gs where gs: "evalR4 ?ctx = Some gs" using only_r7_panics(4) by (metis option.exhaust)
  have cheap: "\<not> fl 1024 \<le> r4_perPart live_wide"
    by (simp add: r4_perPart_def live_wide_def signed_cmp of_i64_def div_fin le_fin rnd_def fbound_def)
  then have "sint (r4_proposed defaultR4 live_wide) = 12"
    using r4_proposed_exact[of defaultR4 live_wide] by (simp add: live_wide_def f64_ok_def)
  then have "r4_body ?ctx live_wide = Emit (r4_finding ?ctx live_wide (r4_proposed defaultR4 live_wide))"
    using cheap by (simp add: r4_emit defaultConfig_def signed_cmp)
      (simp add: defaultR4_def live_wide_def)
  moreover have "live_wide \<in> set (Topics (snap ?ctx))" by (simp add: live_snapshot_def)
  ultimately have "r4_finding ?ctx live_wide (r4_proposed defaultR4 live_wide) \<in> set gs"
    using gs walk_set[of "r4_body ?ctx"] by (auto simp: evalR4_def)
  then have f: "r4_finding ?ctx live_wide (r4_proposed defaultR4 live_wide) \<in> set fs"
    using evaluate_rule_set[OF fs, of "\<lparr>rule_ident = ''R4'', staticCapable = True, rule_eval = evalR4\<rparr>" gs]
      gs by (auto simp: registry_def disabled_def defaultConfig_def)
  then show ?thesis
    using live_r4_ignores_provider[OF demo_collect _ fs f] fs
    by (auto simp: finding_shape demo_opts_def)
qed

end
