(* ===== verification/Client.thy ===== *)
theory Client
  imports BuildFacts
begin

text \<open>
  Connecting to a cluster (\<open>internal/kafka/client.go\<close>) and the probe of the credential
  (\<open>readonly.go\<close>). Building the franz-go client from its options, and closing it, are calls
  of the library and parameters; the options are modelled as the list of those the code
  passes. The environment variables are a parameter too.
\<close>

subsection \<open>Configuration\<close>

text \<open>A \<open>SASLMechanism\<close> is a string; these are its constants.\<close>

definition SASLNone :: gostring where "SASLNone = ''''"
definition SASLPlain :: gostring where "SASLPlain = ''plain''"
definition SASLScramSHA256 :: gostring where "SASLScramSHA256 = ''scram-sha-256''"
definition SASLScramSHA512 :: gostring where "SASLScramSHA512 = ''scram-sha-512''"

record saslConfig =
  sc_Mechanism :: gostring
  sc_User :: gostring
  sc_Pass :: gostring

record connectConfig =
  cc_Bootstrap :: "gostring list"
  cc_TLS :: bool
  cc_SASL :: saslConfig
  cc_DialTimeout :: i64

definition defaultDialTimeout :: i64 where
  "defaultDialTimeout = 10 * 1000000000"

definition envUser :: gostring where "envUser = ''BROD_KAFKA_USER''"
definition envPass :: gostring where "envPass = ''BROD_KAFKA_PASS''"

type_synonym environment = "gostring \<Rightarrow> gostring" \<comment> \<open>\<open>os.Getenv\<close>\<close>

subsection \<open>SASL\<close>

datatype mechanism =
  PlainAuth gostring gostring
| ScramSha256 gostring gostring
| ScramSha512 gostring gostring

definition sasl_user :: "environment \<Rightarrow> saslConfig \<Rightarrow> gostring" where
  "sasl_user env s = (if sc_User s = '''' then env envUser else sc_User s)"

definition sasl_pass :: "environment \<Rightarrow> saslConfig \<Rightarrow> gostring" where
  "sasl_pass env s = (if sc_Pass s = '''' then env envPass else sc_Pass s)"

definition saslMechanism :: "environment \<Rightarrow> saslConfig \<Rightarrow> gostring + mechanism option" where
  "saslMechanism env s =
     (if sc_Mechanism s = SASLNone then Inr None
      else
        let user = sasl_user env s; pass = sasl_pass env s
        in if user = '''' \<or> pass = ''''
           then Inl (''kafka: SASL '' @ sc_Mechanism s @ '' requires a user and pass (flags or '' @
                     envUser @ ''/'' @ envPass @ '' env)'')
           else if sc_Mechanism s = SASLPlain then Inr (Some (PlainAuth user pass))
           else if sc_Mechanism s = SASLScramSHA256 then Inr (Some (ScramSha256 user pass))
           else if sc_Mechanism s = SASLScramSHA512 then Inr (Some (ScramSha512 user pass))
           else Inl (''kafka: unsupported SASL mechanism '' @ go_quote (sc_Mechanism s) @
                     '' (want plain|scram-sha-256|scram-sha-512)''))"

subsection \<open>Redaction\<close>

text \<open>\<open>strings.ReplaceAll(s, old, new)\<close> for a non-empty \<open>old\<close>: leftmost, not overlapping.\<close>

function replace_all :: "gostring \<Rightarrow> gostring \<Rightarrow> gostring \<Rightarrow> gostring" where
  "replace_all s old new =
     (if old = [] \<or> s = [] then s
      else if hasPrefix s old then new @ replace_all (drop (length old) s) old new
      else hd s # replace_all (tl s) old new)"
  by pat_completeness auto
termination
proof (relation "measure (\<lambda>(s, old, new). length s)")
  fix s old new :: gostring
  assume "\<not> (old = [] \<or> s = [])"
  then show "((drop (length old) s, old, new), s, old, new) \<in> measure (\<lambda>(s, old, new). length s)"
    by (cases s; cases old) auto
qed auto

declare replace_all.simps [simp del]

definition redactCreds :: "environment \<Rightarrow> gostring \<Rightarrow> saslConfig \<Rightarrow> gostring" where
  "redactCreds env err s =
     fold (\<lambda>secret msg. if secret \<noteq> '''' then replace_all msg secret ''***'' else msg)
       [sc_Pass s, env envPass] err"

subsection \<open>Connecting\<close>

datatype kgo_opt =
  SeedBrokers "gostring list"
| ClientID gostring
| DialTimeoutOpt i64
| DialTLS12
| SASLOpt mechanism

definition client_opts :: "connectConfig \<Rightarrow> mechanism option \<Rightarrow> kgo_opt list" where
  "client_opts c mech =
     [SeedBrokers (cc_Bootstrap c), ClientID ''brod''] @
     [DialTimeoutOpt (if 0 <s cc_DialTimeout c then cc_DialTimeout c else defaultDialTimeout)] @
     (if cc_TLS c then [DialTLS12] else []) @
     (case mech of None \<Rightarrow> [] | Some m \<Rightarrow> [SASLOpt m])"

text \<open>
  \<open>kgo.NewClient\<close>, the admin client on it, and \<open>Close\<close>; a connected \<open>Client\<close> is the handle
  with its admin client. \<open>DescribeACLs\<close> belongs to the probe below.
\<close>

datatype acl_operation =
  OpAll | OpWrite | OpAlter | OpAlterConfigs | OpDelete | OpCreate | OpRead
| OpOther gostring \<comment> \<open>the ones the code does not name\<close>

record kadm_acl =
  acl_Type :: gostring \<comment> \<open>the resource type as it prints\<close>
  acl_IsTopic :: bool \<comment> \<open>it is \<open>kmsg.ACLResourceTypeTopic\<close>\<close>
  acl_Name :: gostring
  acl_Operation :: acl_operation
  acl_IsAllow :: bool

record kadm_acl_result =
  ar_Err :: "gostring option"
  ar_Described :: "kadm_acl list"

record ('h, 'w) kgo =
  NewClient :: "kgo_opt list \<Rightarrow> ('w, 'h) call"
  Close :: "'h \<Rightarrow> 'w \<Rightarrow> 'w"
  Admin :: "'h \<Rightarrow> 'w kadm"
  DescribeACLs :: "'h \<Rightarrow> ('w, kadm_acl_result list) call"

definition Connect :: "('h, 'w) kgo \<Rightarrow> environment \<Rightarrow> connectConfig \<Rightarrow> ('w, 'h) call" where
  "Connect lib env c w =
     (if cc_Bootstrap c = [] then (Inl ''kafka: no bootstrap servers given'', w)
      else case saslMechanism env (cc_SASL c) of
        Inl e \<Rightarrow> (Inl e, w)
      | Inr mech \<Rightarrow>
          bindE (wrapE ''kafka: building client'' (NewClient lib (client_opts c mech))) (\<lambda>kcl w.
            case BrokerMetadata (Admin lib kcl) w of
              (Inl e, w') \<Rightarrow> (Inl (''kafka: connecting to cluster: '' @ redactCreds env e (cc_SASL c)), Close lib kcl w')
            | (Inr md, w') \<Rightarrow> (Inr kcl, w')) w)"

subsection \<open>The probe of the credential\<close>

record readOnlyCheck =
  Supported :: bool
  Violations :: "gostring list"

definition writeishViolation :: "kadm_acl \<Rightarrow> gostring" where
  "writeishViolation a =
     (let res = acl_Type a @ '' '' @ go_quote (acl_Name a); op = acl_Operation a
      in if op = OpAll then ''ALL granted on '' @ res @ '' (includes write+consume)''
         else if op = OpWrite then ''WRITE granted on '' @ res
         else if op = OpAlter \<or> op = OpAlterConfigs then ''ALTER granted on '' @ res
         else if op = OpDelete then ''DELETE granted on '' @ res
         else if op = OpCreate then ''CREATE granted on '' @ res
         else if op = OpRead \<and> acl_IsTopic a
           then ''topic READ granted on '' @ res @ '' (permits consuming message payloads)''
         else '''')"

definition scan_acls :: "kadm_acl list \<Rightarrow> gostring list \<Rightarrow> gostring list" where
  "scan_acls acls vs =
     fold (\<lambda>acl vs. if \<not> acl_IsAllow acl then vs
                    else let v = writeishViolation acl in if v \<noteq> '''' then vs @ [v] else vs) acls vs"

definition check_results :: "kadm_acl_result list \<Rightarrow> readOnlyCheck" where
  "check_results results =
     fold (\<lambda>res chk. if ar_Err res \<noteq> None then chk\<lparr>Supported := False\<rparr>
                     else chk\<lparr>Violations := scan_acls (ar_Described res) (Violations chk)\<rparr>)
       results \<lparr>Supported = True, Violations = []\<rparr>"

definition CheckReadOnly :: "('h, 'w) kgo \<Rightarrow> 'h \<Rightarrow> ('w, readOnlyCheck) call" where
  "CheckReadOnly lib h w =
     (case DescribeACLs lib h w of
        (Inl e, w') \<Rightarrow> (Inr \<lparr>Supported = False, Violations = []\<rparr>, w')
      | (Inr results, w') \<Rightarrow> (Inr (check_results results), w'))"

end
