(* ===== verification/Live.thy ===== *)
theory Live
  imports Client
begin

text \<open>
  The live path of the command line (\<open>cmd/brod/live.go\<close>): the banner, the connection, the
  optional check of the credential and the collection. What is written to standard error is
  a parameter \<open>eprint\<close> on the world; deadlines of the context are not modelled beyond the
  time-out that is computed for them.
\<close>

definition readOnlyBanner :: gostring where
  "readOnlyBanner = ''brod is read-only: it issues only Admin/Describe/Metadata/ListOffsets/OffsetFetch '' @
     utf_emdash @ '' no produce, no consume, no message payloads ever.''"

record connectFlags =
  cf_bootstrap :: gostring
  cf_tls :: bool
  cf_saslMechanism :: gostring
  cf_user :: gostring
  cf_pass :: gostring
  cf_clusterName :: gostring
  cf_sampleWindow :: i64
  cf_requireReadOnly :: bool
  cf_includeInternal :: bool

text \<open>The values of the flags that are not given.\<close>

definition registerConnectFlags :: connectFlags where
  "registerConnectFlags =
     \<lparr>cf_bootstrap = '''', cf_tls = False, cf_saslMechanism = '''', cf_user = '''', cf_pass = '''',
      cf_clusterName = '''', cf_sampleWindow = 30 * 1000000000, cf_requireReadOnly = False,
      cf_includeInternal = False\<rparr>"

subsection \<open>Host lists\<close>

definition splitCSV :: "gostring \<Rightarrow> gostring list" where
  "splitCSV s = filter (\<lambda>p. p \<noteq> '''') (map trim_space (split_on (CHR '','') s))"

text \<open>\<open>strings.LastIndex\<close> of a one-byte string.\<close>

definition last_index :: "char \<Rightarrow> gostring \<Rightarrow> nat option" where
  "last_index c s =
     (if c \<in> set s then Some (length s - 1 - length (takeWhile (\<lambda>d. d \<noteq> c) (rev s))) else None)"

definition firstHost :: "gostring \<Rightarrow> gostring" where
  "firstHost bootstrap =
     (case splitCSV bootstrap of
        [] \<Rightarrow> ''kafka-cluster''
      | h # _ \<Rightarrow> (case last_index (CHR '':'') h of
            Some i \<Rightarrow> if 0 < i then take i h else h
          | None \<Rightarrow> h))"

definition collectTimeout :: "i64 \<Rightarrow> i64" where
  "collectTimeout window = window + 60 * 1000000000"

subsection \<open>The read-only check\<close>

definition squote :: gostring where "squote = [CHR 0x27]"
definition backslash :: gostring where "backslash = [CHR 0x5C]"

definition acl_lines :: "gostring list" where
  "acl_lines =
     [''  Grant a minimal read-only principal instead (adjust --bootstrap-server and User:brod):'',
      '''',
      ''    kafka-acls --bootstrap-server <host:9092> '' @ backslash,
      ''      --add --allow-principal User:brod '' @ backslash,
      ''      --operation Describe --operation DescribeConfigs '' @ backslash,
      ''      --cluster --topic '' @ squote @ ''*'' @ squote @ '' --group '' @ squote @ ''*'' @ squote,
      '''',
      ''  This permits metadata/describe/offset reads only '' @ utf_emdash @
        '' no Read (consume), no Write, no Alter.'']"

definition minimalReadOnlyACL :: gostring where
  "minimalReadOnlyACL = concat (map (\<lambda>l. l @ newline) acl_lines)"

definition refusal :: "gostring list \<Rightarrow> gostring" where
  "refusal vs =
     ''credential is NOT read-only '' @ utf_emdash @
     '' refusing to proceed (--require-readonly). Detected grants:'' @ newline @
     concat (map (\<lambda>v. ''    - '' @ v @ newline) vs) @ minimalReadOnlyACL"

definition enforceReadOnly :: "('h, 'w) kgo \<Rightarrow> (gostring \<Rightarrow> 'w \<Rightarrow> 'w) \<Rightarrow> 'h \<Rightarrow> ('w, unit) call" where
  "enforceReadOnly lib eprint h =
     bindE (wrapE ''read-only check failed'' (CheckReadOnly lib h)) (\<lambda>chk w.
       if \<not> Supported chk then
         (Inr (), eprint (''  note: cluster did not expose ACLs (no authorizer or insufficient Describe) '' @
            utf_emdash @ '' could not verify read-only; proceeding on the read-only banner'' @ squote @
            ''s guarantee. Full enforcement is a brod.sh (SaaS) feature.'' @ newline) w)
       else if Violations chk \<noteq> [] then (Inl (refusal (Violations chk)), w)
       else (Inr (), eprint (''  read-only check: passed (no write/topic-READ grants detected for this principal).''
            @ newline) w))"

subsection \<open>Connect and collect\<close>

definition connect_config :: "connectFlags \<Rightarrow> connectConfig" where
  "connect_config cf =
     \<lparr>cc_Bootstrap = splitCSV (cf_bootstrap cf), cc_TLS = cf_tls cf,
      cc_SASL = \<lparr>sc_Mechanism = cf_saslMechanism cf, sc_User = cf_user cf, sc_Pass = cf_pass cf\<rparr>,
      cc_DialTimeout = 0\<rparr>"

definition cluster_label :: "connectFlags \<Rightarrow> gostring" where
  "cluster_label cf = (if cf_clusterName cf = '''' then firstHost (cf_bootstrap cf) else cf_clusterName cf)"

definition live_options :: "connectFlags \<Rightarrow> gotime \<Rightarrow> options" where
  "live_options cf now =
     \<lparr>o_ClusterName = cluster_label cf, o_Provider = '''', o_Now = now,
      o_SampleWindow = cf_sampleWindow cf, o_IncludeInternal = cf_includeInternal cf\<rparr>"

text \<open>What is done on the connected client, before the deferred \<open>Close\<close>.\<close>

definition on_client :: "('h, 'w) kgo \<Rightarrow> (gostring \<Rightarrow> 'w \<Rightarrow> 'w) \<Rightarrow> ('w \<Rightarrow> gotime \<times> 'w) \<Rightarrow> (i64 \<Rightarrow> ('w, unit) call)
    \<Rightarrow> connectFlags \<Rightarrow> 'h \<Rightarrow> ('w, snapshot) call" where
  "on_client lib eprint clock ctxSleep cf h =
     bindE (if cf_requireReadOnly cf then enforceReadOnly lib eprint h else returnE ()) (\<lambda>_ w.
       let (now, w') = clock w
       in collect_Build (Admin lib h) clock ctxSleep (live_options cf now) w')"

definition connectAndCollect :: "('h, 'w) kgo \<Rightarrow> environment \<Rightarrow> (gostring \<Rightarrow> 'w \<Rightarrow> 'w) \<Rightarrow> ('w \<Rightarrow> gotime \<times> 'w)
    \<Rightarrow> (i64 \<Rightarrow> ('w, unit) call) \<Rightarrow> connectFlags \<Rightarrow> ('w, snapshot) call" where
  "connectAndCollect lib env eprint clock ctxSleep cf w =
     (if trim_space (cf_bootstrap cf) = ''''
      then (Inl ''--bootstrap is required (comma-separated host:port)'', w)
      else
        bindE (Connect lib env (connect_config cf)) (\<lambda>h w.
          let (r, w') = on_client lib eprint clock ctxSleep cf h w
          in (r, Close lib h w')) (eprint (''  '' @ readOnlyBanner @ newline) w))"

end
