(* ===== verification/LiveFacts.thy ===== *)
theory LiveFacts
  imports Live DemoCluster
begin

text \<open>
  What the live path guarantees: what the errors of a connection can contain, the banner
  comes before any contact with the cluster, the connection is closed on every path, and the
  credential check refuses exactly when the probe was complete and found something.
\<close>

subsection \<open>Redaction\<close>

lemma sublist_around: "c \<notin> set p \<Longrightarrow> sublist p (xs @ c # ys) \<longleftrightarrow> sublist p xs \<or> sublist p ys"
proof
  assume c: "c \<notin> set p" and s: "sublist p (xs @ c # ys)"
  then obtain as bs where eq: "xs @ c # ys = as @ p @ bs" by (auto simp: sublist_def)
  then consider us where "xs = as @ us" "us @ c # ys = p @ bs" | us where "xs @ us = as" "c # ys = us @ p @ bs"
    by (auto simp: append_eq_append_conv2)
  then show "sublist p xs \<or> sublist p ys"
  proof cases
    case 1
    then consider vs where "us = p @ vs" | vs where "us @ vs = p" "c # ys = vs @ bs"
      by (auto simp: append_eq_append_conv2)
    then show ?thesis
    proof cases
      case 2
      show ?thesis
      proof (cases vs)
        case Nil
        then have "xs = as @ p @ []" using 1 2 by simp
        then show ?thesis by (metis sublist_appendI)
      qed (use c 2 in auto)
    qed (use 1 in \<open>auto simp: sublist_def\<close>)
  next
    case 2
    then show ?thesis using c by (cases us; cases p) (auto simp: sublist_def)
  qed
qed (auto simp: sublist_append sublist_Cons_right)

lemma sublist_stars:
  "CHR ''*'' \<notin> set p \<Longrightarrow> p \<noteq> [] \<Longrightarrow> sublist p (xs @ ''***'' @ ys) \<longleftrightarrow> sublist p xs \<or> sublist p ys"
  using sublist_around[of "CHR ''*''" p xs "''**'' @ ys"] sublist_around[of "CHR ''*''" p "[]" "''*'' @ ys"]
    sublist_around[of "CHR ''*''" p "[]" ys] by simp

text \<open>Replacing anything by stars brings no new occurrence of a text without stars.\<close>

lemma replace_all_no_new:
  assumes "CHR ''*'' \<notin> set p" "p \<noteq> []"
  shows "sublist p (pre @ replace_all s old ''***'') \<Longrightarrow> sublist p (pre @ s)"
proof (induction s old "''***'' :: gostring" arbitrary: pre rule: replace_all.induct)
  case (1 s old)
  show ?case
  proof (cases "old = [] \<or> s = []")
    case True
    then show ?thesis using "1.prems" by (simp add: replace_all.simps[of s])
  next
    case False
    show ?thesis
    proof (cases "hasPrefix s old")
      case True
      then obtain rest where rest: "s = old @ rest" by (auto simp: hasPrefix_prefix prefix_def)
      then have "sublist p (pre @ ''***'' @ replace_all rest old ''***'')"
        using "1.prems" False True by (simp add: rest replace_all.simps[of "old @ rest"])
      then have "sublist p pre \<or> sublist p ([] @ replace_all rest old ''***'')"
        unfolding sublist_stars[OF assms] by simp
      then have "sublist p pre \<or> sublist p rest"
        using "1.hyps"(1)[OF False True, of "[]"] by (auto simp: rest)
      then show ?thesis unfolding rest by (auto simp: sublist_append)
    next
      case no: False
      then have "sublist p ((pre @ [hd s]) @ replace_all (tl s) old ''***'')"
        using "1.prems" False by (simp add: replace_all.simps[of s])
      from "1.hyps"(2)[OF False no this] False show ?thesis by simp
    qed
  qed
qed

text \<open>A secret without stars does not survive its own replacement.\<close>

lemma replace_all_removes:
  assumes "CHR ''*'' \<notin> set old" "old \<noteq> []" "\<forall>k < length pre. \<not> prefix old (drop k (pre @ s))"
  shows "\<not> sublist old (pre @ replace_all s old ''***'')"
  using assms
proof (induction s old "''***'' :: gostring" arbitrary: pre rule: replace_all.induct)
  case (1 s old)
  have no_pre: "\<not> sublist old pre"
  proof
    assume "sublist old pre"
    then obtain as bs where pre: "pre = as @ old @ bs" by (auto simp: sublist_def)
    then have "length as < length pre" "prefix old (drop (length as) (pre @ s))"
      using "1.prems"(2) by auto
    then show False using "1.prems"(3) by blast
  qed
  show ?case
  proof (cases "s = []")
    case True
    then show ?thesis using no_pre by (simp add: replace_all.simps[of "[]"])
  next
    case False
    then have nontrivial: "\<not> (old = [] \<or> s = [])" using "1.prems"(2) by simp
    show ?thesis
    proof (cases "hasPrefix s old")
      case True
      then obtain rest where rest: "s = old @ rest" by (auto simp: hasPrefix_prefix prefix_def)
      have "\<not> sublist old ([] @ replace_all rest old ''***'')"
        using "1.hyps"(1)[OF nontrivial True "1.prems"(1,2), of "[]"] by (simp add: rest)
      then have "\<not> sublist old (pre @ ''***'' @ replace_all rest old ''***'')"
        unfolding sublist_stars[OF "1.prems"(1,2)] using no_pre by simp
      then show ?thesis using True nontrivial by (simp add: rest replace_all.simps[of "old @ rest"])
    next
      case no: False
      have "\<not> prefix old (drop k ((pre @ [hd s]) @ tl s))" if "k < length (pre @ [hd s])" for k
        using that "1.prems"(3) no False by (cases "k = length pre") (auto simp: hasPrefix_prefix less_Suc_eq)
      then have "\<not> sublist old ((pre @ [hd s]) @ replace_all (tl s) old ''***'')"
        using "1.hyps"(2)[OF nontrivial no "1.prems"(1,2), of "pre @ [hd s]"] by simp
      then show ?thesis using no nontrivial by (simp add: replace_all.simps[of s])
    qed
  qed
qed

lemma replace_all_stars:
  assumes "CHR ''*'' \<notin> set p" "p \<noteq> []"
  shows "\<not> sublist p (replace_all s p ''***'')" "\<not> sublist p s \<Longrightarrow> \<not> sublist p (replace_all s q ''***'')"
  using replace_all_removes[of p "[]" s] replace_all_no_new[of p "[]" s q] assms by auto

text \<open>The errors \<open>Connect\<close> finds before it asks the library for anything; they depend on the
  name of the mechanism only.\<close>

definition early_errors :: "gostring \<Rightarrow> gostring list" where
  "early_errors mechanism =
     [''kafka: no bootstrap servers given'',
      ''kafka: SASL '' @ mechanism @ '' requires a user and pass (flags or BROD_KAFKA_USER/BROD_KAFKA_PASS env)'',
      ''kafka: unsupported SASL mechanism '' @ go_quote mechanism @ '' (want plain|scram-sha-256|scram-sha-512)'']"

lemma sasl_early: "saslMechanism env s = Inl e \<Longrightarrow> e \<in> set (early_errors (sc_Mechanism s))"
  by (auto simp: saslMechanism_def early_errors_def Let_def envUser_def envPass_def split: if_splits)

lemma redacted:
  assumes "p \<in> {sc_Pass s, env envPass}" "p \<noteq> []" "CHR ''*'' \<notin> set p"
  shows "\<not> sublist p (redactCreds env msg s)"
  using assms(1) replace_all_stars[OF assms(3,2)] assms(2) by (auto simp: redactCreds_def)

text \<open>C14: Every error \<open>Connect\<close> returns is one of three. Either nothing was asked of the library
  yet, and it is one of three fixed texts about the flags; or the library failed to build a client,
  and its error is passed on as it is; or the metadata request failed, and then the connection is
  closed and whatever the library's error was, what follows the words \<open>kafka: connecting to cluster:\<close>
  contains neither the password given as a flag nor the one of the environment, provided it has no
  asterisk. The error of building a client is the one not scrubbed.\<close>

theorem connect_error_redacted:
  assumes "Connect lib env c w = (Inl e, w')"
    and "p \<in> {sc_Pass (cc_SASL c), env envPass}" "p \<noteq> []" "CHR ''*'' \<notin> set p"
  shows "(e \<in> set (early_errors (sc_Mechanism (cc_SASL c))) \<and> w' = w) \<or>
    (\<exists>mech x. saslMechanism env (cc_SASL c) = Inr mech \<and> NewClient lib (client_opts c mech) w = (Inl x, w') \<and>
       e = ''kafka: building client: '' @ x) \<or>
    (\<exists>mech h w1 msg w2 r. saslMechanism env (cc_SASL c) = Inr mech \<and>
       NewClient lib (client_opts c mech) w = (Inr h, w1) \<and> BrokerMetadata (Admin lib h) w1 = (Inl msg, w2) \<and>
       e = ''kafka: connecting to cluster: '' @ r \<and> \<not> sublist p r \<and> w' = Close lib h w2)"
proof (cases "cc_Bootstrap c = []")
  case True
  then show ?thesis using assms(1) by (simp add: Connect_def early_errors_def)
next
  case boot: False
  show ?thesis
  proof (cases "saslMechanism env (cc_SASL c)")
    case (Inl x)
    then show ?thesis using assms(1) boot sasl_early[OF Inl] by (simp add: Connect_def)
  next
    case (Inr mech)
    obtain q w1 where q: "NewClient lib (client_opts c mech) w = (q, w1)"
      by (cases "NewClient lib (client_opts c mech) w")
    show ?thesis
    proof (cases q)
      case (Inl x)
      then have "e = ''kafka: building client: '' @ x \<and> w' = w1"
        using assms(1) boot Inr q by (simp add: Connect_def bindE_def wrapE_def)
      then show ?thesis using q Inr Inl by blast
    next
      case h: (Inr h)
      obtain a w2 where a: "BrokerMetadata (Admin lib h) w1 = (a, w2)"
        by (cases "BrokerMetadata (Admin lib h) w1")
      then obtain msg where msg: "a = Inl msg"
        and e: "e = ''kafka: connecting to cluster: '' @ redactCreds env msg (cc_SASL c) \<and> w' = Close lib h w2"
        using assms(1) boot Inr q h by (cases a) (simp_all add: Connect_def bindE_def wrapE_def)
      show ?thesis
        using q[unfolded h] a[unfolded msg] e Inr redacted[of p "cc_SASL c" env msg, OF assms(2-4)] by blast
    qed
  qed
qed

text \<open>A password that contains an asterisk can survive: in the error \<open>bad pass aa*\<close> the
  replacement of the password \<open>a*\<close> leaves the password itself.\<close>

theorem redaction_leaks_starred_password:
  "redactCreds (\<lambda>_. '''') ''bad pass aa*'' \<lparr>sc_Mechanism = ''plain'', sc_User = ''u'', sc_Pass = ''a*''\<rparr>
     = ''bad pass a***'' \<and> sublist ''a*'' (''bad pass a***'' :: gostring)"
proof
  show "redactCreds (\<lambda>_. '''') ''bad pass aa*'' \<lparr>sc_Mechanism = ''plain'', sc_User = ''u'', sc_Pass = ''a*''\<rparr>
     = ''bad pass a***''" by code_simp
  have "''bad pass a***'' = ''bad pass '' @ ''a*'' @ (''**'' :: gostring)" by simp
  then show "sublist ''a*'' (''bad pass a***'' :: gostring)" by (metis sublist_appendI)
qed

subsection \<open>The credential check\<close>

text \<open>Grants that go beyond reading metadata.\<close>

definition grants_more :: "kadm_acl \<Rightarrow> bool" where
  "grants_more a \<longleftrightarrow> acl_IsAllow a \<and>
     (acl_Operation a \<in> {OpAll, OpWrite, OpAlter, OpAlterConfigs, OpDelete, OpCreate} \<or>
      acl_Operation a = OpRead \<and> acl_IsTopic a)"

lemma writeish_iff: "acl_IsAllow a \<and> writeishViolation a \<noteq> '''' \<longleftrightarrow> grants_more a"
  by (cases "acl_Operation a") (auto simp: grants_more_def writeishViolation_def Let_def)

lemma scan_acls_filter: "scan_acls acls vs = vs @ map writeishViolation (filter grants_more acls)"
proof (induction acls arbitrary: vs)
  case (Cons a acls)
  have "scan_acls (a # acls) vs = scan_acls acls (if grants_more a then vs @ [writeishViolation a] else vs)"
    using writeish_iff[of a] by (auto simp: scan_acls_def Let_def)
  with Cons show ?case by simp
qed (simp add: scan_acls_def)

lemma check_results_spec:
  "Supported (check_results rs) \<longleftrightarrow> list_all (\<lambda>r. ar_Err r = None) rs"
  "Violations (check_results rs) =
     concat (map (\<lambda>r. if ar_Err r = None then map writeishViolation (filter grants_more (ar_Described r)) else []) rs)"
proof -
  let ?step = "\<lambda>res chk. if ar_Err res \<noteq> None then chk\<lparr>Supported := False\<rparr>
                     else chk\<lparr>Violations := scan_acls (ar_Described res) (Violations chk)\<rparr>"
  have "Supported (fold ?step rs chk) = (Supported chk \<and> list_all (\<lambda>r. ar_Err r = None) rs) \<and>
      Violations (fold ?step rs chk) = Violations chk @
        concat (map (\<lambda>r. if ar_Err r = None then map writeishViolation (filter grants_more (ar_Described r)) else []) rs)"
    for chk :: readOnlyCheck
    by (induction rs arbitrary: chk) (auto simp: scan_acls_filter)
  then show "Supported (check_results rs) \<longleftrightarrow> list_all (\<lambda>r. ar_Err r = None) rs"
    "Violations (check_results rs) =
     concat (map (\<lambda>r. if ar_Err r = None then map writeishViolation (filter grants_more (ar_Described r)) else []) rs)"
    by (simp_all add: check_results_def)
qed

lemma violations_none:
  "Supported (check_results rs) \<and> Violations (check_results rs) \<noteq> [] \<longleftrightarrow>
     list_all (\<lambda>r. ar_Err r = None) rs \<and> list_ex (\<lambda>r. list_ex grants_more (ar_Described r)) rs"
proof -
  have filt: "filter grants_more as = [] \<longleftrightarrow> \<not> list_ex grants_more as" for as
    by (induction as) auto
  have "list_all (\<lambda>r. ar_Err r = None) rs \<Longrightarrow>
      concat (map (\<lambda>r. if ar_Err r = None then map writeishViolation (filter grants_more (ar_Described r)) else []) rs) \<noteq> []
      \<longleftrightarrow> list_ex (\<lambda>r. list_ex grants_more (ar_Described r)) rs"
    by (induction rs) (simp_all add: filt)
  then show ?thesis by (auto simp only: check_results_spec)
qed

text \<open>C13: \<open>--require-readonly\<close> refuses a credential exactly when the probe and all its filters
  succeed and it sees a grant beyond reading metadata. So one failed filter is enough to pass
  although the other answers show write access (the check then calls itself unverified, while
  its list of violations is not empty).\<close>

theorem enforce_refuses_iff:
  "isl (fst (enforceReadOnly lib eprint h w)) \<longleftrightarrow>
     (case fst (DescribeACLs lib h w) of
        Inl e \<Rightarrow> False
      | Inr rs \<Rightarrow> list_all (\<lambda>r. ar_Err r = None) rs \<and> list_ex (\<lambda>r. list_ex grants_more (ar_Described r)) rs)"
proof (cases "DescribeACLs lib h w")
  case (Pair res w')
  show ?thesis
  proof (cases res)
    case (Inl e)
    then show ?thesis using Pair
      by (simp add: enforceReadOnly_def bindE_def wrapE_def CheckReadOnly_def)
  next
    case (Inr rs)
    have "isl (fst (enforceReadOnly lib eprint h w)) \<longleftrightarrow>
        Supported (check_results rs) \<and> Violations (check_results rs) \<noteq> []"
      using Pair Inr by (simp add: enforceReadOnly_def bindE_def wrapE_def CheckReadOnly_def)
    also have "\<dots> \<longleftrightarrow> list_all (\<lambda>r. ar_Err r = None) rs \<and> list_ex (\<lambda>r. list_ex grants_more (ar_Described r)) rs"
      using violations_none[of rs] by blast
    finally show ?thesis using Pair Inr by simp
  qed
qed

subsection \<open>The whole live path\<close>

definition lib_keeps :: "('w \<Rightarrow> bool) \<Rightarrow> ('h, 'w) kgo \<Rightarrow> bool" where
  "lib_keeps I lib \<longleftrightarrow> (\<forall>os. keeps I (NewClient lib os)) \<and> (\<forall>h v. I v \<longrightarrow> I (Close lib h v)) \<and>
     (\<forall>h. admin_keeps I (Admin lib h) \<and> keeps I (DescribeACLs lib h))"

lemma Connect_keeps:
  assumes "lib_keeps I lib" "I w"
  shows "I (snd (Connect lib env c w))"
proof -
  have "keeps I (NewClient lib os)" "keeps I (BrokerMetadata (Admin lib h))" "I v \<Longrightarrow> I (Close lib h v)" for os h v
    using assms(1) by (simp_all add: lib_keeps_def admin_keeps_def)
  note lib = this
  show ?thesis
  proof (cases "saslMechanism env (cc_SASL c)")
    case (Inr mech)
    obtain r w1 where n: "NewClient lib (client_opts c mech) w = (r, w1)" by (cases "NewClient lib (client_opts c mech) w")
    then have w1: "I w1" using keepsD[OF lib(1) assms(2)] by (metis snd_conv)
    show ?thesis
    proof (cases r)
      case (Inl e)
      then show ?thesis using n w1 assms(2) Inr by (simp add: Connect_def bindE_def wrapE_def)
    next
      case h: (Inr h)
      obtain q w2 where m: "BrokerMetadata (Admin lib h) w1 = (q, w2)" by (cases "BrokerMetadata (Admin lib h) w1")
      then have "I w2" using keepsD[OF lib(2) w1] by (metis snd_conv)
      then show ?thesis using n m h assms(2) lib(3) Inr
        by (cases q) (simp_all add: Connect_def bindE_def wrapE_def)
    qed
  qed (use assms(2) in \<open>simp add: Connect_def\<close>)
qed

lemma enforce_keeps:
  assumes "lib_keeps I lib" "\<forall>msg v. I v \<longrightarrow> I (eprint msg v)"
  shows "keeps I (enforceReadOnly lib eprint h)"
  unfolding enforceReadOnly_def
proof (intro keeps_bindE keeps_wrapE)
  have "keeps I (DescribeACLs lib h)" using assms(1) by (simp add: lib_keeps_def)
  then show "keeps I (CheckReadOnly lib h)"
    unfolding keeps_def CheckReadOnly_def by (auto split: prod.split sum.split)
qed (use assms(2) in \<open>simp add: keeps_def\<close>)

lemma on_client_keeps:
  assumes "lib_keeps I lib" "\<forall>msg v. I v \<longrightarrow> I (eprint msg v)" "\<forall>v. I v \<longrightarrow> I (snd (clock v))"
    "\<forall>d. keeps I (ctxSleep d)"
  shows "keeps I (on_client lib eprint clock ctxSleep cf h)"
  unfolding on_client_def
proof (intro keeps_bindE)
  show "keeps I (if cf_requireReadOnly cf then enforceReadOnly lib eprint h else returnE ())"
    using enforce_keeps[OF assms(1,2)] by simp
next
  fix u
  have adm: "admin_keeps I (Admin lib h)" using assms(1) by (simp add: lib_keeps_def)
  have clk: "I v \<Longrightarrow> clock v = (t, v') \<Longrightarrow> I v'" for v t v' using assms(3) by (metis snd_conv)
  show "keeps I (\<lambda>w. let (now, w') = clock w in collect_Build (Admin lib h) clock ctxSleep (live_options cf now) w')"
    unfolding keeps_def Let_def
    by (auto split: prod.split intro!: build_keeps[OF adm assms(4,3)] dest: clk)
qed

lemma live_body_keeps:
  assumes "lib_keeps I lib" "\<forall>msg v. I v \<longrightarrow> I (eprint msg v)" "\<forall>v. I v \<longrightarrow> I (snd (clock v))"
    "\<forall>d. keeps I (ctxSleep d)"
  shows "keeps I (bindE (Connect lib env (connect_config cf)) (\<lambda>h w.
      let (r, w') = on_client lib eprint clock ctxSleep cf h w in (r, Close lib h w')))"
proof -
  have body: "keeps I (\<lambda>w. let (r, w') = on_client lib eprint clock ctxSleep cf h w in (r, Close lib h w'))" for h
    unfolding keeps_def
  proof (intro allI impI)
    fix v
    assume v: "I v"
    obtain r w' where o: "on_client lib eprint clock ctxSleep cf h v = (r, w')"
      by (cases "on_client lib eprint clock ctxSleep cf h v")
    have "I w'" using keepsD[OF on_client_keeps[OF assms] v] o by (metis snd_conv)
    then show "I (snd (let (r, w') = on_client lib eprint clock ctxSleep cf h v in (r, Close lib h w')))"
      using assms(1) by (simp add: o lib_keeps_def)
  qed
  have "keeps I (Connect lib env (connect_config cf))"
    using Connect_keeps[OF assms(1)] by (simp add: keeps_def)
  then show "keeps I (bindE (Connect lib env (connect_config cf)) (\<lambda>h w.
      let (r, w') = on_client lib eprint clock ctxSleep cf h w in (r, Close lib h w')))"
    using body by (rule keeps_bindE)
qed

text \<open>C22: The banner comes before any contact with the cluster: whatever condition printing it
  establishes (that it has been printed, say) holds at every step after it, so every call of the
  library, the clock and the sleep is made, and the whole ends, under that condition; without a
  bootstrap server nothing is done at all.\<close>

theorem banner_before_contact:
  assumes "I (eprint (''  '' @ readOnlyBanner @ newline) w)"
    and "lib_keeps I lib" "\<forall>msg v. I v \<longrightarrow> I (eprint msg v)" "\<forall>v. I v \<longrightarrow> I (snd (clock v))"
    "\<forall>d. keeps I (ctxSleep d)"
  shows "if trim_space (cf_bootstrap cf) = ''''
     then connectAndCollect lib env eprint clock ctxSleep cf w =
            (Inl ''--bootstrap is required (comma-separated host:port)'', w)
     else I (snd (connectAndCollect lib env eprint clock ctxSleep cf w))"
proof (cases "trim_space (cf_bootstrap cf) = ''''")
  case False
  from keepsD[OF live_body_keeps[OF assms(2-5)] assms(1)] False show ?thesis by (simp add: connectAndCollect_def)
qed (simp add: connectAndCollect_def)

lemma last_index_pos: "last_index c s = Some i \<Longrightarrow> i < length s"
  by (cases s) (auto simp: last_index_def split: if_splits)

lemma firstHost_nonempty: "firstHost b \<noteq> ''''"
proof (cases "splitCSV b")
  case (Cons h hs)
  then have "h \<in> set (splitCSV b)" by simp
  then have "h \<noteq> ''''" unfolding splitCSV_def by auto
  then show ?thesis using Cons last_index_pos[of "CHR '':''" h] by (auto simp: firstHost_def split: option.split)
qed (simp add: firstHost_def)

lemma on_client_Inr:
  assumes "on_client lib eprint clock ctxSleep cf h w = (Inr s, w')"
  shows "\<exists>now v. collect_Build (Admin lib h) clock ctxSleep (live_options cf now) v = (Inr s, w')"
  using assms unfolding on_client_def bindE_Inr Let_def case_prod_unfold by blast

lemma live_build:
  assumes "connectAndCollect lib env eprint clock ctxSleep cf w = (Inr s, w')"
  obtains h v now v' v'' where "collect_Build (Admin lib h) clock ctxSleep (live_options cf now) v = (Inr s, v')"
    "w' = Close lib h v''"
proof -
  from assms obtain h v
    where "(case on_client lib eprint clock ctxSleep cf h v of (r, v'') \<Rightarrow> (r, Close lib h v'')) = (Inr s, w')"
    by (auto simp: connectAndCollect_def bindE_Inr Let_def split: if_splits)
  then obtain v'' where run: "on_client lib eprint clock ctxSleep cf h v = (Inr s, v'')" "w' = Close lib h v''"
    by (cases "on_client lib eprint clock ctxSleep cf h v") auto
  from on_client_Inr[OF run(1)] show thesis using that run(2) by blast
qed

text \<open>C35: A successful live run yields a snapshot labelled with the given cluster name or the
  first host, with provider \<open>self\<close> and the properties of every collected snapshot, and its last
  act is to close the connection it opened.\<close>

theorem live_run_contract:
  assumes "connectAndCollect lib env eprint clock ctxSleep cf w = (Inr s, w')"
  shows "ClusterName (Cluster s) = cluster_label cf \<and> cluster_label cf \<noteq> '''' \<and>
     ClusterProvider (Cluster s) = ''self'' \<and> sorted (map Name (Topics s)) \<and>
     list_all (collected_topic (live_options cf (TakenAt s))) (Topics s) \<and>
     (\<exists>h v. w' = Close lib h v)"
proof -
  obtain h v now v' v'' where build: "collect_Build (Admin lib h) clock ctxSleep (live_options cf now) v = (Inr s, v')"
    and close: "w' = Close lib h v''"
    using live_build[OF assms] by metis
  have label: "cluster_label cf \<noteq> ''''" using firstHost_nonempty by (simp add: cluster_label_def)
  have "collected_topic (live_options cf now) = collected_topic (live_options cf (TakenAt s))"
    by (simp add: fun_eq_iff collected_topic_def live_options_def)
  then show ?thesis
    using collected_facts[OF build] collected_cluster[OF build] label close
    by (auto simp: live_options_def collect_clusterName_def providerOrSelf_def)
qed

subsection \<open>The demo cluster\<close>

text \<open>A library that connects to the demo cluster, or to one that rejects the password; its
  probe sees a write grant behind a failed filter.\<close>

definition demo_lib :: "(bool, demo_world) kgo" where
  "demo_lib =
     \<lparr>NewClient = (\<lambda>os. serve ''Dial'' (DialTLS12 \<in> set os)),
      Close = (\<lambda>h w. w @ [''Close'']),
      Admin = (\<lambda>tls. if tls then demo_kadm\<lparr>BrokerMetadata := (\<lambda>w. (Inl ''rejected s3cret for u'', w @ [''Metadata'']))\<rparr>
                     else demo_kadm),
      DescribeACLs = (\<lambda>h. serve ''DescribeAcls''
        [\<lparr>ar_Err = Some ''denied'', ar_Described = []\<rparr>,
         \<lparr>ar_Err = None, ar_Described = [\<lparr>acl_Type = ''TOPIC'', acl_IsTopic = True, acl_Name = ''orders'',
            acl_Operation = OpWrite, acl_IsAllow = True\<rparr>]\<rparr>])\<rparr>"

definition demo_print :: "gostring \<Rightarrow> demo_world \<Rightarrow> demo_world" where
  "demo_print msg w = w @ [msg]"

definition demo_flags :: "bool \<Rightarrow> connectFlags" where
  "demo_flags tls = registerConnectFlags\<lparr>cf_bootstrap := '' kafka1:9092, kafka2:9092'', cf_tls := tls,
     cf_saslMechanism := ''plain'', cf_user := ''u'', cf_pass := ''s3cret'', cf_sampleWindow := 0,
     cf_requireReadOnly := True\<rparr>"

lemma demo_sasl: "saslMechanism (\<lambda>_. '''') (cc_SASL (connect_config (demo_flags True))) =
    Inr (Some (PlainAuth ''u'' ''s3cret''))"
  by (simp add: saslMechanism_def connect_config_def demo_flags_def registerConnectFlags_def
      SASLNone_def SASLPlain_def sasl_user_def sasl_pass_def)

theorem connect_error_redacted_witness:
  "\<exists>r. Connect demo_lib (\<lambda>_. '''') (connect_config (demo_flags True)) [] =
     (Inl (''kafka: connecting to cluster: '' @ r), [''Dial'', ''Metadata'', ''Close'']) \<and> \<not> sublist ''s3cret'' r"
proof -
  have "splitCSV '' kafka1:9092, kafka2:9092'' = [''kafka1:9092'', ''kafka2:9092'']" by code_simp
  then have "\<exists>e. Connect demo_lib (\<lambda>_. '''') (connect_config (demo_flags True)) [] =
      (Inl e, [''Dial'', ''Metadata'', ''Close''])"
    using demo_sasl
    by (simp add: Connect_def connect_config_def demo_flags_def registerConnectFlags_def demo_lib_def serve_def
        client_opts_def bindE_def wrapE_def)
  then obtain e where e: "Connect demo_lib (\<lambda>_. '''') (connect_config (demo_flags True)) [] =
      (Inl e, [''Dial'', ''Metadata'', ''Close''])" by blast
  have p: "''s3cret'' \<in> {sc_Pass (cc_SASL (connect_config (demo_flags True))), (\<lambda>_. '''' :: gostring) envPass}"
    by (simp add: connect_config_def demo_flags_def)
  from connect_error_redacted[OF e p] show ?thesis
    using e by (auto simp: demo_sasl demo_lib_def serve_def client_opts_def)
qed

text \<open>The banner is among the events.\<close>

definition banner_seen :: "demo_world \<Rightarrow> bool" where
  "banner_seen w \<longleftrightarrow> ''  '' @ readOnlyBanner @ newline \<in> set w"

lemma demo_lib_keeps: "lib_keeps banner_seen demo_lib"
  by (auto simp: lib_keeps_def admin_keeps_def keeps_def demo_lib_def demo_kadm_def serve_def banner_seen_def)

theorem banner_before_contact_witness:
  "banner_seen (snd (connectAndCollect demo_lib (\<lambda>_. '''') demo_print demo_clock demo_sleep (demo_flags True) []))"
proof -
  have "trim_space '' kafka1:9092, kafka2:9092'' \<noteq> ''''" by code_simp
  then have "trim_space (cf_bootstrap (demo_flags True)) \<noteq> ''''" by (simp add: demo_flags_def)
  then show ?thesis
    using banner_before_contact[of banner_seen demo_print "[]" demo_lib demo_clock demo_sleep "demo_flags True" "\<lambda>_. ''''",
        OF _ demo_lib_keeps]
    by (simp add: keeps_def demo_print_def demo_clock_def demo_sleep_def serve_def banner_seen_def)
qed

lemma demo_live_run:
  "isl (fst (connectAndCollect demo_lib (\<lambda>_. '''') demo_print demo_clock demo_sleep (demo_flags False) [])) = False"
  by code_simp

theorem live_run_contract_witness:
  "\<exists>s w'. connectAndCollect demo_lib (\<lambda>_. '''') demo_print demo_clock demo_sleep (demo_flags False) [] = (Inr s, w') \<and>
     ClusterName (Cluster s) = ''kafka1''"
proof -
  obtain s w' where run: "connectAndCollect demo_lib (\<lambda>_. '''') demo_print demo_clock demo_sleep (demo_flags False) [] = (Inr s, w')"
    using demo_live_run
    by (cases "connectAndCollect demo_lib (\<lambda>_. '''') demo_print demo_clock demo_sleep (demo_flags False) []")
      (auto simp: isl_def elim: sum.exhaust_sel, metis sumE)
  have "cluster_label (demo_flags False) = ''kafka1''" by code_simp
  then show ?thesis using live_run_contract[OF run] run by auto
qed

end
