(* ===== verification/Report.thy ===== *)
theory Report
  imports Engine GoMap
begin

text \<open>
  The reports of the command line as the text they print: \<open>brod scan\<close> (\<open>cmd/brod/report.go\<close>
  and the report half of \<open>cmdScan\<close> in \<open>main.go\<close>) and \<open>brod cost\<close> (\<open>cmd/brod/cost.go\<close>). A
  report is a pure function of the snapshot and the flags. Where the code ranges over a map,
  the order the runtime visits it in is a parameter \<open>visit\<close>; a row order \<open>sort.Slice\<close> leaves
  open on ties is taken to be the stable one. Writing the text and the JSON forms are not
  modelled here.
\<close>

definition println :: "gostring \<Rightarrow> gostring" where
  "println s = s @ newline"

definition utf_rule :: gostring where "utf_rule = [CHR 0xE2, CHR 0x94, CHR 0x80]"
definition utf_bullet :: gostring where "utf_bullet = [CHR 0xE2, CHR 0x80, CHR 0xA2]"
definition utf_pointer :: gostring where "utf_pointer = [CHR 0xE2, CHR 0x96, CHR 0xB8]"
definition utf_middot :: gostring where "utf_middot = [CHR 0xC2, CHR 0xB7]"
definition utf_party :: gostring where "utf_party = [CHR 0xF0, CHR 0x9F, CHR 0x8E, CHR 0x89]"
definition apostrophe :: gostring where "apostrophe = [CHR 0x27]"

definition saasPointer :: gostring where
  "saasPointer = utf_rarrow @ '' See this continuously, attributed per team, at https://brod.sh '' @
     utf_emdash @ '' read-only, metadata-only, fixes ship as PRs.''"

definition ruler :: gostring where
  "ruler = println (''  '' @ concat (replicate 64 utf_rule))"

definition report_clusterName :: "snapshot \<Rightarrow> gostring" where
  "report_clusterName s =
     (if ClusterName (Cluster s) = '''' then ''(unnamed)'' else ClusterName (Cluster s))"

definition providerOf :: "snapshot \<Rightarrow> gostring" where
  "providerOf s =
     (if ClusterProvider (Cluster s) = '''' then ''self-hosted'' else ClusterProvider (Cluster s))"

definition eur :: "f64 \<Rightarrow> gostring" where
  "eur v = utf_euro @ fmt_f 2 v"

definition truncate_str :: "gostring \<Rightarrow> nat \<Rightarrow> gostring" where
  "truncate_str s n =
     (let r = runes s
      in if length r \<le> n then s
         else concat (map rune_bytes (take (n - 1) r)) @ utf_ellipsis)"

subsection \<open>brod scan\<close>

definition finding_row :: "finding \<Rightarrow> gostring" where
  "finding_row f =
     println (''  '' @ pad_right 4 (RuleID f) @ ''  '' @ pad_right 9 (eur (EstSavingEUR f)) @ ''  '' @
       pad_right 12 (severity_str (Severity f)) @ ''  '' @ pad_right 6 (confidence_str (Confidence f)) @ ''  '' @
       truncate_str (Title f) 60)"

definition basis_line :: "finding \<Rightarrow> gostring" where
  "basis_line f =
     println (''   '' @ utf_bullet @ '' ['' @ RuleID f @ '' '' @ eur (EstSavingEUR f) @ ''] '' @ Basis f)"

definition remediation_block :: "finding \<Rightarrow> gostring" where
  "remediation_block f =
     newline @ println (''   '' @ utf_pointer @ '' '' @ RuleID f @ '' '' @ utf_emdash @ '' '' @ Title f) @
     println (''     '' @ Summary (Remediation f)) @
     (if OneClick (Remediation f)
      then println ''     delivery: one-click reviewable PR''
      else println (''     delivery: PLAN '' @ utf_emdash @
             '' needs a migration/reassignment you drive (never auto-applied)'')) @
     (if KafkaConfigsCmd (Remediation f) \<noteq> '''' then println (''     $ '' @ KafkaConfigsCmd (Remediation f)) else '''')"

definition report_head :: "snapshot \<Rightarrow> finding list \<Rightarrow> bool \<Rightarrow> gostring" where
  "report_head s fs usedDemo =
     newline @
     println (''  brod scan '' @ utf_emdash @ '' cluster '' @ go_quote (report_clusterName s) @ '' ('' @ providerOf s @ '')'') @
     (if usedDemo
      then println (''  [demo snapshot '' @ utf_emdash @ '' run `brod scan --snapshot your.json` on your own metadata]'')
      else '''') @
     println (''  '' @ dec_int (int (length fs)) @ '' findings '' @ utf_middot @ '' est. up to '' @
       eur (totalSavingsEUR fs) @ ''/mo recoverable'') @
     ruler"

definition renderReport :: "snapshot \<Rightarrow> finding list \<Rightarrow> bool \<Rightarrow> bool \<Rightarrow> gostring" where
  "renderReport s fs usedDemo verbose =
     report_head s fs usedDemo @
     (if fs = []
      then println (''  No waste detected in this snapshot. '' @ utf_party) @ newline @ println (''  '' @ saasPointer)
      else
        println (''  '' @ pad_right 4 ''RULE'' @ ''  '' @ pad_right 9 (utf_euro @ ''/MO'') @ ''  '' @
          pad_right 12 ''SEVERITY'' @ ''  '' @ pad_right 6 ''CONF'' @ ''  FINDING'') @
        concat (map finding_row fs) @ newline @
        println (''  Basis (how each '' @ utf_euro @ '' was computed):'') @
        concat (map basis_line fs) @
        (if verbose
         then newline @
           println (''  Remediation (review before applying '' @ utf_emdash @ '' brod never touches your cluster):'') @
           concat (map remediation_block fs)
         else newline @ println ''  Run with --verbose for the exact config diff per finding.'') @
        newline @ println (''  '' @ saasPointer))"

text \<open>The cost model the commands build from their flags, and what \<open>scan\<close> prints.\<close>

definition cli_model :: "snapshot \<Rightarrow> gostring \<Rightarrow> f64 \<Rightarrow> costModel" where
  "cli_model s provider clusterCost =
     \<lparr>cm_Provider = (if provider = '''' then ClusterProvider (Cluster s) else provider),
      cm_MonthlyCostEUR = clusterCost, cm_StorageEURPerGBMo = 0, cm_NetworkEURPerGB = 0,
      cm_Weights = defaultWeights\<rparr>"

definition scan_report :: "snapshot \<Rightarrow> gostring \<Rightarrow> f64 \<Rightarrow> gotime \<Rightarrow> bool \<Rightarrow> bool \<Rightarrow> gostring option" where
  "scan_report s provider clusterCost now usedDemo verbose =
     map_option (\<lambda>fs. renderReport s fs usedDemo verbose)
       (evaluate [s] (cli_model s provider clusterCost) (defaultConfig now))"

subsection \<open>Teams\<close>

record teamRule =
  tr_re :: regexp
  tr_name :: gostring

type_synonym teamFlags = "teamRule list"

text \<open>
  \<open>strings.Index(v, "=")\<close>; \<open>regexp.Compile\<close> is a parameter: the model of regular expressions
  has their matching, not their syntax.
\<close>

definition first_index :: "char \<Rightarrow> gostring \<Rightarrow> nat option" where
  "first_index c s = (if c \<in> set s then Some (length (takeWhile (\<lambda>d. d \<noteq> c) s)) else None)"

definition teamFlags_Set :: "(gostring \<Rightarrow> gostring + regexp) \<Rightarrow> teamFlags \<Rightarrow> gostring \<Rightarrow> gostring + teamFlags" where
  "teamFlags_Set compile tf v =
     (case first_index (CHR ''='') v of
        None \<Rightarrow> Inl (''--team must be '' @ apostrophe @ ''regex=Team'' @ apostrophe @ '', got '' @ go_quote v)
      | Some i \<Rightarrow>
          if i = 0 then Inl (''--team must be '' @ apostrophe @ ''regex=Team'' @ apostrophe @ '', got '' @ go_quote v)
          else case compile (take i v) of
            Inl e \<Rightarrow> Inl (''--team regex '' @ go_quote (take i v) @ '': '' @ e)
          | Inr re \<Rightarrow> Inr (tf @ [\<lparr>tr_re = re, tr_name = drop (Suc i) v\<rparr>]))"

fun teamFor :: "teamFlags \<Rightarrow> gostring \<Rightarrow> gostring" where
  "teamFor [] topic = ''unassigned''"
| "teamFor (r # rs) topic = (if matchString (tr_re r) topic then tr_name r else teamFor rs topic)"

subsection \<open>brod cost\<close>

definition cost_inputs :: "snapshot \<Rightarrow> topicCostInput list" where
  "cost_inputs s =
     map (\<lambda>t. \<lparr>in_Name = Name t, in_RetainedBytes = RetainedBytes t, in_BytesInPerSec = BytesInPerSec t,
               in_BytesOutPerSec = BytesOutPerSec t, in_Partitions = Partitions t\<rparr>) (Topics s)"

record cost_row =
  row_name :: gostring
  row_eur :: f64
  row_gb :: f64

text \<open>\<open>rows[i].eur > rows[j].eur\<close>, or by gigabytes without a cost.\<close>

definition row_before :: "bool \<Rightarrow> cost_row \<Rightarrow> cost_row \<Rightarrow> bool" where
  "row_before hasCost a b = (if hasCost then row_eur b < row_eur a else row_gb b < row_gb a)"

definition gb_by_topic :: "snapshot \<Rightarrow> (gostring, f64) gomap" where
  "gb_by_topic s = fold (\<lambda>t m. mput m (Name t) (of_i64 (RetainedBytes t) / fl 1000000000)) (Topics s) []"

definition share_of :: "f64 \<Rightarrow> f64 \<Rightarrow> f64" where
  "share_of whole r = (if 0 < whole then fl 100 * r / whole else fl 0)"

definition euro_row :: "nat \<Rightarrow> f64 \<Rightarrow> gostring \<Rightarrow> f64 \<Rightarrow> gostring" where
  "euro_row width whole name e =
     println (''  '' @ pad_right width name @ ''  '' @ pad_right 10 (eur e) @ ''  '' @
       pad_left 4 (fmt_f 1 (share_of whole e)) @ ''%'')"

definition gb_row :: "nat \<Rightarrow> gostring \<Rightarrow> f64 \<Rightarrow> gostring" where
  "gb_row width name g = println (''  '' @ pad_right width name @ ''  '' @ pad_left 8 (fmt_f 1 g))"

definition cost_table :: "nat \<Rightarrow> gostring \<Rightarrow> (gostring \<Rightarrow> gostring) \<Rightarrow> bool \<Rightarrow> cost_row list \<Rightarrow> f64 \<Rightarrow> gostring" where
  "cost_table width head crop hasCost rows whole =
     (if hasCost
      then println (''  '' @ pad_right width head @ ''  '' @ pad_right 10 (utf_euro @ ''/MO'') @ ''  SHARE'') @
        concat (map (\<lambda>r. euro_row width whole (crop (row_name r)) (row_eur r)) rows) @
        ruler @ println (''  '' @ pad_right width ''TOTAL'' @ ''  '' @ pad_right 10 (eur whole))
      else println (''  '' @ pad_right width head @ ''  RETAINED GB'') @
        concat (map (\<lambda>r. gb_row width (crop (row_name r)) (row_gb r)) rows))"

definition topic_rows :: "snapshot \<Rightarrow> topicCost list \<Rightarrow> cost_row list" where
  "topic_rows s alloc =
     map (\<lambda>a. \<lparr>row_name = tc_Name a, row_eur = tc_EUR a, row_gb = mget 0 (gb_by_topic s) (tc_Name a)\<rparr>) alloc"

definition renderTopics :: "snapshot \<Rightarrow> topicCost list \<Rightarrow> bool \<Rightarrow> gostring" where
  "renderTopics s alloc hasCost =
     (let rows = slice_stable (row_before hasCost) (topic_rows s alloc);
          whole = fold (\<lambda>a acc. acc + tc_EUR a) alloc 0
      in cost_table 40 ''TOPIC'' (\<lambda>n. truncate_str n 40) hasCost rows whole @
         (case alloc of [] \<Rightarrow> '''' | a # _ \<Rightarrow> newline @ println (''  basis: '' @ tc_Basis a)) @
         newline @ println (''  '' @ utf_rarrow @
           '' Per-team attribution and showback CSV are on the roadmap at https://brod.sh''))"

definition by_team :: "teamFlags \<Rightarrow> (topicCost \<Rightarrow> f64) \<Rightarrow> topicCost list \<Rightarrow> (gostring, f64) gomap" where
  "by_team teams amount alloc =
     fold (\<lambda>a m. mput m (teamFor teams (tc_Name a)) (mget 0 m (teamFor teams (tc_Name a)) + amount a)) alloc []"

definition team_rows :: "((gostring, f64) gomap \<Rightarrow> (gostring, f64) gomap) \<Rightarrow> snapshot \<Rightarrow> topicCost list
    \<Rightarrow> teamFlags \<Rightarrow> cost_row list" where
  "team_rows visit s alloc teams =
     (let gbByTeam = by_team teams (\<lambda>a. mget 0 (gb_by_topic s) (tc_Name a)) alloc
      in map (\<lambda>(team, e). \<lparr>row_name = team, row_eur = e, row_gb = mget 0 gbByTeam team\<rparr>)
           (visit (by_team teams tc_EUR alloc)))"

definition renderTeams :: "((gostring, f64) gomap \<Rightarrow> (gostring, f64) gomap) \<Rightarrow> snapshot \<Rightarrow> topicCost list
    \<Rightarrow> teamFlags \<Rightarrow> bool \<Rightarrow> gostring" where
  "renderTeams visit s alloc teams hasCost =
     (let rows = team_rows visit s alloc teams;
          whole = fold (\<lambda>r acc. acc + row_eur r) rows 0
      in cost_table 24 ''TEAM'' id hasCost (slice_stable (row_before hasCost) rows) whole @
         (if 0 < mget 0 (by_team teams tc_EUR alloc) ''unassigned'' \<or>
             0 < mget 0 (by_team teams (\<lambda>a. mget 0 (gb_by_topic s) (tc_Name a)) alloc) ''unassigned''
          then newline @ println (''  note: '' @ apostrophe @ ''unassigned'' @ apostrophe @
             '' topics matched no --team rule '' @ utf_emdash @ '' add rules to finish the mapping.'')
          else ''''))"

definition renderCost :: "((gostring, f64) gomap \<Rightarrow> (gostring, f64) gomap) \<Rightarrow> snapshot \<Rightarrow> costModel
    \<Rightarrow> topicCost list \<Rightarrow> teamFlags \<Rightarrow> gostring" where
  "renderCost visit s cm alloc teams =
     (let hasCost = 0 < cm_MonthlyCostEUR cm
      in newline @
         println (''  brod cost '' @ utf_emdash @ '' cluster '' @ go_quote (report_clusterName s) @ '' ('' @ providerOf s @ '')'') @
         (if \<not> hasCost
          then println (''  No --cost given: showing the storage driver per topic. Pass --cost <'' @ utf_euro @
                 ''/mo> to allocate euros.'')
          else println (''  Allocating '' @ utf_euro @ fmt_f 2 (cm_MonthlyCostEUR cm) @ ''/mo across '' @
                 dec_int (int (length (Topics s))) @ '' topics using 40/40/20 (storage/throughput/partitions).'')) @
         ruler @
         (if teams \<noteq> [] then renderTeams visit s alloc teams hasCost else renderTopics s alloc hasCost))"

definition cost_report :: "((gostring, f64) gomap \<Rightarrow> (gostring, f64) gomap) \<Rightarrow> snapshot \<Rightarrow> gostring \<Rightarrow> f64
    \<Rightarrow> teamFlags \<Rightarrow> gostring" where
  "cost_report visit s provider clusterCost teams =
     (let cm = cli_model s provider clusterCost
      in renderCost visit s cm (allocate cm (cost_inputs s)) teams)"

end
