(* ===== verification/Cli.thy ===== *)
theory Cli
  imports Report Live
begin

text \<open>
  The input of the command line (\<open>readSnapshot\<close> in \<open>cmd/brod/main.go\<close>, \<open>loadSnapshot\<close> in
  \<open>cost.go\<close>): where a snapshot comes from; and the usage text. The file system and standard
  input are a record of calls.
\<close>

record 'w os =
  ReadFile :: "gostring \<Rightarrow> ('w, gostring) call"
  ReadStdin :: "('w, gostring) call"
  StdinPiped :: "'w \<Rightarrow> bool" \<comment> \<open>it can be examined and is not a character device\<close>

text \<open>The bytes of the snapshot, and whether they are the embedded demo \<open>sample\<close>.\<close>

definition readSnapshot :: "'w os \<Rightarrow> gostring \<Rightarrow> gostring \<Rightarrow> ('w, gostring \<times> bool) call" where
  "readSnapshot os sample path w =
     (let demo = (\<lambda>w. if sample = '''' then (Inl ''no snapshot given and no embedded demo available'', w)
                      else (Inr (sample, True), w))
      in if path = ''-'' then bindE (ReadStdin os) (\<lambda>b. returnE (b, False)) w
         else if path \<noteq> '''' then bindE (ReadFile os path) (\<lambda>b. returnE (b, False)) w
         else if StdinPiped os w
           then bindE (ReadStdin os) (\<lambda>b. if b \<noteq> '''' then returnE (b, False) else demo) w
         else demo w)"

text \<open>\<open>decode\<close> is \<open>json.Unmarshal\<close> into a snapshot.\<close>

definition loadSnapshot :: "'w os \<Rightarrow> gostring \<Rightarrow> (gostring \<Rightarrow> gostring + snapshot) \<Rightarrow> (connectFlags \<Rightarrow> ('w, snapshot) call)
    \<Rightarrow> gostring \<Rightarrow> connectFlags \<Rightarrow> ('w, snapshot) call" where
  "loadSnapshot os sample decode live path cf =
     (if cf_bootstrap cf \<noteq> '''' then live cf
      else bindE (readSnapshot os sample path) (\<lambda>(raw, demo). wrapE ''parsing snapshot'' (liftE (decode raw))))"

definition usage_lines :: "gostring list" where
  "usage_lines =
     [''brod '' @ utf_emdash @ '' read-only Kafka FinOps CLI (brod.sh)'',
      '''',
      ''USAGE'',
      ''  brod scan [--snapshot FILE | --bootstrap HOSTS] [--cost EUR] [--provider P] [--json] [--verbose]'',
      ''  brod collect --bootstrap HOSTS [--out FILE] [connection flags]'',
      ''  brod cost [--snapshot FILE | --bootstrap HOSTS] [--cost EUR] [--team '' @ apostrophe @ ''regex=Team'' @ apostrophe @ '']...'',
      ''  brod sample        print a sample snapshot JSON (the input format)'',
      ''  brod version'',
      '''',
      ''scan reads a metadata snapshot and prints a euro-ranked waste report. Source it'',
      ''from a JSON file (--snapshot), a live cluster (--bootstrap, read-only), or '' @ utf_emdash @ '' with'',
      ''neither and nothing on stdin '' @ utf_emdash @ '' the built-in demo snapshot.'',
      '''',
      ''cost allocates the cluster'' @ apostrophe @ ''s monthly '' @ utf_euro @ '' across topics (and --team groups) using the'',
      ''weighted 40/40/20 model. Every figure carries a basis label.'',
      '''',
      ''collect connects read-only to a live cluster and writes a metadata snapshot JSON'',
      ''(round-trips with '' @ apostrophe @ ''brod scan --snapshot'' @ apostrophe @ ''). brod NEVER produces or consumes: it'',
      ''issues only Admin/Describe/Metadata/ListOffsets/OffsetFetch requests.'',
      '''',
      ''SCAN/REPORT FLAGS'',
      ''  --snapshot FILE   snapshot JSON file ('' @ apostrophe @ ''-'' @ apostrophe @ '' for stdin)'',
      ''  --cost EUR        cluster monthly cost in '' @ utf_euro @ '' (enables derived, not assumed, rates)'',
      ''  --provider P      confluent | msk | self  (default: from snapshot, else self)'',
      ''  --json            emit findings as JSON'',
      ''  --verbose         show remediation (config diff) per finding'',
      '''',
      ''LIVE CONNECTION FLAGS (scan --bootstrap / collect)'',
      ''  --bootstrap H     comma-separated bootstrap servers (host:port)'',
      ''  --tls             use TLS'',
      ''  --sasl-mechanism  plain | scram-sha-256 | scram-sha-512'',
      ''  --user / --pass   SASL creds (or env BROD_KAFKA_USER / BROD_KAFKA_PASS)'',
      ''  --cluster-name N  label for the snapshot'',
      ''  --sample-window D throughput sampling window (default 30s; 0 = no estimate)'',
      ''  --require-readonly  fail closed on detectable write/topic-READ ACLs'',
      ''  --include-internal  include internal topics (e.g. __consumer_offsets)'']"

definition usage :: gostring where
  "usage = concat (map (\<lambda>l. l @ newline) usage_lines)"

text \<open>The demo snapshot is used exactly when no file is named and standard input is not piped
  or piped and empty; a named file or non-empty input is never replaced by the demo, and an
  error reading it is never hidden by it.\<close>

theorem demo_only_without_input:
  "(\<exists>b. fst (readSnapshot os sample path w) = Inr (b, True)) \<longleftrightarrow>
     path = '''' \<and> sample \<noteq> '''' \<and> (if StdinPiped os w then fst (ReadStdin os w) = Inr '''' else True)"
proof (cases "path = ''''")
  case True
  show ?thesis
  proof (cases "ReadStdin os w")
    case (Pair r w')
    then show ?thesis using True
      by (cases r) (auto simp: readSnapshot_def bindE_def returnE_def)
  qed
next
  case False
  then show ?thesis
    by (auto simp: readSnapshot_def bindE_def returnE_def split: prod.splits sum.splits)
qed

end
