(* ===== verification/GoFlag.thy ===== *)
theory GoFlag
  imports GoFloatText GoTime GoMap
begin

text \<open>
  The \<open>flag\<close> package of Go as the commands use it: a \<open>FlagSet\<close> with \<open>ContinueOnError\<close> that
  parses arguments into a settings record. A flag is its name, its kind, its help text, its
  default and what setting it does to the record. A failing parse writes its message and the
  usage text to standard error. No flag of the program names a value in back quotes, so the
  kind alone gives the name of the value in the usage text.
\<close>

datatype flag_kind = StringFlag | BoolFlag | FloatFlag | DurationFlag | OtherFlag

record 's formal =
  fl_name :: gostring
  fl_kind :: flag_kind
  fl_usage :: gostring
  fl_default :: gostring \<comment> \<open>printed in the usage text unless it is the zero value\<close>
  fl_zero :: gostring
  fl_set :: "gostring \<Rightarrow> 's \<Rightarrow> gostring + 's"

subsection \<open>Flags of each kind\<close>

text \<open>\<open>strconv.ParseBool\<close>.\<close>

definition ParseBool :: "gostring \<Rightarrow> bool option" where
  "ParseBool s =
     (if s \<in> {''1'', ''t'', ''T'', ''true'', ''TRUE'', ''True''} then Some True
      else if s \<in> {''0'', ''f'', ''F'', ''false'', ''FALSE'', ''False''} then Some False
      else None)"

definition string_flag :: "gostring \<Rightarrow> gostring \<Rightarrow> (gostring \<Rightarrow> 's \<Rightarrow> 's) \<Rightarrow> 's formal" where
  "string_flag name help put =
     \<lparr>fl_name = name, fl_kind = StringFlag, fl_usage = help, fl_default = '''', fl_zero = '''',
      fl_set = (\<lambda>v x. Inr (put v x))\<rparr>"

definition bool_flag :: "gostring \<Rightarrow> gostring \<Rightarrow> (bool \<Rightarrow> 's \<Rightarrow> 's) \<Rightarrow> 's formal" where
  "bool_flag name help put =
     \<lparr>fl_name = name, fl_kind = BoolFlag, fl_usage = help, fl_default = ''false'', fl_zero = ''false'',
      fl_set = (\<lambda>v x. case ParseBool v of None \<Rightarrow> Inl ''parse error'' | Some b \<Rightarrow> Inr (put b x))\<rparr>"

definition float_flag :: "gostring \<Rightarrow> gostring \<Rightarrow> (f64 \<Rightarrow> 's \<Rightarrow> 's) \<Rightarrow> 's formal" where
  "float_flag name help put =
     \<lparr>fl_name = name, fl_kind = FloatFlag, fl_usage = help, fl_default = ''0'', fl_zero = ''0'',
      fl_set = (\<lambda>v x. case ParseFloat v of
         Inl ErrSyntax \<Rightarrow> Inl ''parse error''
       | Inl ErrRange \<Rightarrow> Inl ''value out of range''
       | Inr y \<Rightarrow> Inr (put y x))\<rparr>"

definition duration_flag :: "gostring \<Rightarrow> gostring \<Rightarrow> gostring \<Rightarrow> (i64 \<Rightarrow> 's \<Rightarrow> 's) \<Rightarrow> 's formal" where
  "duration_flag name dflt help put =
     \<lparr>fl_name = name, fl_kind = DurationFlag, fl_usage = help, fl_default = dflt, fl_zero = ''0s'',
      fl_set = (\<lambda>v x. case ParseDuration v of None \<Rightarrow> Inl ''parse error'' | Some d \<Rightarrow> Inr (put d x))\<rparr>"

text \<open>A flag with a \<open>Set\<close> of its own; \<open>zero\<close> is the text of its value before any use.\<close>

definition value_flag :: "gostring \<Rightarrow> gostring \<Rightarrow> gostring \<Rightarrow> (gostring \<Rightarrow> 's \<Rightarrow> gostring + 's) \<Rightarrow> 's formal" where
  "value_flag name zero help setter =
     \<lparr>fl_name = name, fl_kind = OtherFlag, fl_usage = help, fl_default = zero, fl_zero = zero, fl_set = setter\<rparr>"

subsection \<open>The usage text\<close>

definition value_name :: "flag_kind \<Rightarrow> gostring" where
  "value_name k =
     (case k of StringFlag \<Rightarrow> ''string'' | BoolFlag \<Rightarrow> '''' | FloatFlag \<Rightarrow> ''float''
      | DurationFlag \<Rightarrow> ''duration'' | OtherFlag \<Rightarrow> ''value'')"

definition tab :: gostring where "tab = [CHR 0x09]"

definition usage_line :: "'s formal \<Rightarrow> gostring" where
  "usage_line f =
     (let nm = value_name (fl_kind f);
          head = ''  -'' @ fl_name f @ (if nm = '''' then '''' else '' '' @ nm)
      in head @ (if length head \<le> 4 then tab else newline @ ''    '' @ tab) @ fl_usage f @
         (if fl_default f = fl_zero f then ''''
          else if fl_kind f = StringFlag then '' (default '' @ go_quote (fl_default f) @ '')''
          else '' (default '' @ fl_default f @ '')'') @ newline)"

definition flag_usage :: "gostring \<Rightarrow> 's formal list \<Rightarrow> gostring" where
  "flag_usage cmd fs = ''Usage of '' @ cmd @ '':'' @ newline @ concat (map usage_line (sort_key fl_name fs))"

subsection \<open>Parsing\<close>

text \<open>What one argument is: not a flag, the end of the flags, a malformed flag, or a flag with
  or without a value attached.\<close>

datatype flag_arg = Operand | EndOfFlags | BadSyntax | FlagArg gostring "gostring option"

definition split_value :: "gostring \<Rightarrow> gostring \<times> gostring option" where
  "split_value name =
     (case dropWhile (\<lambda>c. c \<noteq> CHR ''='') name of
        [] \<Rightarrow> (name, None)
      | _ # v \<Rightarrow> (takeWhile (\<lambda>c. c \<noteq> CHR ''='') name, Some v))"

definition flag_arg :: "gostring \<Rightarrow> flag_arg" where
  "flag_arg s =
     (if length s < 2 \<or> s ! 0 \<noteq> CHR ''-'' then Operand
      else if s = ''--'' then EndOfFlags
      else
        let name = drop (if s ! 1 = CHR ''-'' then 2 else 1) s
        in if name = '''' \<or> name ! 0 = CHR ''-'' \<or> name ! 0 = CHR ''='' then BadSyntax
           else (case split_value name of (n, v) \<Rightarrow> FlagArg n v))"

definition find_flag :: "'s formal list \<Rightarrow> gostring \<Rightarrow> 's formal option" where
  "find_flag fs name = find (\<lambda>f. fl_name f = name) fs"

datatype flag_error = Help | Fail gostring

text \<open>Setting a flag to the value given to it.\<close>

definition set_flag :: "'s formal \<Rightarrow> gostring \<Rightarrow> gostring \<Rightarrow> 's \<Rightarrow> flag_error + 's" where
  "set_flag f name v x =
     (case fl_set f v x of
        Inr y \<Rightarrow> Inr y
      | Inl e \<Rightarrow> Inl (Fail
          (if fl_kind f = BoolFlag
           then ''invalid boolean value '' @ go_quote v @ '' for -'' @ name @ '': '' @ e
           else ''invalid value '' @ go_quote v @ '' for flag -'' @ name @ '': '' @ e)))"

text \<open>The settings after the arguments, and the arguments left over (\<open>FlagSet.Args\<close>). Parsing
  stops at the first operand; a later flag overrides an earlier one of the same name.\<close>

fun parse_flags :: "'s formal list \<Rightarrow> gostring list \<Rightarrow> 's \<Rightarrow> flag_error + 's \<times> gostring list" where
  "parse_flags fs [] x = Inr (x, [])"
| "parse_flags fs (a # args) x =
     (case flag_arg a of
        Operand \<Rightarrow> Inr (x, a # args)
      | EndOfFlags \<Rightarrow> Inr (x, args)
      | BadSyntax \<Rightarrow> Inl (Fail (''bad flag syntax: '' @ a))
      | FlagArg name value \<Rightarrow>
          (case find_flag fs name of
             None \<Rightarrow>
               if name = ''help'' \<or> name = ''h'' then Inl Help
               else Inl (Fail (''flag provided but not defined: -'' @ name))
           | Some f \<Rightarrow>
               (case value of
                  Some v \<Rightarrow>
                    (case set_flag f name v x of Inl e \<Rightarrow> Inl e | Inr y \<Rightarrow> parse_flags fs args y)
                | None \<Rightarrow>
                    if fl_kind f = BoolFlag
                    then (case fl_set f ''true'' x of
                            Inl e \<Rightarrow> Inl (Fail (''invalid boolean flag '' @ name @ '': '' @ e))
                          | Inr y \<Rightarrow> parse_flags fs args y)
                    else (case args of
                            [] \<Rightarrow> Inl (Fail (''flag needs an argument: -'' @ name))
                          | v # args' \<Rightarrow>
                              (case set_flag f name v x of
                                 Inl e \<Rightarrow> Inl e
                               | Inr y \<Rightarrow> parse_flags fs args' y)))))"

text \<open>\<open>FlagSet.Parse\<close>: what it writes to standard error and what it returns, with the settings
  and the arguments it leaves in the flag set.\<close>

definition flag_parse :: "(gostring \<Rightarrow> 'w \<Rightarrow> 'w) \<Rightarrow> gostring \<Rightarrow> 's formal list \<Rightarrow> gostring list \<Rightarrow> 's
    \<Rightarrow> ('w, 's \<times> gostring list) call" where
  "flag_parse eprint cmd fs args x w =
     (case parse_flags fs args x of
        Inr y \<Rightarrow> (Inr y, w)
      | Inl Help \<Rightarrow> (Inl ''flag: help requested'', eprint (flag_usage cmd fs) w)
      | Inl (Fail e) \<Rightarrow> (Inl e, eprint (flag_usage cmd fs) (eprint (e @ newline) w)))"

text \<open>An operand after arguments that parse is left over, with everything that follows it.\<close>

lemma parse_flags_operand:
  assumes "flag_arg a = Operand" "parse_flags fs pre x = Inr (y, rest)"
  shows "parse_flags fs (pre @ a # post) x = Inr (y, rest @ a # post)"
  using assms(2)
proof (induction fs pre x rule: parse_flags.induct)
  case (2 fs b args x)
  show ?case
  proof (cases "flag_arg b")
    case (FlagArg name val)
    then obtain f where f: "find_flag fs name = Some f"
      using "2.prems" by (auto split: option.splits if_splits)
    show ?thesis
    proof (cases val)
      case (Some v)
      then obtain z where z: "set_flag f name v x = Inr z" using "2.prems" FlagArg f by (auto split: sum.splits)
      then show ?thesis using "2.prems" "2.IH"(3)[OF FlagArg f Some z] FlagArg f Some by simp
    next
      case None
      show ?thesis
      proof (cases "fl_kind f = BoolFlag")
        case True
        then obtain z where z: "fl_set f ''true'' x = Inr z"
          using "2.prems" FlagArg f None by (auto split: sum.splits)
        then show ?thesis using "2.prems" "2.IH"(1)[OF FlagArg f None True z] FlagArg f None True by simp
      next
        case False
        then obtain v args' z where z: "args = v # args'" "set_flag f name v x = Inr z"
          using "2.prems" FlagArg f None by (auto split: list.splits sum.splits)
        then show ?thesis using "2.prems" "2.IH"(2)[OF FlagArg f None False z] FlagArg f None False by simp
      qed
    qed
  qed (use "2.prems" in auto)
qed (use assms(1) in auto)

end
