(* ===== verification/TimeFacts.thy ===== *)
theory TimeFacts
  imports GoTime
begin

text \<open>
  Formatting an instant as RFC 3339 and parsing the text gives the instant back, zone and
  nanoseconds included. The calendar part is that a day number and its date determine each
  other.
\<close>

subsection \<open>Days and dates\<close>

lemma capped_quotient:
  fixes r :: int
  assumes "0 \<le> r" "0 < k"
  shows "0 \<le> min (r div k) 3" "min (r div k) 3 * k \<le> r" "r < (min (r div k) 3 + 1) * k \<or> min (r div k) 3 = 3"
proof -
  have q: "0 \<le> r div k" using assms by (simp add: pos_imp_zdiv_nonneg_iff)
  have m: "r = r div k * k + r mod k" "0 \<le> r mod k" "r mod k < k" using assms(2) by simp_all
  show "0 \<le> min (r div k) 3" using q by simp
  have "min (r div k) 3 * k \<le> r div k * k" using assms(2) by (intro mult_right_mono) auto
  then show "min (r div k) 3 * k \<le> r" using m by linarith
  show "r < (min (r div k) 3 + 1) * k \<or> min (r div k) 3 = 3"
  proof (cases "r div k \<le> 3")
    case True
    have "r < r div k * k + k" using m by linarith
    then show ?thesis using True by (simp add: distrib_right)
  qed simp
qed

lemma cycle_bounds:
  fixes n :: int
  defines "a \<equiv> n div 146097" and "r \<equiv> n mod 146097"
  defines "b \<equiv> min (r div 36524) 3"
  defines "r1 \<equiv> r - 36524 * b"
  defines "c \<equiv> r1 div 1461" and "r2 \<equiv> r1 mod 1461"
  defines "d \<equiv> min (r2 div 365) 3"
  shows "n = 146097 * a + 36524 * b + 1461 * c + 365 * d + (r2 - 365 * d)"
    "0 \<le> b" "b \<le> 3" "0 \<le> c" "c \<le> 24" "0 \<le> d" "d \<le> 3" "0 \<le> r2 - 365 * d" "r2 - 365 * d \<le> 365"
    "r2 - 365 * d = 365 \<Longrightarrow> d = 3 \<and> (c = 24 \<longrightarrow> b = 3)"
proof -
  have r: "0 \<le> r" "r < 146097" "n = 146097 * a + r" by (simp_all add: a_def r_def)
  have b: "0 \<le> b" "b \<le> 3" "b * 36524 \<le> r" "r < (b + 1) * 36524 \<or> b = 3"
    using r(1,2) capped_quotient[of r 36524] by (simp_all add: b_def)
  have r1: "0 \<le> r1" "r1 \<le> 36524" "r1 = 36524 \<longrightarrow> b = 3" using b r unfolding r1_def by (auto simp: algebra_simps)
  have c: "r1 = 1461 * c + r2" "0 \<le> r2" "r2 < 1461" "0 \<le> c"
    using r1 by (simp_all add: c_def r2_def pos_imp_zdiv_nonneg_iff)
  then have c24: "c \<le> 24" using r1 by linarith
  have d: "0 \<le> d" "d \<le> 3" "d * 365 \<le> r2" "r2 < (d + 1) * 365 \<or> d = 3"
    using c(2,3) capped_quotient[of r2 365] by (simp_all add: d_def)
  show "n = 146097 * a + 36524 * b + 1461 * c + 365 * d + (r2 - 365 * d)" using r c by (simp add: r1_def algebra_simps)
  show "0 \<le> b" "b \<le> 3" "0 \<le> c" "c \<le> 24" "0 \<le> d" "d \<le> 3" using b c c24 d by auto
  show "0 \<le> r2 - 365 * d" "r2 - 365 * d \<le> 365" using c(2,3) d by (auto simp: algebra_simps)
  show "r2 - 365 * d = 365 \<Longrightarrow> d = 3 \<and> (c = 24 \<longrightarrow> b = 3)" using c d r1 by (auto simp: algebra_simps)
qed

lemma year_of_days_correct:
  assumes "year_of_days n = (y, yday)"
  shows "days_before_year y + yday = n" "0 \<le> yday" "yday < (if is_leap y then 366 else 365)"
proof -
  define a r where "a = n div 146097" and "r = n mod 146097"
  define b where "b = min (r div 36524) 3"
  define r1 where "r1 = r - 36524 * b"
  define c r2 where "c = r1 div 1461" and "r2 = r1 mod 1461"
  define d where "d = min (r2 div 365) 3"
  note defs = a_def r_def b_def r1_def c_def r2_def d_def
  note k = cycle_bounds[of n, folded defs]
  have y: "y = 400 * a + 100 * b + 4 * c + d + 1" "yday = r2 - 365 * d"
    using assms by (simp_all add: year_of_days_def Let_def flip: defs)
  have "(y - 1) div 4 = 100 * a + 25 * b + c" "(y - 1) div 100 = 4 * a + b" "(y - 1) div 400 = a"
    using k(2-7) by (simp_all add: y)
  then show "days_before_year y + yday = n" using k(1) by (simp add: days_before_year_def y)
  show "0 \<le> yday" using k(8) by (simp add: y)
  have "is_leap y" if "yday = 365"
  proof -
    have d: "d = 3" "c = 24 \<Longrightarrow> b = 3" using k(10) that by (simp_all add: y)
    have m: "y = 4 * (100 * a + 25 * b + c + 1)" using d(1) by (simp add: y)
    then have "y mod 4 = 0" by simp
    moreover have "y mod 400 = 0" if "y mod 100 = 0"
    proof -
      have "y = 4 * (c + 1) + (4 * a + b) * 100" by (simp add: m)
      then have "y mod 100 = 4 * (c + 1) mod 100" by (simp only: mod_mult_self1)
      then have "4 * (c + 1) mod 100 = 0" using that by simp
      then have "\<not> 4 * (c + 1) < 100" using k(4) mod_pos_pos_trivial[of "4 * (c + 1)" 100] by auto
      then have "c = 24" using k(5) by simp
      then show ?thesis using d by (simp add: y)
    qed
    ultimately show ?thesis by (auto simp: is_leap_def)
  qed
  moreover have "yday \<le> 365" using k(9) by (simp add: y)
  ultimately show "yday < (if is_leap y then 366 else 365)" by (cases "yday = 365") simp_all
qed

lemma month_scan_correct:
  assumes "0 \<le> d" "d < sum_list ls" "month_scan ls m d = (m', d')"
  shows "m \<le> m'" "m' < m + int (length ls)" "0 \<le> d'" "d' < ls ! nat (m' - m)"
    "sum_list (take (nat (m' - m)) ls) + d' = d"
  using assms
proof (induction ls arbitrary: m d)
  case (Cons l ls)
  {
    case 1 then show ?case using Cons.IH(1)[of "d - l" "m + 1"] by (auto split: if_splits)
  next
    case 2 then show ?case using Cons.IH(2)[of "d - l" "m + 1"] by (auto split: if_splits)
  next
    case 3 then show ?case using Cons.IH(3)[of "d - l" "m + 1"] by (auto split: if_splits)
  next
    case 4
    show ?case
    proof (cases "d < l")
      case False
      then have "m + 1 \<le> m'" "d' < ls ! nat (m' - (m + 1))" using 4 Cons.IH(1,4)[of "d - l" "m + 1"] by auto
      moreover have "nat (m' - m) = Suc (nat (m' - (m + 1)))" using calculation(1) by simp
      ultimately show ?thesis by simp
    qed (use 4 in auto)
  next
    case 5
    show ?case
    proof (cases "d < l")
      case False
      then have "m + 1 \<le> m'" "sum_list (take (nat (m' - (m + 1))) ls) + d' = d - l"
        using 5 Cons.IH(1,5)[of "d - l" "m + 1"] by auto
      moreover have "nat (m' - m) = Suc (nat (m' - (m + 1)))" using calculation(1) by simp
      ultimately show ?thesis by simp
    qed (use 5 in auto)
  }
qed simp_all

lemma date_of_days_correct:
  assumes "date_of_days n = (y, m, d)"
  shows "days_of_date y m d = n" "1 \<le> m" "m \<le> 12" "1 \<le> d" "d \<le> month_days y ! nat (m - 1)"
proof -
  obtain yday where y: "year_of_days n = (y, yday)" and md: "month_scan (month_days y) 1 yday = (m, d - 1)"
    using assms by (auto simp: date_of_days_def split: prod.splits)
  note c = year_of_days_correct[OF y]
  have "yday < sum_list (month_days y)" using c(3) by (auto simp: month_days_def split: if_splits)
  note s = month_scan_correct[OF c(2) this md]
  show "days_of_date y m d = n" using s(5) c(1) by (simp add: days_of_date_def)
  show "1 \<le> m" "m \<le> 12" "1 \<le> d" "d \<le> month_days y ! nat (m - 1)"
    using s(1-4) by (simp_all add: month_days_def)
qed

subsection \<open>The parts of the text\<close>

lemma two_eq: "0 \<le> n \<Longrightarrow> n < 100 \<Longrightarrow> two n = [digit_char (n div 10), digit_char (n mod 10)]"
proof -
  assume n: "0 \<le> n" "n < 100"
  show ?thesis
  proof (cases "n < 10")
    case True
    then have "dec_digits n = [digit_char n]" by (simp add: dec_digits.simps)
    moreover have "digit_char 0 = CHR ''0''" by code_simp
    ultimately show ?thesis using n True by (simp add: two_def pad_zeros_def)
  next
    case False
    then have "dec_digits n = [digit_char (n div 10), digit_char (n mod 10)]"
      using n by (subst dec_digits.simps) (simp add: dec_digits.simps)
    then show ?thesis by (simp add: two_def pad_zeros_def)
  qed
qed

lemma getnum_two: "0 \<le> n \<Longrightarrow> n < 100 \<Longrightarrow> getnum fixed (two n @ r) = Some (n, r)"
proof -
  assume n: "0 \<le> n" "n < 100"
  then have "0 \<le> n div 10 \<and> n div 10 \<le> 9 \<and> 0 \<le> n mod 10 \<and> n mod 10 \<le> 9" by presburger
  then show ?thesis using n by (simp add: two_eq getnum_def in_range_def byte_digit_char)
qed

lemma two_length: "0 \<le> n \<Longrightarrow> n < 100 \<Longrightarrow> length (two n) = 2"
  by (simp add: two_eq)

lemma digits_pad_zeros: "digits s \<Longrightarrow> digits (pad_zeros n s)"
  by (auto simp: pad_zeros_def digits_def list_all_iff in_range_def byte_def)

lemma num_of_pad_zeros: "num_of 0 (pad_zeros n s) = num_of 0 s"
proof -
  have "num_of 0 (replicate i (CHR ''0'')) = 0" for i
    by (induction i) (simp_all add: byte_def)
  then show ?thesis by (simp add: pad_zeros_def)
qed

lemma dec_digits_bound: "0 \<le> n \<Longrightarrow> n < 10 ^ k \<Longrightarrow> 0 < k \<Longrightarrow> length (dec_digits n) \<le> k"
proof -
  assume n: "0 \<le> n" "n < 10 ^ k" "0 < k"
  show ?thesis
  proof (cases "n = 0")
    case True
    then show ?thesis using n by (simp add: dec_digits.simps)
  next
    case False
    then have "10 ^ (length (dec_digits n) - 1) < (10 :: int) ^ k" using dec_digits_length[of n] n by linarith
    then show ?thesis by (simp add: power_strict_increasing_iff)
  qed
qed

lemma length_pad_zeros: "length s \<le> n \<Longrightarrow> length (pad_zeros n s) = n"
  by (simp add: pad_zeros_def)

lemma getfour_pad: "0 \<le> y \<Longrightarrow> y \<le> 9999 \<Longrightarrow> getfour (pad_zeros 4 (dec_digits y) @ r) = Some (y, r)"
proof -
  assume y: "0 \<le> y" "y \<le> 9999"
  let ?s = "pad_zeros 4 (dec_digits y)"
  have "length (dec_digits y) \<le> 4" using y by (intro dec_digits_bound) auto
  then have l: "length ?s = 4" by (rule length_pad_zeros)
  have "parse_digits 0 ?s = Some y"
    using y by (simp add: parse_digits_eq digits_pad_zeros num_of_pad_zeros)
  then show ?thesis using l by (simp add: getfour_def)
qed

text \<open>What may follow a time of day.\<close>

definition ends_digits :: "gostring \<Rightarrow> bool" where
  "ends_digits s \<longleftrightarrow> (case s of [] \<Rightarrow> True | c # r \<Rightarrow> \<not> in_range 48 57 c)"

lemma takeWhile_digits: "digits s \<Longrightarrow> ends_digits r \<Longrightarrow> takeWhile (in_range 48 57) (s @ r) = s"
  by (induction s) (auto simp: ends_digits_def split: list.splits)

lemma read_fraction_text:
  assumes "0 \<le> n" "n < 1000000000" "ends_digits r" "r \<noteq> []" "hd r \<noteq> CHR ''.''" "hd r \<noteq> CHR '',''"
  shows "read_fraction (frac_text n @ r) = (n, r)"
proof (cases "n = 0")
  case True
  then show ?thesis using assms by (cases r) (auto simp: frac_text_def read_fraction_def split: list.splits)
next
  case False
  let ?p = "pad_zeros 9 (dec_digits n)" and ?s = "strip_zeros (pad_zeros 9 (dec_digits n))"
  have p: "digits ?p" "num_of 0 ?p = n" using assms(1) by (simp_all add: digits_pad_zeros num_of_pad_zeros)
  have "length (dec_digits n) \<le> 9" using assms by (intro dec_digits_bound) auto
  then have l: "length ?p = 9" by (rule length_pad_zeros)
  obtain j where j: "?p = ?s @ replicate j (CHR ''0'')" using strip_zeros_split by blast
  have lj: "length ?s + j = 9" using arg_cong[OF j, of length] l by simp
  have s: "digits ?s" "?s \<noteq> []" using strip_zeros_digits[OF p(1)] p(2) assms(1) False by auto
  have "num_of 0 ?p = num_of 0 ?s * 10 ^ j"
    using num_of_zeros(1)[of "num_of 0 ?s" "int j"] by (subst j) (simp add: zeros_def)
  then have v: "num_of 0 ?s * 10 ^ (9 - length ?s) = n" using p(2) lj by (metis diff_add_inverse)
  obtain d u where d: "?s = d # u" using s(2) by (cases ?s) auto
  have t: "takeWhile (in_range 48 57) (?s @ r) = ?s" by (rule takeWhile_digits[OF s(1) assms(3)])
  have nine: "take 9 ?s = ?s" using lj by simp
  have step: "read_fraction (CHR ''.'' # x) = (num_of 0 (take 9 ds) * 10 ^ (9 - length (take 9 ds)), drop (length ds) x)"
    if "x = c # w" "in_range 48 57 c" "ds = takeWhile (in_range 48 57) x" for x c w ds
    using that by (simp add: read_fraction_def Let_def)
  have "frac_text n @ r = CHR ''.'' # (?s @ r)" using False by (simp add: frac_text_def)
  moreover have "read_fraction (CHR ''.'' # (?s @ r)) =
      (num_of 0 (take 9 ?s) * 10 ^ (9 - length (take 9 ?s)), drop (length ?s) (?s @ r))"
    by (rule step[OF _ _ t[symmetric], of d "u @ r"]) (use s(1) d in simp_all)
  then have "read_fraction (CHR ''.'' # (?s @ r)) = (n, r)" unfolding nine v by simp
  ultimately show ?thesis by simp
qed

lemma read_zone_text: "\<bar>z\<bar> div 60 < 24 \<Longrightarrow> read_zone (zone_text z) = Some (z, [])"
proof (cases "z = 0")
  case False
  assume z: "\<bar>z\<bar> div 60 < 24"
  define h m where "h = \<bar>z\<bar> div 60" and "m = \<bar>z\<bar> mod 60"
  have h: "0 \<le> h" "h < 24" "0 \<le> m" "m < 60" "\<bar>z\<bar> = h * 60 + m" using z by (simp_all add: h_def m_def)
  have t: "two h = [digit_char (h div 10), digit_char (h mod 10)]" "two m = [digit_char (m div 10), digit_char (m mod 10)]"
    using h by (simp_all add: two_eq)
  have g: "getnum True (two h) = Some (h, [])" "getnum True (two m) = Some (m, [])"
    using getnum_two[of h True "[]"] getnum_two[of m True "[]"] h by simp_all
  have s: "zone_text z = (if z < 0 then CHR ''-'' else CHR ''+'') # two h @ CHR '':'' # two m"
    using False by (simp add: zone_text_def h_def m_def)
  have "\<not> 24 < h" "\<not> 60 < m" using h by simp_all
  moreover have "z = (if z < 0 then - (h * 60 + m) else h * 60 + m)" using h(5) by (cases "z < 0") simp_all
  ultimately show ?thesis
    unfolding s read_zone_def using g by (cases "z < 0") (simp_all add: t)
qed (simp add: zone_text_def read_zone_def)


subsection \<open>The round trip\<close>

lemma digit_char_neq: "0 \<le> n \<Longrightarrow> n < 10 \<Longrightarrow> in_range 48 57 (digit_char n)"
  by (simp add: in_range_def byte_digit_char)

lemma zone_text_head:
  "\<exists>c r. zone_text z = c # r \<and> c \<in> {CHR ''Z'', CHR ''+'', CHR ''-''}"
  by (auto simp: zone_text_def)

lemma ParseRFC3339_text:
  assumes "0 \<le> year_of t" "year_of t \<le> 9999" "\<bar>ZoneMinutes t\<bar> div 60 < 24"
  shows "ParseRFC3339 (rfc3339_text t) = Some t"
proof -
  define s where "s = local_seconds t"
  obtain y m d where date: "date_of_days (s div 86400 + epoch_days) = (y, m, d)" by (metis prod_cases3)
  note c = date_of_days_correct[OF date]
  have y: "0 \<le> y" "y \<le> 9999" using assms(1,2) date by (simp_all add: year_of_def s_def)
  have "month_days y ! nat (m - 1) \<le> 31"
  proof -
    have "nat (m - 1) < length (month_days y)" using c(2,3) by (simp add: month_days_def)
    then have "month_days y ! nat (m - 1) \<in> set (month_days y)" by (rule nth_mem)
    then show ?thesis by (auto simp: month_days_def split: if_splits)
  qed
  then have d: "0 \<le> d" "d < 100" "0 \<le> m" "m < 100" using c by auto
  define sod where "sod = s mod 86400"
  have sod: "0 \<le> sod" "sod < 86400" by (simp_all add: sod_def)
  then have hms: "0 \<le> sod div 3600" "sod div 3600 < 24" "0 \<le> sod div 60 mod 60" "sod div 60 mod 60 < 60"
    "0 \<le> sod mod 60" "sod mod 60 < 60" by (simp_all add: div_less_iff_less_mult pos_imp_zdiv_nonneg_iff)
  have recompose: "sod div 3600 * 3600 + sod div 60 mod 60 * 60 + sod mod 60 = sod"
  proof -
    have "sod div 3600 = sod div 60 div 60" by (simp flip: zdiv_zmult2_eq)
    moreover have "sod div 60 = sod div 60 div 60 * 60 + sod div 60 mod 60" by simp
    moreover have "sod = sod div 60 * 60 + sod mod 60" by simp
    ultimately show ?thesis by linarith
  qed
  define n where "n = UnixNano t mod 1000000000"
  have n: "0 \<le> n" "n < 1000000000" by (simp_all add: n_def)
  let ?z = "zone_text (ZoneMinutes t)"
  obtain zc zr where z: "?z = zc # zr" "zc \<in> {CHR ''Z'', CHR ''+'', CHR ''-''}" using zone_text_head by blast
  have "ends_digits ?z" using z by (auto simp: ends_digits_def in_range_def byte_def)
  then have fr: "read_fraction (frac_text n @ ?z) = (n, ?z)"
    using z n by (intro read_fraction_text) auto
  have instant: "civil y m d (sod div 3600 * 3600 + sod div 60 mod 60 * 60 + sod mod 60) (ZoneMinutes t) * 1000000000 + n = UnixNano t"
  proof -
    have "(days_of_date y m d - epoch_days) * 86400 + sod = s" using c(1) by (simp add: sod_def)
    then have "civil y m d sod (ZoneMinutes t) = UnixNano t div 1000000000"
      by (simp add: civil_def s_def local_seconds_def)
    then show ?thesis unfolding recompose by (simp add: n_def)
  qed
  define hh mi se where hms_def: "hh = sod div 3600" "mi = sod div 60 mod 60" "se = sod mod 60"
  have parts: "rfc3339_text t = pad_zeros 4 (dec_digits y) @ CHR ''-'' # two m @ CHR ''-'' # two d @ CHR ''T'' #
      two hh @ CHR '':'' # two mi @ CHR '':'' # two se @ frac_text n @ ?z"
    using date by (simp add: rfc3339_text_def Let_def s_def n_def sod_def clock_text_def hms_def)
  have bounds: "0 \<le> hh" "hh < 24" "0 \<le> mi" "mi < 60" "0 \<le> se" "se < 60" by (simp_all only: hms_def hms)
  have same: "\<lparr>UnixNano = civil y m d (hh * 3600 + mi * 60 + se) (ZoneMinutes t) * 1000000000 + n,
      ZoneMinutes = ZoneMinutes t\<rparr> = t"
    unfolding hms_def instant by simp
  have e: "expect c (c # r) = Some r" for c r by (simp add: expect_def)
  have g: "getnum f (two k @ r) = Some (k, r)" if "0 \<le> k" "k < 60" for f k r
    using that by (intro getnum_two) auto
  have md: "m < 60" "d < 60" using \<open>month_days y ! nat (m - 1) \<le> 31\<close> c by auto
  show ?thesis
    unfolding parts ParseRFC3339_def
    apply (simp only: getfour_pad[OF y] Option.bind.simps prod.case e g[OF d(3) md(1)] g[OF d(1) md(2)]
        g[OF bounds(3,4)] g[OF bounds(5,6)] getnum_two[OF bounds(1) less_trans[OF bounds(2)]] fr
        read_zone_text[OF assms(3)] Let_def)
    using c(2-5) bounds same by simp
qed

lemma MarshalTime_parses: "MarshalTime t = Inr s \<Longrightarrow> ParseRFC3339 s = Some t"
  by (auto simp: MarshalTime_def not_le ParseRFC3339_text split: if_splits)

end
