(* ===== verification/GoJson.thy ===== *)
theory GoJson
  imports TimeFacts GoMap
begin

text \<open>
  The parts of \<open>encoding/json\<close> the program uses. A JSON text is a tree of literals as they
  are written: numbers and strings (between the quotes) keep their text, so that a reader can
  look at it the way \<open>Unmarshal\<close> does. \<open>print_json\<close> is the layout of \<open>MarshalIndent(v, "", "  ")\<close>;
  \<open>parse_json\<close> is the scanner with its limit of 10000 nested values. Recursion in the parser
  is bounded by fuel; the lemmas of \<open>JsonFacts\<close> show that there is always enough of it.
\<close>

datatype json =
    JNull
  | JBool bool
  | JNum gostring
  | JStr gostring
  | JArr "json list"
  | JObj "(gostring \<times> json) list"

subsection \<open>Writing\<close>

definition quoted :: "gostring \<Rightarrow> gostring" where
  "quoted raw = dquote @ raw @ dquote"

text \<open>A line break with two spaces for each level.\<close>

definition indent :: "nat \<Rightarrow> gostring" where
  "indent d = newline @ concat (replicate d ''  '')"

fun join :: "gostring \<Rightarrow> gostring list \<Rightarrow> gostring" where
  "join sep [] = ''''"
| "join sep [x] = x"
| "join sep (x # y # ys) = x @ sep @ join sep (y # ys)"

fun print_json :: "nat \<Rightarrow> json \<Rightarrow> gostring" where
  "print_json d JNull = ''null''"
| "print_json d (JBool b) = (if b then ''true'' else ''false'')"
| "print_json d (JNum t) = t"
| "print_json d (JStr raw) = quoted raw"
| "print_json d (JArr vs) =
     (if vs = [] then ''[]''
      else ''['' @ indent (Suc d) @ join ('','' @ indent (Suc d)) (map (print_json (Suc d)) vs) @
        indent d @ '']'')"
| "print_json d (JObj ms) =
     (if ms = [] then ''{}''
      else ''{'' @ indent (Suc d) @
        join ('','' @ indent (Suc d)) (map (\<lambda>(k, v). quoted k @ '': '' @ print_json (Suc d) v) ms) @
        indent d @ ''}'')"

subsection \<open>Strings\<close>

definition unicode_escape :: "char \<Rightarrow> gostring" where
  "unicode_escape c = [CHR 0x5C, CHR ''u'', CHR ''0'', CHR ''0'', hex_char (byte c div 16), hex_char (byte c mod 16)]"

definition json_quote_byte :: "char \<Rightarrow> gostring" where
  "json_quote_byte c =
     (if c = CHR 0x22 \<or> c = CHR 0x5C then [CHR 0x5C, c]
      else if c = CHR 0x08 then [CHR 0x5C, CHR ''b'']
      else if c = CHR 0x0C then [CHR 0x5C, CHR ''f'']
      else if c = CHR 0x0A then [CHR 0x5C, CHR ''n'']
      else if c = CHR 0x0D then [CHR 0x5C, CHR ''r'']
      else if c = CHR 0x09 then [CHR 0x5C, CHR ''t'']
      else if byte c < 0x20 \<or> c \<in> {CHR ''<'', CHR ''>'', CHR ''&''} then unicode_escape c
      else [c])"

text \<open>Invalid bytes become U+FFFD; the two line separators are escaped too.\<close>

definition json_quote_rune :: "bool \<times> gostring \<Rightarrow> gostring" where
  "json_quote_rune r =
     (if \<not> fst r then CHR 0x5C # ''ufffd''
      else case snd r of
          [c] \<Rightarrow> json_quote_byte c
        | bs \<Rightarrow>
            if bs = [CHR 0xE2, CHR 0x80, CHR 0xA8] then CHR 0x5C # ''u2028''
            else if bs = [CHR 0xE2, CHR 0x80, CHR 0xA9] then CHR 0x5C # ''u2029''
            else bs)"

definition json_quote :: "gostring \<Rightarrow> gostring" where
  "json_quote s = concat (map json_quote_rune (runes s))"

text \<open>UTF-8 of a code point.\<close>

definition utf8_encode :: "int \<Rightarrow> gostring" where
  "utf8_encode n =
     (if n < 0x80 then [char_of n]
      else if n < 0x800 then [char_of (0xC0 + n div 64), char_of (0x80 + n mod 64)]
      else if n < 0x10000
        then [char_of (0xE0 + n div 4096), char_of (0x80 + n div 64 mod 64), char_of (0x80 + n mod 64)]
      else [char_of (0xF0 + n div 262144), char_of (0x80 + n div 4096 mod 64),
            char_of (0x80 + n div 64 mod 64), char_of (0x80 + n mod 64)])"

definition rune_error :: gostring where
  "rune_error = [CHR 0xEF, CHR 0xBF, CHR 0xBD]"

definition is_hex :: "char \<Rightarrow> bool" where
  "is_hex c \<longleftrightarrow> digit_val 16 c \<noteq> None"

definition hex4 :: "gostring \<Rightarrow> int" where
  "hex4 s = fold (\<lambda>c n. 16 * n + the (digit_val 16 c)) (take 4 s) 0"

definition simple_escape :: "char \<Rightarrow> char" where
  "simple_escape e =
     (if e = CHR ''b'' then CHR 0x08 else if e = CHR ''f'' then CHR 0x0C else if e = CHR ''n'' then CHR 0x0A
      else if e = CHR ''r'' then CHR 0x0D else if e = CHR ''t'' then CHR 0x09 else e)"

text \<open>\<open>unquote\<close> of a literal the scanner has accepted; surrogates that are no pair give U+FFFD.\<close>

definition surrogate_pair :: "int \<Rightarrow> gostring \<Rightarrow> bool" where
  "surrogate_pair hi r \<longleftrightarrow> hi < 0xDC00 \<and> take 2 r = [CHR 0x5C, CHR ''u''] \<and> list_all is_hex (take 4 (drop 2 r)) \<and>
     6 \<le> length r \<and> 0xDC00 \<le> hex4 (drop 2 r) \<and> hex4 (drop 2 r) < 0xE000"

function json_unquote :: "gostring \<Rightarrow> gostring" where
  "json_unquote [] = []"
| "json_unquote (c # cs) =
     (if c = CHR 0x5C then
        (case cs of
           [] \<Rightarrow> []
         | e # r \<Rightarrow>
             if e = CHR ''u'' then
               (let n = hex4 r; r' = drop 4 r
                in if 0xD800 \<le> n \<and> n < 0xE000 then
                     (if surrogate_pair n r'
                      then utf8_encode (0x10000 + (n - 0xD800) * 1024 + (hex4 (drop 2 r') - 0xDC00)) @
                        json_unquote (drop 6 r')
                      else rune_error @ json_unquote r')
                   else utf8_encode n @ json_unquote r')
             else simple_escape e # json_unquote r)
      else if rune_len (c # cs) = 0 then rune_error @ json_unquote cs
      else take (rune_len (c # cs)) (c # cs) @ json_unquote (drop (rune_len (c # cs) - 1) cs))"
  by pat_completeness auto
termination by (relation "measure length") auto

declare json_unquote.simps(2) [simp del]

subsection \<open>Reading\<close>

definition is_ws :: "char \<Rightarrow> bool" where
  "is_ws c \<longleftrightarrow> c \<in> {CHR 0x20, CHR 0x09, CHR 0x0D, CHR 0x0A}"

definition skip_ws :: "gostring \<Rightarrow> gostring" where
  "skip_ws s = dropWhile is_ws s"

text \<open>After the opening quote: the raw content and what follows the closing quote.\<close>

fun scan_string :: "gostring \<Rightarrow> (gostring \<times> gostring) option" where
  "scan_string [] = None"
| "scan_string (c # cs) =
     (if c = CHR 0x22 then Some ([], cs)
      else if c = CHR 0x5C then
        (case cs of
           [] \<Rightarrow> None
         | e # r \<Rightarrow>
             if e = CHR 0x22 \<or> e = CHR 0x5C \<or> e \<in> set ''/bfnrt''
             then map_option (\<lambda>(s, t). (c # e # s, t)) (scan_string r)
             else if e = CHR ''u'' then
               (case r of
                  h1 # h2 # h3 # h4 # r' \<Rightarrow>
                    if list_all is_hex [h1, h2, h3, h4]
                    then map_option (\<lambda>(s, t). (c # e # h1 # h2 # h3 # h4 # s, t)) (scan_string r')
                    else None
                | _ \<Rightarrow> None)
             else None)
      else if byte c < 0x20 then None
      else map_option (\<lambda>(s, t). (c # s, t)) (scan_string cs))"

definition digit_run :: "gostring \<Rightarrow> gostring" where
  "digit_run s = takeWhile (in_range 48 57) s"

text \<open>The parts of a number: integer digits, an optional fraction, an optional exponent.\<close>

definition scan_int :: "gostring \<Rightarrow> gostring option" where
  "scan_int s =
     (case s of
        [] \<Rightarrow> None
      | c # _ \<Rightarrow>
          if c = CHR ''0'' then Some [c]
          else if in_range 49 57 c then Some (digit_run s) else None)"

definition scan_frac :: "gostring \<Rightarrow> gostring option" where
  "scan_frac s =
     (case s of
        c # r \<Rightarrow> if c = CHR ''.'' then (if digit_run r = [] then None else Some (c # digit_run r)) else Some []
      | [] \<Rightarrow> Some [])"

definition exp_sign :: "gostring \<Rightarrow> gostring" where
  "exp_sign s = (case s of c # _ \<Rightarrow> if c = CHR ''+'' \<or> c = CHR ''-'' then [c] else [] | [] \<Rightarrow> [])"

definition scan_exp :: "gostring \<Rightarrow> gostring option" where
  "scan_exp s =
     (case s of
        c # r \<Rightarrow>
          if c = CHR ''e'' \<or> c = CHR ''E'' then
            (let ds = digit_run (drop (length (exp_sign r)) r)
             in if ds = [] then None else Some (c # exp_sign r @ ds))
          else Some []
      | [] \<Rightarrow> Some [])"

definition scan_number :: "gostring \<Rightarrow> (gostring \<times> gostring) option" where
  "scan_number s =
     (let m = (case s of c # _ \<Rightarrow> if c = CHR ''-'' then [c] else [] | [] \<Rightarrow> []); s0 = drop (length m) s
      in Option.bind (scan_int s0) (\<lambda>i. let s1 = drop (length i) s0 in
         Option.bind (scan_frac s1) (\<lambda>f. let s2 = drop (length f) s1 in
         Option.bind (scan_exp s2) (\<lambda>e. Some (m @ i @ f @ e, drop (length e) s2)))))"

definition maxNestingDepth :: nat where
  "maxNestingDepth = 10000"

fun parse_value :: "nat \<Rightarrow> nat \<Rightarrow> gostring \<Rightarrow> (json \<times> gostring) option"
  and parse_elems :: "nat \<Rightarrow> nat \<Rightarrow> gostring \<Rightarrow> (json list \<times> gostring) option"
  and parse_members :: "nat \<Rightarrow> nat \<Rightarrow> gostring \<Rightarrow> ((gostring \<times> json) list \<times> gostring) option" where
  "parse_value 0 d s = None"
| "parse_value (Suc n) d s =
     (case skip_ws s of
        [] \<Rightarrow> None
      | c # r \<Rightarrow>
          if c = CHR ''{'' then
            (if maxNestingDepth \<le> d then None
             else if take 1 (skip_ws r) = ''}'' then Some (JObj [], drop 1 (skip_ws r))
             else map_option (\<lambda>(ms, t). (JObj ms, t)) (parse_members n (Suc d) r))
          else if c = CHR ''['' then
            (if maxNestingDepth \<le> d then None
             else if take 1 (skip_ws r) = '']'' then Some (JArr [], drop 1 (skip_ws r))
             else map_option (\<lambda>(vs, t). (JArr vs, t)) (parse_elems n (Suc d) r))
          else if c = CHR 0x22 then map_option (\<lambda>(raw, t). (JStr raw, t)) (scan_string r)
          else if take 4 (c # r) = ''true'' then Some (JBool True, drop 3 r)
          else if take 5 (c # r) = ''false'' then Some (JBool False, drop 4 r)
          else if take 4 (c # r) = ''null'' then Some (JNull, drop 3 r)
          else map_option (\<lambda>(lit, t). (JNum lit, t)) (scan_number (c # r)))"
| "parse_elems 0 d s = None"
| "parse_elems (Suc n) d s =
     (case parse_value n d s of
        None \<Rightarrow> None
      | Some (v, r) \<Rightarrow>
          (case skip_ws r of
             [] \<Rightarrow> None
           | c # t \<Rightarrow>
               if c = CHR '','' then map_option (\<lambda>(vs, u). (v # vs, u)) (parse_elems n d t)
               else if c = CHR '']'' then Some ([v], t) else None))"
| "parse_members 0 d s = None"
| "parse_members (Suc n) d s =
     (case skip_ws s of
        [] \<Rightarrow> None
      | q # r \<Rightarrow>
          if q \<noteq> CHR 0x22 then None
          else case scan_string r of
              None \<Rightarrow> None
            | Some (k, r1) \<Rightarrow>
                (case skip_ws r1 of
                   [] \<Rightarrow> None
                 | c # r2 \<Rightarrow>
                     if c \<noteq> CHR '':'' then None
                     else case parse_value n d r2 of
                         None \<Rightarrow> None
                       | Some (v, r3) \<Rightarrow>
                           (case skip_ws r3 of
                              [] \<Rightarrow> None
                            | e # t \<Rightarrow>
                                if e = CHR '','' then map_option (\<lambda>(ms, u). ((k, v) # ms, u)) (parse_members n d t)
                                else if e = CHR ''}'' then Some ([(k, v)], t) else None)))"

definition json_fuel :: "gostring \<Rightarrow> nat" where
  "json_fuel s = 2 * length s + 2"

definition parse_json :: "gostring \<Rightarrow> json option" where
  "parse_json s =
     (case parse_value (json_fuel s) 0 s of
        Some (v, r) \<Rightarrow> if skip_ws r = [] then Some v else None
      | None \<Rightarrow> None)"

end
