(* ===== verification/JsonFacts.thy ===== *)
theory JsonFacts
  imports GoJson
begin

text \<open>
  Reading what was written: a quoted string unquotes to itself (up to invalid UTF-8), the
  parser takes a printed value back, and the fuel of the parser is always enough.
\<close>

subsection \<open>Runes\<close>

definition whole_rune :: "gostring \<Rightarrow> bool" where
  "whole_rune bs \<longleftrightarrow> bs \<noteq> [] \<and> rune_len bs = length bs"

lemma rune_len_cases:
  assumes "rune_len s = n" "0 < n"
  shows "n \<le> length s \<and> rune_len (take n s @ t) = n \<and>
    (if n = 1 then byte (hd s) < 0x80 else list_all (\<lambda>c. 0x80 \<le> byte c) (take n s))"
proof -
  consider "s = []" | a where "s = [a]" | a b where "s = [a, b]" | a b c where "s = [a, b, c]"
    | a b c d u where "s = a # b # c # d # u"
    by (metis list.exhaust)
  then show ?thesis
    by cases (use assms in \<open>auto simp: rune_len_def in_range_def split: if_splits\<close>)
qed

lemma rune_len_head: "whole_rune bs \<Longrightarrow> rune_len (bs @ t) = length bs"
  using rune_len_cases[of bs "length bs" t] by (cases "length bs") (auto simp: whole_rune_def)

lemma whole_rune_bytes:
  "whole_rune [c] \<Longrightarrow> byte c < 0x80"
  "whole_rune (c # c' # cs) \<Longrightarrow> b \<in> set (c # c' # cs) \<Longrightarrow> 0x80 \<le> byte b"
  using rune_len_cases[of "[c]" 1 "[]"] rune_len_cases[of "c # c' # cs" "length (c # c' # cs)" "[]"]
  by (auto simp: whole_rune_def list_all_iff)

lemma runes_whole: "(ok, bs) \<in> set (runes s) \<Longrightarrow> if ok then whole_rune bs else length bs = 1"
proof (induction s rule: runes.induct)
  case (2 c cs)
  show ?case
  proof (cases "rune_len (c # cs) = 0")
    case True
    then show ?thesis using 2 by auto
  next
    case False
    let ?n = "rune_len (c # cs)"
    have n: "?n \<le> length (c # cs)" "rune_len (take ?n (c # cs)) = ?n"
      using rune_len_cases[OF refl, of "c # cs" "[]"] False by (simp_all only: append_Nil2 neq0_conv)
    have "length (take ?n (c # cs)) = ?n" using n(1) by (simp only: length_take min_absorb2)
    then have "whole_rune (take ?n (c # cs))" using False n(2)
      by (metis length_0_conv whole_rune_def)
    then show ?thesis using 2 False by auto
  qed
qed simp

text \<open>The text with every invalid byte replaced, which is what survives JSON.\<close>

definition valid_utf8 :: "gostring \<Rightarrow> gostring" where
  "valid_utf8 s = concat (map rune_bytes (runes s))"

definition utf8_ok :: "gostring \<Rightarrow> bool" where
  "utf8_ok s \<longleftrightarrow> list_all fst (runes s)"

lemma valid_utf8_ok: "utf8_ok s \<Longrightarrow> valid_utf8 s = s"
proof -
  assume "utf8_ok s"
  then have eq: "map rune_bytes (runes s) = map snd (runes s)"
    by (auto simp: utf8_ok_def list_all_iff rune_bytes_def)
  show "valid_utf8 s = s" unfolding valid_utf8_def eq by (rule runes_concat)
qed

subsection \<open>Quoting and unquoting\<close>

lemma char_cases: "P (c :: char)" if "\<And>n. n < 256 \<Longrightarrow> P (char_of (n :: nat))"
  using that[of "of_char c"] by simp

lemma unquote_ascii:
  assumes "byte c < 0x80" "c \<noteq> CHR 0x5C"
  shows "json_unquote (c # t) = c # json_unquote t"
proof -
  have "rune_len (c # t) = 1" using assms(1) by (simp add: rune_len_def)
  then show ?thesis using assms(2) by (simp add: json_unquote.simps(2))
qed

lemma unquote_escape: "e \<noteq> CHR ''u'' \<Longrightarrow> json_unquote (CHR 0x5C # e # t) = simple_escape e # json_unquote t"
  by (simp add: json_unquote.simps(2))

lemma unquote_unicode:
  assumes "length h = 4" "hex4 h < 0xD800 \<or> 0xE000 \<le> hex4 h"
  shows "json_unquote (CHR 0x5C # CHR ''u'' # h @ t) = utf8_encode (hex4 h) @ json_unquote t"
proof -
  have eq: "hex4 (h @ t) = hex4 h" "drop 4 (h @ t) = t" using assms(1) by (simp_all add: hex4_def)
  have "\<not> (0xD800 \<le> hex4 h \<and> hex4 h < 0xE000)" using assms(2) by linarith
  then show ?thesis
    by (subst json_unquote.simps(2)) (simp only: list.case Let_def eq refl if_True if_False)
qed

definition plain_unicode :: "char \<Rightarrow> bool" where
  "plain_unicode c \<longleftrightarrow> hex4 (drop 2 (unicode_escape c)) = byte c"

lemma hex_char_value: "0 \<le> d \<Longrightarrow> d < 16 \<Longrightarrow> digit_val 16 (hex_char d) = Some d"
proof -
  assume d: "0 \<le> d" "d < 16"
  show ?thesis
  proof (cases "d < 10")
    case True
    then show ?thesis using d by (simp add: hex_char_def digit_val_def in_range_def byte_def)
  next
    case False
    then show ?thesis using d
      by (simp add: hex_char_def digit_val_def in_range_def byte_def ascii_lower_def)
  qed
qed

lemma byte_bounds: "0 \<le> byte c" "byte c < 256"
  using of_nat_of_char[of c, where 'a = int] nat_of_char_less_256[of c]
  unfolding byte_def by linarith+

lemma unicode_escape_value: "hex4 (drop 2 (unicode_escape c)) = byte c" "length (unicode_escape c) = 6"
    "list_all is_hex (drop 2 (unicode_escape c))"
proof -
  have b: "0 \<le> byte c div 16" "byte c div 16 < 16" "0 \<le> byte c mod 16" "byte c mod 16 < 16"
    using byte_bounds[of c] by auto
  have z: "digit_val 16 (CHR ''0'') = Some 0" by code_simp
  show "hex4 (drop 2 (unicode_escape c)) = byte c"
    using b by (simp add: unicode_escape_def hex4_def z hex_char_value)
  show "length (unicode_escape c) = 6" by (simp add: unicode_escape_def)
  show "list_all is_hex (drop 2 (unicode_escape c))"
    using b by (simp add: unicode_escape_def is_hex_def z hex_char_value)
qed

lemma unquote_quote_byte:
  assumes "byte c < 0x80"
  shows "json_unquote (json_quote_byte c @ t) = c # json_unquote t"
proof -
  have u: "json_unquote (unicode_escape c @ t) = c # json_unquote t"
  proof -
    have "unicode_escape c = CHR 0x5C # CHR ''u'' # drop 2 (unicode_escape c)" by (simp add: unicode_escape_def)
    moreover have "length (drop 2 (unicode_escape c)) = 4" by (simp add: unicode_escape_value(2))
    moreover have "utf8_encode (byte c) = [c]" using assms by (simp add: utf8_encode_def byte_def)
    moreover have "hex4 (drop 2 (unicode_escape c)) < 0xD800" using assms unicode_escape_value(1)[of c] by simp
    ultimately show ?thesis
      using unquote_unicode[of "drop 2 (unicode_escape c)" t] unicode_escape_value(1)[of c]
      by (metis append_Cons append_Nil)
  qed
  show ?thesis
    using u unquote_ascii[OF assms] unquote_escape
    by (auto simp: json_quote_byte_def simple_escape_def)
qed

lemma unquote_quote_rune:
  assumes "(ok, bs) \<in> set (runes s)"
  shows "json_unquote (json_quote_rune (ok, bs) @ t) = rune_bytes (ok, bs) @ json_unquote t"
proof (cases ok)
  case False
  have "hex4 ''fffd'' = 0xFFFD" "utf8_encode 0xFFFD = [CHR 0xEF, CHR 0xBF, CHR 0xBD]" by code_simp+
  then show ?thesis
    using unquote_unicode[of "''fffd''" t] False by (simp add: json_quote_rune_def rune_bytes_def)
next
  case True
  then have w: "whole_rune bs" using runes_whole[OF assms] by simp
  then obtain c cs where c: "bs = c # cs" by (cases bs) (auto simp: whole_rune_def)
  show ?thesis
  proof (cases cs)
    case Nil
    then show ?thesis
      using True c w whole_rune_bytes(1) unquote_quote_byte by (simp add: json_quote_rune_def rune_bytes_def)
  next
    case (Cons c' cs')
    have "byte c \<ge> 0x80" using whole_rune_bytes(2)[of c c' cs' c] w c Cons by simp
    then have "c \<noteq> CHR 0x5C" by (auto simp: byte_def)
    moreover have "rune_len (bs @ t) = length bs" using rune_len_head[OF w] .
    ultimately have raw: "json_unquote (bs @ t) = bs @ json_unquote t"
      using c by (simp add: json_unquote.simps(2))
    have sep: "json_unquote (CHR 0x5C # ''u2028'' @ t) = [CHR 0xE2, CHR 0x80, CHR 0xA8] @ json_unquote t"
      "json_unquote (CHR 0x5C # ''u2029'' @ t) = [CHR 0xE2, CHR 0x80, CHR 0xA9] @ json_unquote t"
    proof -
      have "hex4 ''2028'' = 0x2028" "utf8_encode 0x2028 = [CHR 0xE2, CHR 0x80, CHR 0xA8]"
        "hex4 ''2029'' = 0x2029" "utf8_encode 0x2029 = [CHR 0xE2, CHR 0x80, CHR 0xA9]" by code_simp+
      then show "json_unquote (CHR 0x5C # ''u2028'' @ t) = [CHR 0xE2, CHR 0x80, CHR 0xA8] @ json_unquote t"
        "json_unquote (CHR 0x5C # ''u2029'' @ t) = [CHR 0xE2, CHR 0x80, CHR 0xA9] @ json_unquote t"
        using unquote_unicode[of "''2028''" t] unquote_unicode[of "''2029''" t] by simp_all
    qed
    have q: "json_quote_rune (ok, bs) = (if bs = [CHR 0xE2, CHR 0x80, CHR 0xA8] then CHR 0x5C # ''u2028''
        else if bs = [CHR 0xE2, CHR 0x80, CHR 0xA9] then CHR 0x5C # ''u2029'' else bs)"
      using True c Cons by (simp add: json_quote_rune_def)
    show ?thesis unfolding q rune_bytes_def
      using raw sep True by auto
  qed
qed

theorem unquote_quote: "json_unquote (json_quote s) = valid_utf8 s"
proof -
  have "json_unquote (concat (map json_quote_rune rs)) = concat (map rune_bytes rs)" if "set rs \<subseteq> set (runes s)" for rs
    using that
  proof (induction rs)
    case (Cons r rs)
    then show ?case using unquote_quote_rune[of "fst r" "snd r" s] by (cases r) auto
  qed simp
  then show ?thesis by (simp add: json_quote_def valid_utf8_def)
qed

text \<open>A quoted string is a literal the scanner accepts.\<close>

lemma scan_string_append: "scan_string s = Some (raw, t) \<Longrightarrow> scan_string (s @ r) = Some (raw, t @ r)"
proof (induction s arbitrary: raw t rule: scan_string.induct)
  case (2 c cs)
  note IH = "2.IH" and prem = "2.prems"
  consider (quote) "c = CHR 0x22" | (escape) "c = CHR 0x5C" | (other) "c \<noteq> CHR 0x22" "c \<noteq> CHR 0x5C" by blast
  then show ?case
  proof cases
    case quote
    then show ?thesis using prem by simp
  next
    case escape
    then have ne: "c \<noteq> CHR 0x22" by simp
    obtain e u where e: "cs = e # u" using prem escape by (cases cs) auto
    show ?thesis
    proof (cases "e = CHR 0x22 \<or> e = CHR 0x5C \<or> e \<in> set ''/bfnrt''")
      case True
      then obtain raw' where "scan_string u = Some (raw', t)" "raw = c # e # raw'"
        using prem escape e by auto
      then show ?thesis using IH(1)[OF ne escape e True, of raw' t] escape e True by auto
    next
      case False
      then have u: "e = CHR ''u''" using prem escape e by (auto split: if_splits)
      then obtain h1 h2 h3 h4 v where h: "u = h1 # h2 # h3 # h4 # v" "list_all is_hex [h1, h2, h3, h4]"
        using prem escape e False by (auto split: list.splits if_splits)
      then obtain raw' where "scan_string v = Some (raw', t)" "raw = c # e # h1 # h2 # h3 # h4 # raw'"
        using prem escape e u by auto
      then show ?thesis using IH(2)[OF ne escape e False u h(1) refl refl refl h(2), of raw' t] escape e u h by auto
    qed
  next
    case other
    then obtain raw' where "\<not> byte c < 0x20" "scan_string cs = Some (raw', t)" "raw = c # raw'"
      using prem by (auto split: if_splits)
    then show ?thesis using IH(3)[OF other(1,2), of raw' t] other by auto
  qed
qed simp

lemma scan_plain: "0x20 \<le> byte c \<Longrightarrow> c \<noteq> CHR 0x22 \<Longrightarrow> c \<noteq> CHR 0x5C \<Longrightarrow>
    scan_string (c # s) = map_option (\<lambda>(a, b). (c # a, b)) (scan_string s)"
  by simp

lemma scan_plain_list:
  "list_all (\<lambda>c. 0x80 \<le> byte c) bs \<Longrightarrow>
     scan_string (bs @ s) = map_option (\<lambda>(a, b). (bs @ a, b)) (scan_string s)"
proof (induction bs)
  case (Cons c bs)
  have "c \<noteq> CHR 0x22" "c \<noteq> CHR 0x5C" using Cons.prems by (auto simp: byte_def)
  then show ?case using Cons by (cases "scan_string s") (auto simp: not_less)
qed (cases "scan_string s"; simp)

lemma scan_unicode:
  "length h = 4 \<Longrightarrow> list_all is_hex h \<Longrightarrow>
     scan_string (CHR 0x5C # CHR ''u'' # h @ s) =
       map_option (\<lambda>(a, b). (CHR 0x5C # CHR ''u'' # h @ a, b)) (scan_string s)"
  by (auto simp: length_Suc_conv numeral_eq_Suc)

lemma scan_quote_byte:
  assumes "byte c < 0x80"
  shows "scan_string (json_quote_byte c @ s) = map_option (\<lambda>(a, b). (json_quote_byte c @ a, b)) (scan_string s)"
proof -
  obtain h where h: "unicode_escape c = CHR 0x5C # CHR ''u'' # h" "length h = 4" "list_all is_hex h"
    using unicode_escape_value(2,3)[of c] by (simp add: unicode_escape_def)
  have "scan_string (unicode_escape c @ s) = map_option (\<lambda>(a, b). (unicode_escape c @ a, b)) (scan_string s)"
    unfolding h(1) append_Cons by (rule scan_unicode[OF h(2,3)])
  then show ?thesis by (auto simp: json_quote_byte_def)
qed

lemma scan_quote_rune:
  assumes "(ok, bs) \<in> set (runes s)"
  shows "scan_string (json_quote_rune (ok, bs) @ u) =
    map_option (\<lambda>(a, b). (json_quote_rune (ok, bs) @ a, b)) (scan_string u)"
proof -
  have lit: "scan_string (CHR 0x5C # ''ufffd'' @ u) = map_option (\<lambda>(a, b). (CHR 0x5C # ''ufffd'' @ a, b)) (scan_string u)"
    "scan_string (CHR 0x5C # ''u2028'' @ u) = map_option (\<lambda>(a, b). (CHR 0x5C # ''u2028'' @ a, b)) (scan_string u)"
    "scan_string (CHR 0x5C # ''u2029'' @ u) = map_option (\<lambda>(a, b). (CHR 0x5C # ''u2029'' @ a, b)) (scan_string u)"
  proof -
    have "list_all is_hex ''fffd''" "list_all is_hex ''2028''" "list_all is_hex ''2029''" by code_simp+
    then show "scan_string (CHR 0x5C # ''ufffd'' @ u) = map_option (\<lambda>(a, b). (CHR 0x5C # ''ufffd'' @ a, b)) (scan_string u)"
      "scan_string (CHR 0x5C # ''u2028'' @ u) = map_option (\<lambda>(a, b). (CHR 0x5C # ''u2028'' @ a, b)) (scan_string u)"
      "scan_string (CHR 0x5C # ''u2029'' @ u) = map_option (\<lambda>(a, b). (CHR 0x5C # ''u2029'' @ a, b)) (scan_string u)"
      using scan_unicode[of "''fffd''" u] scan_unicode[of "''2028''" u] scan_unicode[of "''2029''" u]
      by (simp_all del: scan_string.simps)
  qed
  show ?thesis
  proof (cases ok)
    case False
    then show ?thesis using lit(1) by (simp add: json_quote_rune_def del: scan_string.simps)
  next
    case True
    then have w: "whole_rune bs" using runes_whole[OF assms] by simp
    then obtain c cs where c: "bs = c # cs" by (cases bs) (auto simp: whole_rune_def)
    show ?thesis
    proof (cases cs)
      case Nil
      then show ?thesis using True c w whole_rune_bytes(1) scan_quote_byte by (simp add: json_quote_rune_def)
    next
      case (Cons c' cs')
      have "list_all (\<lambda>c. 0x80 \<le> byte c) bs"
        using whole_rune_bytes(2)[of c c' cs'] w c Cons by (auto simp: list_all_iff)
      then have raw: "scan_string (bs @ u) = map_option (\<lambda>(a, b). (bs @ a, b)) (scan_string u)" by (rule scan_plain_list)
      have q: "json_quote_rune (ok, bs) = (if bs = [CHR 0xE2, CHR 0x80, CHR 0xA8] then CHR 0x5C # ''u2028''
          else if bs = [CHR 0xE2, CHR 0x80, CHR 0xA9] then CHR 0x5C # ''u2029'' else bs)"
        using True c Cons by (simp add: json_quote_rune_def)
      show ?thesis unfolding q using raw lit by (simp del: scan_string.simps)
    qed
  qed
qed

lemma scan_quoted: "scan_string (json_quote s @ CHR 0x22 # r) = Some (json_quote s, r)"
proof -
  have "scan_string (concat (map json_quote_rune rs) @ CHR 0x22 # r) = Some (concat (map json_quote_rune rs), r)"
    if "set rs \<subseteq> set (runes s)" for rs
    using that
  proof (induction rs)
    case (Cons q rs)
    then show ?case using scan_quote_rune[of "fst q" "snd q" s] by (cases q) auto
  qed simp
  then show ?thesis by (simp add: json_quote_def)
qed

subsection \<open>Numbers\<close>

text \<open>Nothing that may continue a number.\<close>

definition num_end :: "gostring \<Rightarrow> bool" where
  "num_end r \<longleftrightarrow> (case r of [] \<Rightarrow> True | c # _ \<Rightarrow> \<not> num_char c \<and> c \<noteq> CHR ''E'')"

lemma digit_run_append: "ends_digits r \<Longrightarrow> digit_run (s @ r) = digit_run s"
  by (induction s) (auto simp: digit_run_def ends_digits_def split: list.splits)

lemma num_end_digits: "num_end r \<Longrightarrow> ends_digits r"
  by (auto simp: num_end_def ends_digits_def num_char_def split: list.splits)

lemma scan_int_append: "num_end r \<Longrightarrow> scan_int s = Some i \<Longrightarrow> scan_int (s @ r) = Some i"
  using digit_run_append[OF num_end_digits, of r s]
  by (cases s) (auto simp: scan_int_def split: if_splits)

lemma scan_frac_append: "num_end r \<Longrightarrow> scan_frac s = Some f \<Longrightarrow> scan_frac (s @ r) = Some f"
  using digit_run_append[OF num_end_digits, of r "tl s"]
  by (cases s; cases r) (auto simp: scan_frac_def num_end_def num_char_def split: if_splits)

lemma scan_exp_append: "num_end r \<Longrightarrow> scan_exp s = Some e \<Longrightarrow> scan_exp (s @ r) = Some e"
proof (cases s)
  case Nil
  then show "num_end r \<Longrightarrow> scan_exp s = Some e \<Longrightarrow> scan_exp (s @ r) = Some e"
    by (cases r) (auto simp: scan_exp_def num_end_def num_char_def)
next
  case (Cons c u)
  assume r: "num_end r" and e: "scan_exp s = Some e"
  show "scan_exp (s @ r) = Some e"
  proof (cases "c = CHR ''e'' \<or> c = CHR ''E''")
    case True
    then have "u \<noteq> []" using e Cons by (auto simp: scan_exp_def digit_run_def)
    then have "exp_sign (u @ r) = exp_sign u" "length (exp_sign u) \<le> length u"
      by (cases u; auto simp: exp_sign_def)+
    then show ?thesis
      using True e Cons digit_run_append[OF num_end_digits[OF r], of "drop (length (exp_sign u)) u"]
      by (auto simp: scan_exp_def Let_def split: if_splits)
  qed (use e Cons in \<open>simp add: scan_exp_def\<close>)
qed

lemma scan_int_length: "scan_int s = Some i \<Longrightarrow> length i \<le> length s \<and> i \<noteq> [] \<and> s \<noteq> []"
  by (cases s) (auto simp: scan_int_def digit_run_def length_takeWhile_le le_SucI in_range_def split: if_splits)

lemma scan_frac_length: "scan_frac s = Some f \<Longrightarrow> length f \<le> length s"
  by (cases s) (auto simp: scan_frac_def digit_run_def length_takeWhile_le split: if_splits)

lemma scan_exp_length: "scan_exp s = Some e \<Longrightarrow> length e \<le> length s"
proof (cases s)
  case (Cons c u)
  assume e: "scan_exp s = Some e"
  have "length (exp_sign u) \<le> length u" by (cases u) (auto simp: exp_sign_def)
  moreover have "length (digit_run (drop (length (exp_sign u)) u)) \<le> length (drop (length (exp_sign u)) u)"
    unfolding digit_run_def by (rule length_takeWhile_le)
  ultimately have "length (exp_sign u) + length (digit_run (drop (length (exp_sign u)) u)) \<le> length u" by simp
  then show ?thesis using e Cons by (auto simp: scan_exp_def Let_def split: if_splits)
qed (auto simp: scan_exp_def)

definition num_minus :: "gostring \<Rightarrow> gostring" where
  "num_minus s = (case s of c # _ \<Rightarrow> if c = CHR ''-'' then [c] else [] | [] \<Rightarrow> [])"

lemma scan_number_parts:
  "scan_number s = Some (t, r) \<longleftrightarrow>
     (\<exists>i f e. scan_int (drop (length (num_minus s)) s) = Some i \<and>
        scan_frac (drop (length i) (drop (length (num_minus s)) s)) = Some f \<and>
        scan_exp (drop (length f) (drop (length i) (drop (length (num_minus s)) s))) = Some e \<and>
        t = num_minus s @ i @ f @ e \<and>
        r = drop (length e) (drop (length f) (drop (length i) (drop (length (num_minus s)) s))))"
  unfolding scan_number_def num_minus_def[symmetric] Let_def by (auto simp: bind_eq_Some_conv)

lemma scan_number_append:
  assumes "scan_number t = Some (t, [])" "num_end r"
  shows "scan_number (t @ r) = Some (t, r)"
proof -
  define s0 where "s0 = drop (length (num_minus t)) t"
  obtain i f e where p: "scan_int s0 = Some i" "scan_frac (drop (length i) s0) = Some f"
    "scan_exp (drop (length f) (drop (length i) s0)) = Some e" "t = num_minus t @ i @ f @ e"
    "[] = drop (length e) (drop (length f) (drop (length i) s0))"
    using assms(1) unfolding scan_number_parts s0_def by blast
  have l: "length i \<le> length s0" "length f \<le> length (drop (length i) s0)"
    "length e \<le> length (drop (length f) (drop (length i) s0))"
    using scan_int_length[OF p(1)] scan_frac_length[OF p(2)] scan_exp_length[OF p(3)] by auto
  have "t \<noteq> []" using scan_int_length[OF p(1)] by (auto simp: s0_def)
  then have m: "num_minus (t @ r) = num_minus t" "length (num_minus t) \<le> length t"
    by (cases t; simp add: num_minus_def)+
  then have d: "drop (length (num_minus (t @ r))) (t @ r) = s0 @ r" by (simp add: s0_def)
  have d1: "drop (length i) (s0 @ r) = drop (length i) s0 @ r" using l(1) by simp
  have d2: "drop (length f) (drop (length i) s0 @ r) = drop (length f) (drop (length i) s0) @ r" using l(2) by simp
  have d3: "drop (length e) (drop (length f) (drop (length i) s0) @ r) = r" using l(3) p(5) by simp
  note q = scan_int_append[OF assms(2) p(1)] scan_frac_append[OF assms(2) p(2), folded d1]
    scan_exp_append[OF assms(2) p(3), folded d2, folded d1]
  have "t = num_minus (t @ r) @ i @ f @ e" using p(4) m(1) by simp
  moreover have "r = drop (length e) (drop (length f) (drop (length i) (s0 @ r)))"
    unfolding d1 d2 by (rule d3[symmetric])
  ultimately show ?thesis unfolding scan_number_parts d using q by blast
qed

subsection \<open>Printed values parse back\<close>

fun json_ok :: "json \<Rightarrow> bool" where
  "json_ok (JNum t) \<longleftrightarrow> scan_number t = Some (t, [])"
| "json_ok (JStr raw) \<longleftrightarrow> scan_string (raw @ dquote) = Some (raw, [])"
| "json_ok (JArr vs) \<longleftrightarrow> list_all json_ok vs"
| "json_ok (JObj ms) \<longleftrightarrow> list_all (\<lambda>(k, v). scan_string (k @ dquote) = Some (k, []) \<and> json_ok v) ms"
| "json_ok v \<longleftrightarrow> True"

fun json_depth :: "json \<Rightarrow> nat" where
  "json_depth (JArr vs) = Suc (foldr max (map json_depth vs) 0)"
| "json_depth (JObj ms) = Suc (foldr max (map (\<lambda>(k, v). json_depth v) ms) 0)"
| "json_depth v = 0"

fun json_steps :: "json \<Rightarrow> nat" where
  "json_steps (JArr vs) = Suc (\<Sum>v\<leftarrow>vs. Suc (json_steps v))"
| "json_steps (JObj ms) = Suc (\<Sum>m\<leftarrow>ms. case m of (k, v) \<Rightarrow> Suc (json_steps v))"
| "json_steps v = 1"

lemma skip_ws_simps [simp]: "skip_ws [] = []" "is_ws c \<Longrightarrow> skip_ws (c # s) = skip_ws s"
  "\<not> is_ws c \<Longrightarrow> skip_ws (c # s) = c # s"
  by (simp_all add: skip_ws_def)

lemma skip_indent [simp]: "skip_ws (indent d @ s) = skip_ws s"
proof -
  have "skip_ws (concat (replicate d ''  '') @ s) = skip_ws s" by (induction d) (simp_all add: is_ws_def)
  then show ?thesis by (simp add: indent_def newline_def is_ws_def)
qed

lemma parse_value_indent: "parse_value n d (indent k @ s) = parse_value n d s"
  by (cases n) (simp_all del: parse_value.simps add: parse_value.simps)

lemma parse_elems_indent: "parse_elems n d (indent k @ s) = parse_elems n d s"
  by (cases n) (simp_all add: parse_value_indent)

lemma parse_members_indent: "parse_members n d (indent k @ s) = parse_members n d s"
  by (cases n) simp_all

text \<open>The first byte of a value tells what it is.\<close>

lemma scan_number_head:
  assumes "scan_number t = Some (t, [])"
  shows "\<exists>c u. t = c # u \<and> (c = CHR ''-'' \<or> in_range 48 57 c)"
proof (cases t)
  case Nil
  then show ?thesis using assms by (simp add: scan_number_def scan_int_def)
next
  case (Cons c u)
  then show ?thesis
    using assms by (auto simp: scan_number_def scan_int_def Let_def in_range_def byte_def bind_eq_Some_conv split: if_splits)
qed

lemma number_byte:
  assumes "c = CHR ''-'' \<or> in_range 48 57 c"
  shows "\<not> is_ws c" "c \<noteq> CHR ''{''" "c \<noteq> CHR ''[''" "c \<noteq> CHR 0x22" "c \<noteq> CHR ''t''" "c \<noteq> CHR ''f''" "c \<noteq> CHR ''n''"
    "c \<noteq> CHR ''}''" "c \<noteq> CHR '']''"
  using assms by (auto simp: is_ws_def in_range_def byte_def)

lemma print_json_head:
  assumes "json_ok v"
  obtains c u where "print_json k v = c # u" "\<not> is_ws c" "c \<noteq> CHR '']''" "c \<noteq> CHR ''}''"
proof (cases v)
  case (JNum t)
  then show thesis using that assms scan_number_head[of t] number_byte by fastforce
next
  case (JBool b)
  then show thesis using that by (cases b) (auto simp: is_ws_def)
next
  case (JArr vs)
  then show thesis using that by (cases "vs = []") (auto simp: is_ws_def)
next
  case (JObj ms)
  then show thesis using that by (cases "ms = []") (auto simp: is_ws_def)
qed (use that in \<open>auto simp: is_ws_def quoted_def dquote_def\<close>)

definition reads_back :: "json \<Rightarrow> bool" where
  "reads_back v \<longleftrightarrow> (\<forall>k d n r. d + json_depth v \<le> maxNestingDepth \<longrightarrow> json_steps v \<le> n \<longrightarrow> num_end r \<longrightarrow>
     parse_value n d (print_json k v @ r) = Some (v, r))"

lemma reads_backD:
  "reads_back v \<Longrightarrow> d + json_depth v \<le> maxNestingDepth \<Longrightarrow> json_steps v \<le> n \<Longrightarrow> num_end r \<Longrightarrow>
     parse_value n d (print_json k v @ r) = Some (v, r)"
  by (simp add: reads_back_def)

lemma num_end_simps [simp]: "num_end (indent k @ s)" "num_end (CHR '','' # s)"
  by (simp_all add: num_end_def indent_def newline_def num_char_def in_range_def byte_def)

lemma is_ws_simps [simp]: "\<not> is_ws (CHR '','')" "\<not> is_ws (CHR '']'')" "\<not> is_ws (CHR ''}'')" "\<not> is_ws (CHR '':'')"
  "\<not> is_ws (CHR ''{'')" "\<not> is_ws (CHR ''['')" "\<not> is_ws (CHR 0x22)" "is_ws (CHR '' '')"
  by (simp_all add: is_ws_def)

lemma parse_elems_print:
  assumes "vs \<noteq> []" "list_all reads_back vs" "list_all (\<lambda>v. d + json_depth v \<le> maxNestingDepth) vs"
    "(\<Sum>v\<leftarrow>vs. Suc (json_steps v)) \<le> n"
  shows "parse_elems n d (join ('','' @ indent k) (map (print_json k) vs) @ indent j @ CHR '']'' # r) = Some (vs, r)"
  using assms
proof (induction vs arbitrary: n)
  case (Cons v vs)
  then obtain m where n: "n = Suc m" "json_steps v \<le> m" by (cases n) auto
  show ?case
  proof (cases vs)
    case Nil
    then show ?thesis
      using Cons.prems n reads_backD[of v d m "indent j @ CHR '']'' # r" k] by simp
  next
    case (Cons w ws)
    have "parse_elems m d (join ('','' @ indent k) (map (print_json k) vs) @ indent j @ CHR '']'' # r) = Some (vs, r)"
      using Cons Cons.prems n by (intro Cons.IH) auto
    then show ?thesis
      using Cons Cons.prems n reads_backD[of v d m _ k]
      by (simp add: parse_elems_indent)
  qed
qed simp

definition member_text :: "nat \<Rightarrow> gostring \<times> json \<Rightarrow> gostring" where
  "member_text k m = (case m of (q, v) \<Rightarrow> quoted q @ '': '' @ print_json k v)"

lemma parse_member:
  assumes "scan_string (q @ dquote) = Some (q, [])" "reads_back v" "d + json_depth v \<le> maxNestingDepth"
    "json_steps v \<le> n" "num_end s" "skip_ws s = c # t"
  shows "parse_members (Suc n) d (member_text k (q, v) @ s) =
    (if c = CHR '','' then map_option (\<lambda>(ms, u). ((q, v) # ms, u)) (parse_members n d t)
     else if c = CHR ''}'' then Some ([(q, v)], t) else None)"
proof -
  have "scan_string (q @ CHR 0x22 # CHR '':'' # CHR '' '' # print_json k v @ s) =
      Some (q, CHR '':'' # CHR '' '' # print_json k v @ s)"
    using scan_string_append[OF assms(1), of "CHR '':'' # CHR '' '' # print_json k v @ s"] by (simp add: dquote_def)
  moreover have "parse_value n d (CHR '' '' # print_json k v @ s) = Some (v, s)"
    using reads_backD[OF assms(2-5), of k] by (cases n) (simp_all del: parse_value.simps add: parse_value.simps)
  ultimately show ?thesis
    using assms(6) by (simp add: member_text_def quoted_def dquote_def)
qed

lemma parse_members_print:
  assumes "ms \<noteq> []" "list_all (\<lambda>(q, v). scan_string (q @ dquote) = Some (q, []) \<and> reads_back v) ms"
    "list_all (\<lambda>(q, v). d + json_depth v \<le> maxNestingDepth) ms" "(\<Sum>m\<leftarrow>ms. case m of (q, v) \<Rightarrow> Suc (json_steps v)) \<le> n"
  shows "parse_members n d (join ('','' @ indent k) (map (member_text k) ms) @ indent j @ CHR ''}'' # r) = Some (ms, r)"
  using assms
proof (induction ms arbitrary: n)
  case (Cons m ms)
  obtain q v where m: "m = (q, v)" by (cases m)
  obtain i where n: "n = Suc i" "json_steps v \<le> i" using Cons.prems(4) m by (cases n) auto
  have p: "scan_string (q @ dquote) = Some (q, [])" "reads_back v" "d + json_depth v \<le> maxNestingDepth"
    using Cons.prems m by auto
  show ?case
  proof (cases ms)
    case Nil
    then show ?thesis
      using parse_member[OF p n(2), of "indent j @ CHR ''}'' # r" "CHR ''}''" r k] by (simp add: n m)
  next
    case (Cons w ws)
    have "parse_members i d (join ('','' @ indent k) (map (member_text k) ms) @ indent j @ CHR ''}'' # r) = Some (ms, r)"
      using Cons Cons.prems n m by (intro Cons.IH) auto
    then show ?thesis
      using Cons parse_member[OF p n(2), of "CHR '','' # indent k @
          join ('','' @ indent k) (map (member_text k) ms) @ indent j @ CHR ''}'' # r" "CHR '',''" _ k]
      by (simp add: n m parse_members_indent)
  qed
qed simp

lemma foldr_max_bound: "foldr max xs (0 :: nat) \<le> b \<longleftrightarrow> list_all (\<lambda>x. x \<le> b) xs"
  by (induction xs) auto

lemma quoted_head: "quoted q = CHR 0x22 # q @ [CHR 0x22]"
  by (simp add: quoted_def dquote_def)

lemma json_ok_reads_back: "json_ok v \<Longrightarrow> reads_back v"
proof (induction v)
  case (JNum t)
  then obtain c u where t: "t = c # u" "c = CHR ''-'' \<or> in_range 48 57 c" using scan_number_head[of t] by auto
  show ?case unfolding reads_back_def
  proof (intro allI impI)
    fix k d n r
    assume n: "json_steps (JNum t) \<le> n" "num_end r"
    have s: "scan_number (c # u @ r) = Some (t, r)" using scan_number_append[of t r] JNum n t by simp
    show "parse_value n d (print_json k (JNum t) @ r) = Some (JNum t, r)"
      using n number_byte[OF t(2)] s by (cases n) (auto simp: t)
  qed
next
  case (JStr raw)
  show ?case unfolding reads_back_def
  proof (intro allI impI)
    fix k d n r
    assume n: "json_steps (JStr raw) \<le> n"
    have "scan_string (raw @ dquote) = Some (raw, [])" using JStr by simp
    from scan_string_append[OF this, of r] show "parse_value n d (print_json k (JStr raw) @ r) = Some (JStr raw, r)"
      using n by (cases n) (auto simp: quoted_def dquote_def)
  qed
next
  case (JArr vs)
  then have vs: "list_all reads_back vs" by (auto simp: list_all_iff)
  show ?case unfolding reads_back_def
  proof (intro allI impI)
    fix k d n r
    assume d: "d + json_depth (JArr vs) \<le> maxNestingDepth" and n: "json_steps (JArr vs) \<le> n" and r: "num_end r"
    obtain m where m: "n = Suc m" "(\<Sum>v\<leftarrow>vs. Suc (json_steps v)) \<le> m" using n by (cases n) auto
    have dd: "\<not> maxNestingDepth \<le> d" "list_all (\<lambda>v. Suc d + json_depth v \<le> maxNestingDepth) vs"
    proof -
      have "foldr max (map json_depth vs) 0 \<le> maxNestingDepth - Suc d" using d by simp
      then have "list_all (\<lambda>v. json_depth v \<le> maxNestingDepth - Suc d) vs" by (simp add: foldr_max_bound list_all_iff)
      then show "list_all (\<lambda>v. Suc d + json_depth v \<le> maxNestingDepth) vs" using d by (auto simp: list_all_iff)
      show "\<not> maxNestingDepth \<le> d" using d by simp
    qed
    show "parse_value n d (print_json k (JArr vs) @ r) = Some (JArr vs, r)"
    proof (cases vs)
      case Nil
      then show ?thesis using dd by (simp add: m)
    next
      case (Cons v ws)
      obtain c u where c: "print_json (Suc k) v = c # u" "\<not> is_ws c" "c \<noteq> CHR '']''" "c \<noteq> CHR ''}''"
        using print_json_head[of v "Suc k"] JArr.prems Cons by auto
      have "parse_elems m (Suc d) (join ('','' @ indent (Suc k)) (map (print_json (Suc k)) vs) @ indent k @ CHR '']'' # r) = Some (vs, r)"
        using parse_elems_print[OF _ vs dd(2) m(2)] Cons by simp
      moreover obtain w where "join ('','' @ indent (Suc k)) (map (print_json (Suc k)) vs) = c # w"
        using Cons c by (cases ws) auto
      ultimately show ?thesis
        using dd(1) Cons c by (simp add: m parse_elems_indent)
    qed
  qed
next
  case (JObj ms)
  then have ms: "list_all (\<lambda>(q, v). scan_string (q @ dquote) = Some (q, []) \<and> reads_back v) ms"
    by (auto simp: list_all_iff)
  show ?case unfolding reads_back_def
  proof (intro allI impI)
    fix k d n r
    assume d: "d + json_depth (JObj ms) \<le> maxNestingDepth" and n: "json_steps (JObj ms) \<le> n" and r: "num_end r"
    obtain m where m: "n = Suc m" "(\<Sum>m\<leftarrow>ms. case m of (q, v) \<Rightarrow> Suc (json_steps v)) \<le> m" using n by (cases n) auto
    have dd: "\<not> maxNestingDepth \<le> d" "list_all (\<lambda>(q, v). Suc d + json_depth v \<le> maxNestingDepth) ms"
    proof -
      have "foldr max (map (\<lambda>(q, v). json_depth v) ms) 0 \<le> maxNestingDepth - Suc d" using d by simp
      then have "list_all (\<lambda>(q, v). json_depth v \<le> maxNestingDepth - Suc d) ms" by (auto simp: foldr_max_bound list_all_iff)
      then show "list_all (\<lambda>(q, v). Suc d + json_depth v \<le> maxNestingDepth) ms" using d by (auto simp: list_all_iff)
      show "\<not> maxNestingDepth \<le> d" using d by simp
    qed
    show "parse_value n d (print_json k (JObj ms) @ r) = Some (JObj ms, r)"
    proof (cases ms)
      case Nil
      then show ?thesis using dd by (simp add: m)
    next
      case (Cons qv ws)
      have p: "parse_members m (Suc d) (join ('','' @ indent (Suc k)) (map (member_text (Suc k)) ms) @ indent k @ CHR ''}'' # r) = Some (ms, r)"
        using parse_members_print[OF _ ms dd(2) m(2)] Cons by simp
      have t: "(\<lambda>(q, v). quoted q @ '': '' @ print_json (Suc k) v) = member_text (Suc k)"
        by (auto simp: member_text_def fun_eq_iff)
      obtain w where w: "join ('','' @ indent (Suc k)) (map (member_text (Suc k)) ms) = CHR 0x22 # w"
        using Cons by (cases qv; cases ws) (auto simp: member_text_def quoted_head)
      show ?thesis
        using dd(1) Cons p w unfolding print_json.simps t by (simp add: m parse_members_indent)
    qed
  qed
next
  case JNull
  have "parse_value n d (''null'' @ r) = Some (JNull, r)" if "1 \<le> n" for n d r
    using that by (cases n) (auto simp: is_ws_def)
  then show ?case by (simp add: reads_back_def)
next
  case (JBool b)
  have "parse_value n d (''true'' @ r) = Some (JBool True, r)" "parse_value n d (''false'' @ r) = Some (JBool False, r)"
    if "1 \<le> n" for n d r
    using that by (cases n; auto simp: is_ws_def)+
  then show ?case by (cases b) (simp_all add: reads_back_def)
qed

lemma join_length: "sum_list (map length xs) \<le> length (join sep xs)"
  by (induction sep xs rule: join.induct) auto

lemma json_ok_nonempty: "json_ok v \<Longrightarrow> 0 < length (print_json k v)"
  by (rule print_json_head[of v k]) auto

lemma json_steps_length: "json_ok v \<Longrightarrow> Suc (json_steps v) \<le> 2 * length (print_json k v)"
proof (induction v arbitrary: k)
  case (JArr vs)
  have "(\<Sum>v\<leftarrow>vs. Suc (json_steps v)) \<le> (\<Sum>v\<leftarrow>vs. 2 * length (print_json (Suc k) v))"
    using JArr by (intro sum_list_mono) (auto simp: list_all_iff)
  also have "\<dots> = 2 * sum_list (map length (map (print_json (Suc k)) vs))" by (simp add: sum_list_const_mult o_def)
  also have "\<dots> \<le> 2 * length (join ('','' @ indent (Suc k)) (map (print_json (Suc k)) vs))"
    using join_length by (intro mult_le_mono2)
  finally show ?case by (cases "vs = []") auto
next
  case (JObj ms)
  have "(\<Sum>m\<leftarrow>ms. case m of (q, v) \<Rightarrow> Suc (json_steps v)) \<le>
      (\<Sum>m\<leftarrow>ms. 2 * length (case m of (q, v) \<Rightarrow> quoted q @ '': '' @ print_json (Suc k) v))"
  proof (intro sum_list_mono)
    fix m
    assume m: "m \<in> set ms"
    obtain q v where qv: "m = (q, v)" by (cases m)
    then have "json_ok v" using JObj.prems m by (auto simp: list_all_iff)
    then have "Suc (json_steps v) \<le> 2 * length (print_json (Suc k) v)" using JObj.IH[OF m] qv by simp
    then show "(case m of (q, v) \<Rightarrow> Suc (json_steps v)) \<le>
        2 * length (case m of (q, v) \<Rightarrow> quoted q @ '': '' @ print_json (Suc k) v)"
      by (simp add: qv)
  qed
  also have "\<dots> = 2 * sum_list (map length (map (\<lambda>(q, v). quoted q @ '': '' @ print_json (Suc k) v) ms))"
    by (simp add: sum_list_const_mult o_def)
  also have "\<dots> \<le> 2 * length (join ('','' @ indent (Suc k)) (map (\<lambda>(q, v). quoted q @ '': '' @ print_json (Suc k) v) ms))"
    using join_length by (intro mult_le_mono2)
  finally show ?case by (cases "ms = []") auto
next
  case (JNum t)
  then have "0 < length t" using json_ok_nonempty[of "JNum t"] by simp
  then show ?case by (simp only: print_json.simps json_steps.simps)
qed (simp_all add: quoted_def dquote_def)

theorem parse_print:
  assumes "json_ok v" "json_depth v \<le> maxNestingDepth" "skip_ws r = []" "num_end r"
  shows "parse_json (print_json 0 v @ r) = Some v"
proof -
  have "json_steps v \<le> json_fuel (print_json 0 v @ r)"
    using json_steps_length[OF assms(1), of 0] by (simp add: json_fuel_def)
  then have "parse_value (json_fuel (print_json 0 v @ r)) 0 (print_json 0 v @ r) = Some (v, r)"
    using reads_backD[OF json_ok_reads_back[OF assms(1)], of 0] assms(2,4) by simp
  then show ?thesis by (simp add: parse_json_def assms(3))
qed

subsection \<open>The fuel is enough\<close>

lemma skip_ws_length: "length (skip_ws s) \<le> length s"
  by (simp add: skip_ws_def length_dropWhile_le)

lemma scan_string_length: "scan_string s = Some (raw, t) \<Longrightarrow> length t < length s"
proof (induction s arbitrary: raw t rule: scan_string.induct)
  case (2 c cs)
  then show ?case by (fastforce split: if_splits list.splits)
qed simp

lemma scan_number_length: "scan_number s = Some (t, r) \<Longrightarrow> length r < length s"
  unfolding scan_number_parts
proof (elim exE conjE)
  fix i f e
  assume i: "scan_int (drop (length (num_minus s)) s) = Some i"
    and r: "r = drop (length e) (drop (length f) (drop (length i) (drop (length (num_minus s)) s)))"
  have "0 < length i" "length i \<le> length (drop (length (num_minus s)) s)" "drop (length (num_minus s)) s \<noteq> []"
    using scan_int_length[OF i] by auto
  moreover have "length r \<le> length s - length i" by (simp add: r)
  ultimately show "length r < length s" by (cases i; cases s) auto
qed

lemma skip_ws_Cons: "skip_ws s = c # r \<Longrightarrow> length r < length s"
  using skip_ws_length[of s] by simp

lemma parse_shorter:
  "parse_value n d s = Some (v, r) \<Longrightarrow> length r < length s"
  "parse_elems n d s = Some (vs, r) \<Longrightarrow> length r < length s"
  "parse_members n d s = Some (ms, r) \<Longrightarrow> length r < length s"
proof (induction n arbitrary: d s v vs ms r)
  case (Suc n)
  {
    case 1
    obtain c u where c: "skip_ws s = c # u" using 1 by (cases "skip_ws s") auto
    have u: "length u < length s" using skip_ws_Cons[OF c] .
    have w: "length (skip_ws u) \<le> length u" by (rule skip_ws_length)
    show ?case
      using 1 c u w Suc.IH(2)[of "Suc d" u] Suc.IH(3)[of "Suc d" u] scan_string_length[of u] scan_number_length[of "c # u"]
      by (fastforce split: if_splits)
  next
    case 2
    obtain v u where v: "parse_value n d s = Some (v, u)" using 2 by (auto split: option.splits)
    have u: "length u < length s" using Suc.IH(1)[OF v] .
    obtain c t where c: "skip_ws u = c # t" using 2 v by (cases "skip_ws u") auto
    show ?case
      using 2 v c u skip_ws_Cons[OF c] Suc.IH(2)[of d t] by (fastforce split: if_splits)
  next
    case 3
    obtain q u where q: "skip_ws s = q # u" "q = CHR 0x22" using 3 by (cases "skip_ws s") (auto split: if_splits)
    obtain k r1 where k: "scan_string u = Some (k, r1)" using 3 q by (cases "scan_string u") auto
    obtain r2 where r2: "skip_ws r1 = CHR '':'' # r2" using 3 q k by (cases "skip_ws r1") (auto split: if_splits)
    obtain v r3 where v: "parse_value n d r2 = Some (v, r3)" using 3 q k r2 by (cases "parse_value n d r2") auto
    obtain e t where e: "skip_ws r3 = e # t" using 3 q k r2 v by (cases "skip_ws r3") auto
    have "length t < length s"
      using skip_ws_Cons[OF q(1)] scan_string_length[OF k] skip_ws_Cons[OF r2] Suc.IH(1)[OF v] skip_ws_Cons[OF e] by linarith
    then show ?case
      using 3 q k r2 v e Suc.IH(3)[of d t] by (fastforce split: if_splits)
  }
qed simp_all

lemma parse_fuel:
  "2 * length s < n \<Longrightarrow> parse_value (Suc n) d s = parse_value n d s"
  "2 * length s + 1 < n \<Longrightarrow> parse_elems (Suc n) d s = parse_elems n d s"
  "2 * length s + 1 < n \<Longrightarrow> parse_members (Suc n) d s = parse_members n d s"
proof (induction n arbitrary: d s)
  case (Suc n)
  {
    case 1
    have "parse_elems (Suc n) (Suc d) u = parse_elems n (Suc d) u"
      "parse_members (Suc n) (Suc d) u = parse_members n (Suc d) u" if "skip_ws s = c # u" for c u
      using skip_ws_Cons[OF that] 1 Suc.IH(2,3)[of u "Suc d"] by auto
    then show ?case
      unfolding parse_value.simps(2)[of "Suc n" d s] parse_value.simps(2)[of n d s] by (cases "skip_ws s") auto
  next
    case 2
    have v: "parse_value (Suc n) d s = parse_value n d s" using 2 Suc.IH(1)[of s d] by simp
    have "parse_elems (Suc n) d t = parse_elems n d t"
      if "parse_value n d s = Some (v, u)" "skip_ws u = c # t" for v u c t
      using skip_ws_Cons[OF that(2)] parse_shorter(1)[OF that(1)] 2 Suc.IH(2)[of t d] by auto
    then show ?case
      unfolding parse_elems.simps(2)[of "Suc n" d s] parse_elems.simps(2)[of n d s] v
      by (auto split: option.splits list.splits)
  next
    case 3
    have v: "parse_value (Suc n) d r2 = parse_value n d r2"
      if "skip_ws s = q # u" "scan_string u = Some (k, r1)" "skip_ws r1 = c # r2" for q u k r1 c r2
      using skip_ws_Cons[OF that(1)] scan_string_length[OF that(2)] skip_ws_Cons[OF that(3)] 3 Suc.IH(1)[of r2 d] by auto
    have m: "parse_members (Suc n) d t = parse_members n d t"
      if "skip_ws s = q # u" "scan_string u = Some (k, r1)" "skip_ws r1 = c # r2"
        "parse_value n d r2 = Some (v, r3)" "skip_ws r3 = e # t" for q u k r1 c r2 v r3 e t
      using skip_ws_Cons[OF that(1)] scan_string_length[OF that(2)] skip_ws_Cons[OF that(3)]
        parse_shorter(1)[OF that(4)] skip_ws_Cons[OF that(5)] 3 Suc.IH(3)[of t d] by auto
    show ?case
      unfolding parse_members.simps(2)[of "Suc n" d s] parse_members.simps(2)[of n d s]
      using v m by (auto split: option.splits list.splits)
  }
qed simp_all

text \<open>More fuel than \<open>json_fuel\<close> changes nothing, so a text is refused only for what it says.\<close>

theorem parse_json_any_fuel: "json_fuel s \<le> n \<Longrightarrow> parse_value n 0 s = parse_value (json_fuel s) 0 s"
proof (induction n)
  case (Suc n)
  show ?case
  proof (cases "json_fuel s = Suc n")
    case False
    then have "json_fuel s \<le> n" using Suc.prems by simp
    moreover have "2 * length s < n" using calculation by (simp add: json_fuel_def)
    ultimately show ?thesis using Suc.IH parse_fuel(1)[of s n 0] by simp
  qed simp
qed (simp add: json_fuel_def)

subsection \<open>The numbers the program writes are literals\<close>

definition int_part :: "gostring \<Rightarrow> bool" where
  "int_part i \<longleftrightarrow> i = ''0'' \<or> digits i \<and> i \<noteq> [] \<and> hd i \<noteq> CHR ''0''"

definition frac_part :: "gostring \<Rightarrow> bool" where
  "frac_part f \<longleftrightarrow> (case f of [] \<Rightarrow> True | c # fs \<Rightarrow> c = CHR ''.'' \<and> digits fs \<and> fs \<noteq> [])"

definition exp_part :: "gostring \<Rightarrow> bool" where
  "exp_part e \<longleftrightarrow> (case e of c # g # es \<Rightarrow> c = CHR ''e'' \<and> (g = CHR ''+'' \<or> g = CHR ''-'') \<and> digits es \<and> es \<noteq> []
     | [] \<Rightarrow> True | _ \<Rightarrow> False)"

lemma digit_run_digits: "digits s \<Longrightarrow> ends_digits r \<Longrightarrow> digit_run (s @ r) = s"
  unfolding digit_run_def by (rule takeWhile_digits)

lemma exp_part_ends: "exp_part e \<Longrightarrow> ends_digits e"
  by (cases e) (auto simp: exp_part_def ends_digits_def in_range_def byte_def split: list.splits)

lemma frac_part_ends: "frac_part f \<Longrightarrow> exp_part e \<Longrightarrow> ends_digits (f @ e)"
  using exp_part_ends by (cases f) (auto simp: frac_part_def ends_digits_def in_range_def byte_def)

lemma scan_int_part:
  assumes "int_part i" "ends_digits r"
  shows "scan_int (i @ r) = Some i"
proof (cases "i = ''0''")
  case False
  then have i: "digits i" "i \<noteq> []" "hd i \<noteq> CHR ''0''" using assms(1) by (auto simp: int_part_def)
  then obtain c u where c: "i = c # u" by (cases i) auto
  have "c = CHR ''0'' \<longleftrightarrow> byte c = 48"
  proof
    assume "byte c = 48"
    then have "of_char c = (of_char (CHR ''0'') :: int)" by (simp add: byte_def)
    then show "c = CHR ''0''" by (simp only: of_char_eq_iff)
  qed (simp add: byte_def)
  then have "in_range 49 57 c" using i c by (auto simp: in_range_def)
  then show ?thesis using digit_run_digits[OF i(1) assms(2)] i c by (simp add: scan_int_def)
qed (simp add: scan_int_def)

lemma scan_frac_part: "frac_part f \<Longrightarrow> exp_part e \<Longrightarrow> scan_frac (f @ e) = Some f"
  using digit_run_digits[OF _ exp_part_ends, of "tl f" e]
  by (cases f; cases e) (auto simp: scan_frac_def frac_part_def exp_part_def split: list.splits)

lemma scan_exp_part: "exp_part e \<Longrightarrow> scan_exp e = Some e"
proof (cases e)
  case (Cons c r)
  assume e: "exp_part e"
  then obtain g es where r: "r = g # es" "c = CHR ''e''" "g = CHR ''+'' \<or> g = CHR ''-''" "digits es" "es \<noteq> []"
    using Cons by (cases r) (auto simp: exp_part_def)
  have "digit_run es = es" using digit_run_digits[OF r(4), of "[]"] by (simp add: ends_digits_def)
  then show ?thesis using Cons r by (auto simp: scan_exp_def exp_sign_def Let_def)
qed (simp add: scan_exp_def)

lemma scan_number_build:
  assumes "int_part i" "frac_part f" "exp_part e" "m = [] \<or> m = ''-''"
  shows "scan_number (m @ i @ f @ e) = Some (m @ i @ f @ e, [])"
proof -
  obtain c u where c: "i = c # u" using assms(1) by (cases i) (auto simp: int_part_def)
  then have "c \<noteq> CHR ''-''" using assms(1) by (auto simp: int_part_def in_range_def byte_def)
  with c have m: "num_minus (m @ i @ f @ e) = m" using assms(4) by (auto simp: num_minus_def)
  show ?thesis
    unfolding scan_number_parts m
    using scan_int_part[OF assms(1) frac_part_ends[OF assms(2,3)]] scan_frac_part[OF assms(2,3)] scan_exp_part[OF assms(3)]
    by (intro exI[of _ i] exI[of _ f] exI[of _ e]) simp
qed

lemma dec_digits_head: "0 < n \<Longrightarrow> hd (dec_digits n) \<noteq> CHR ''0''"
proof (induction n rule: dec_digits.induct)
  case (1 n)
  show ?case
  proof (cases "n < 10")
    case True
    then have "byte (digit_char n) = 48 + n" using 1 by (intro byte_digit_char) auto
    then have "digit_char n \<noteq> CHR ''0''" using 1 by (auto simp: byte_def)
    then show ?thesis using True by (simp add: dec_digits.simps)
  next
    case False
    then show ?thesis using 1 by (subst dec_digits.simps) simp
  qed
qed

lemma int_part_dec_digits: "0 \<le> n \<Longrightarrow> int_part (dec_digits n)"
proof (cases "n = 0")
  case True
  have "dec_digits 0 = ''0''" by code_simp
  then show ?thesis using True by (simp add: int_part_def)
qed (simp add: int_part_def dec_digits_head)

lemma scan_dec_int: "scan_number (dec_int n) = Some (dec_int n, [])"
  using scan_number_build[of "dec_digits \<bar>n\<bar>" "[]" "[]" "if n < 0 then ''-'' else []"] int_part_dec_digits[of "\<bar>n\<bar>"]
  by (auto simp: dec_int_def frac_part_def exp_part_def split: if_splits)

lemma layout_parts:
  assumes "digits ds" "ds \<noteq> []" "hd ds \<noteq> CHR ''0''"
  shows "\<exists>i f e. layout_f ds dp = i @ f @ e \<and> int_part i \<and> frac_part f \<and> exp_part e"
    "\<exists>i f e. layout_e ds dp = i @ f @ e \<and> int_part i \<and> frac_part f \<and> exp_part e"
proof -
  have e0: "exp_part []" "frac_part []" by (simp_all add: exp_part_def frac_part_def)
  obtain c u where c: "ds = c # u" using assms(2) by (cases ds) auto
  consider (small) "dp \<le> 0" | (big) "0 < dp" "int (length ds) \<le> dp" | (mid) "0 < dp" "dp < int (length ds)" by linarith
  then show "\<exists>i f e. layout_f ds dp = i @ f @ e \<and> int_part i \<and> frac_part f \<and> exp_part e"
  proof cases
    case small
    then show ?thesis using assms num_of_zeros(2)[of "- dp"] e0
      by (intro exI[of _ "''0''"] exI[of _ "CHR ''.'' # zeros (- dp) @ ds"] exI[of _ "[]"])
        (simp add: layout_f_def int_part_def frac_part_def)
  next
    case big
    then show ?thesis using assms num_of_zeros(2)[of "dp - int (length ds)"] e0
      by (intro exI[of _ "ds @ zeros (dp - int (length ds))"] exI[of _ "[]"] exI[of _ "[]"])
        (simp add: layout_f_def int_part_def)
  next
    case mid
    have "digits (take (nat dp) ds @ drop (nat dp) ds)" using assms(1) by simp
    then have "digits (take (nat dp) ds)" "digits (drop (nat dp) ds)" by (simp_all only: digits_simps)
    moreover have "hd (take (nat dp) ds) \<noteq> CHR ''0''" "take (nat dp) ds \<noteq> []" using assms mid by (simp_all add: hd_take)
    ultimately show ?thesis using mid e0
      by (intro exI[of _ "take (nat dp) ds"] exI[of _ "CHR ''.'' # drop (nat dp) ds"] exI[of _ "[]"])
        (simp add: layout_f_def int_part_def frac_part_def)
  qed
  have "digits (dec_digits \<bar>dp - 1\<bar>)" by simp
  then show "\<exists>i f e. layout_e ds dp = i @ f @ e \<and> int_part i \<and> frac_part f \<and> exp_part e"
    using assms
    by (intro exI[of _ "[c]"] exI[of _ "if 1 < length ds then CHR ''.'' # u else []"]
        exI[of _ "CHR ''e'' # (if dp - 1 < 0 then CHR ''-'' else CHR ''+'') # dec_digits \<bar>dp - 1\<bar>"])
      (simp add: layout_e_def int_part_def frac_part_def exp_part_def c)
qed

lemma strip_zeros_head: "digits s \<Longrightarrow> 0 < num_of 0 s \<Longrightarrow> hd (strip_zeros s) = hd s"
proof -
  assume s: "digits s" "0 < num_of 0 s"
  obtain j where j: "s = strip_zeros s @ replicate j (CHR ''0'')" using strip_zeros_split by blast
  have "strip_zeros s \<noteq> []" using strip_zeros_digits(2)[OF s] .
  then have "hd (strip_zeros s @ replicate j (CHR ''0'')) = hd (strip_zeros s)" by simp
  then show "hd (strip_zeros s) = hd s" using j by simp
qed

lemma scan_json_float:
  assumes "f64_ok x" "json_float x = Some t"
  shows "scan_number t = Some (t, [])"
proof (cases "val x = 0")
  case True
  then have "x = NZero \<or> x = Fin 0" using assms(1) by (cases x) (auto simp: f64_ok_def)
  moreover have "scan_number ''-0'' = Some (''-0'', [])" "scan_number ''0'' = Some (''0'', [])" by code_simp+
  ultimately show ?thesis using assms(2) by (auto simp: json_float_def)
next
  case False
  then obtain q where x: "x = Fin q" "q \<noteq> 0" using assms(1) by (cases x) (auto simp: f64_ok_def)
  let ?p = "shortest \<bar>q\<bar>"
  have "representable \<bar>q\<bar>" using assms(1) x representable_abs by (simp add: f64_ok_def)
  then obtain n where n: "1 \<le> n" "?p \<in> set (neighbours \<bar>q\<bar> n)" using shortest_correct[of "\<bar>q\<bar>"] x(2) by auto
  have pos: "0 < fst ?p"
    using neighbours_digits(1)[OF _ n] x(2) by (meson less_le_trans zero_less_abs_iff zero_less_numeral zero_less_power)
  let ?all = "dec_digits (fst ?p)"
  have all: "digits ?all" "num_of 0 ?all = fst ?p" using pos by simp_all
  note z = strip_zeros_digits(1,2)[OF all(1), unfolded all(2), OF pos]
  have h: "hd (strip_zeros ?all) \<noteq> CHR ''0''"
    using strip_zeros_head[OF all(1)] all(2) pos dec_digits_head[OF pos] by simp
  have "\<exists>i f e. float_text \<bar>q\<bar> = i @ f @ e \<and> int_part i \<and> frac_part f \<and> exp_part e"
    using layout_parts[OF z h] by (simp add: float_text_def Let_def)
  then obtain i f e where p: "float_text \<bar>q\<bar> = i @ f @ e" "int_part i" "frac_part f" "exp_part e" by blast
  have "t = (if q < 0 then ''-'' else []) @ i @ f @ e" using assms(2) x p(1) by (simp add: json_float_def)
  then show ?thesis using scan_number_build[OF p(2-4), of "if q < 0 then ''-'' else []"] by simp
qed

end
