(* ===== verification/SnapshotJson.thy ===== *)
theory SnapshotJson
  imports RuleTypes JsonFacts
begin

text \<open>
  The JSON form of the data model (the \<open>json\<close> tags of \<open>internal/rules/types.go\<close>): what
  \<open>MarshalIndent\<close> and the encoder of the reports write for snapshots and findings, and what
  \<open>Unmarshal\<close> makes of a snapshot text. Decoding follows \<open>encoding/json\<close>: keys are compared
  without regard to case, unknown keys are ignored, a later value of a key is decoded over
  the earlier one, a value of the wrong type is reported but decoding goes on, an unreadable
  time ends it. The wording of a syntax error and of an unreadable time are parameters.
  Not modelled: elements left over in the capacity of a slice that one object names three
  times with lengths that shrink and grow again.
\<close>

subsection \<open>Encoding\<close>

type_synonym encoded = "gostring + json"

definition enc_str :: "gostring \<Rightarrow> encoded" where
  "enc_str s = Inr (JStr (json_quote s))"

definition enc_int :: "i64 \<Rightarrow> encoded" where
  "enc_int w = Inr (JNum (fmt_d w))"

definition enc_bool :: "bool \<Rightarrow> encoded" where
  "enc_bool b = Inr (JBool b)"

text \<open>NaN and the infinities cannot be written.\<close>

definition enc_float :: "f64 \<Rightarrow> encoded" where
  "enc_float x =
     (case json_float x of
        None \<Rightarrow> Inl (''json: unsupported value: '' @ fmt_f 0 x)
      | Some t \<Rightarrow> Inr (JNum t))"

definition enc_time :: "gotime \<Rightarrow> encoded" where
  "enc_time t =
     (case MarshalTime t of
        Inl e \<Rightarrow> Inl (''json: error calling MarshalJSON for type time.Time: '' @ e)
      | Inr s \<Rightarrow> Inr (JStr s))"

text \<open>Members and elements in order; the first error wins.\<close>

fun enc_members :: "(gostring \<times> encoded) list \<Rightarrow> gostring + (gostring \<times> json) list" where
  "enc_members [] = Inr []"
| "enc_members ((k, r) # ms) =
     (case r of Inl e \<Rightarrow> Inl e
      | Inr v \<Rightarrow> (case enc_members ms of Inl e \<Rightarrow> Inl e | Inr vs \<Rightarrow> Inr ((k, v) # vs)))"

definition enc_obj :: "(gostring \<times> encoded) list \<Rightarrow> encoded" where
  "enc_obj ms = (case enc_members ms of Inl e \<Rightarrow> Inl e | Inr vs \<Rightarrow> Inr (JObj vs))"

fun enc_elems :: "encoded list \<Rightarrow> gostring + json list" where
  "enc_elems [] = Inr []"
| "enc_elems (r # rs) =
     (case r of Inl e \<Rightarrow> Inl e
      | Inr v \<Rightarrow> (case enc_elems rs of Inl e \<Rightarrow> Inl e | Inr vs \<Rightarrow> Inr (v # vs)))"

definition enc_arr :: "encoded list \<Rightarrow> encoded" where
  "enc_arr rs = (case enc_elems rs of Inl e \<Rightarrow> Inl e | Inr vs \<Rightarrow> Inr (JArr vs))"

text \<open>A slice that is nil when nothing was ever appended to it.\<close>

definition enc_slice :: "encoded list \<Rightarrow> encoded" where
  "enc_slice rs = (if rs = [] then Inr JNull else enc_arr rs)"

text \<open>A map, in the order of its keys.\<close>

definition enc_map :: "(gostring \<times> encoded) list \<Rightarrow> encoded" where
  "enc_map ms = enc_obj (map (\<lambda>(k, r). (json_quote k, r)) (sort_key fst ms))"

definition encode_cluster :: "clusterInfo \<Rightarrow> encoded" where
  "encode_cluster c = enc_obj [(''name'', enc_str (ClusterName c)), (''provider'', enc_str (ClusterProvider c))]"

definition encode_topic :: "topic \<Rightarrow> encoded" where
  "encode_topic t =
     enc_obj
       ([(''name'', enc_str (Name t)),
         (''partitions'', enc_int (Partitions t)),
         (''replication_factor'', enc_int (ReplicationFactor t)),
         (''retention_ms'', enc_int (RetentionMs t)),
         (''compression_type'', enc_str (CompressionType t)),
         (''cleanup_policy'', enc_str (CleanupPolicy t)),
         (''retained_bytes'', enc_int (RetainedBytes t)),
         (''bytes_in_per_sec'', enc_float (BytesInPerSec t)),
         (''bytes_out_per_sec'', enc_float (BytesOutPerSec t)),
         (''throughput_source'', enc_str (ThroughputSource t))] @
        (if PartitionBytes t = [] then []
         else [(''partition_bytes'', enc_arr (map enc_int (PartitionBytes t)))]) @
        [(''earliest_offset'', enc_int (EarliestOffset t)),
         (''latest_offset'', enc_int (LatestOffset t)),
         (''max_consumer_lag_ms'', enc_int (MaxConsumerLagMs t)),
         (''active_consumers'', enc_int (ActiveConsumers t))])"

definition encode_group :: "consumerGrp \<Rightarrow> encoded" where
  "encode_group g =
     enc_obj [(''group_id'', enc_str (GroupID g)), (''state'', enc_str (State g)),
              (''last_commit_age_days'', enc_int (LastCommitAgeDays g))]"

definition encode_broker :: "broker \<Rightarrow> encoded" where
  "encode_broker b = enc_obj [(''id'', enc_int (BrokerID b)), (''log_dir_bytes'', enc_int (LogDirBytes b))]"

text \<open>A snapshot as \<open>Build\<close> leaves it: its topics are appended to a nil slice, its groups and
  brokers are made.\<close>

definition encode_snapshot :: "snapshot \<Rightarrow> encoded" where
  "encode_snapshot s =
     enc_obj
       [(''taken_at'', enc_time (TakenAt s)),
        (''cluster'', encode_cluster (Cluster s)),
        (''topics'', enc_slice (map encode_topic (Topics s))),
        (''groups'', enc_arr (map encode_group (Groups s))),
        (''brokers'', enc_arr (map encode_broker (Brokers s)))]"

definition omitempty :: "gostring \<Rightarrow> gostring \<Rightarrow> (gostring \<times> encoded) list" where
  "omitempty k s = (if s = '''' then [] else [(k, enc_str s)])"

definition encode_remediation :: "remediation \<Rightarrow> encoded" where
  "encode_remediation r =
     enc_obj
       ([(''summary'', enc_str (Summary r))] @
        omitempty ''kafka_configs_cmd'' (KafkaConfigsCmd r) @
        omitempty ''terraform_diff'' (TerraformDiff r) @
        omitempty ''strimzi_yaml'' (StrimziYAML r) @
        [(''one_click'', enc_bool (OneClick r))])"

definition encode_evidence :: "evidence \<Rightarrow> encoded" where
  "encode_evidence e =
     (case e of EvFloat x \<Rightarrow> enc_float x | EvInt w \<Rightarrow> enc_int w | EvStr s \<Rightarrow> enc_str s | EvBool b \<Rightarrow> enc_bool b)"

definition encode_finding :: "finding \<Rightarrow> encoded" where
  "encode_finding f =
     enc_obj
       [(''rule_id'', enc_str (RuleID f)),
        (''rule_version'', enc_int (RuleVersion f)),
        (''title'', enc_str (Title f)),
        (''severity'', enc_str (severity_str (Severity f))),
        (''resource_key'', enc_str (ResourceKey f)),
        (''evidence'', enc_map (map (\<lambda>(k, e). (k, encode_evidence e)) (Evidence f))),
        (''est_saving_eur'', enc_float (EstSavingEUR f)),
        (''basis'', enc_str (Basis f)),
        (''confidence'', enc_str (confidence_str (Confidence f))),
        (''remediation'', encode_remediation (Remediation f))]"

text \<open>\<open>MarshalIndent\<close> with two spaces, and \<open>Encoder.Encode\<close>, which adds a line break.\<close>

definition marshal_indent :: "encoded \<Rightarrow> gostring + gostring" where
  "marshal_indent r = (case r of Inl e \<Rightarrow> Inl e | Inr v \<Rightarrow> Inr (print_json 0 v))"

definition encoder_text :: "encoded \<Rightarrow> gostring + gostring" where
  "encoder_text r = (case r of Inl e \<Rightarrow> Inl e | Inr v \<Rightarrow> Inr (print_json 0 v @ newline))"

subsection \<open>Decoding\<close>

record json_messages =
  SyntaxMsg :: "gostring \<Rightarrow> gostring" \<comment> \<open>of a text that is not JSON\<close>
  TimeMsg :: "gostring \<Rightarrow> gostring" \<comment> \<open>of a string that is no time\<close>

text \<open>The struct whose field is being decoded, and the path of fields to it.\<close>

type_synonym field_ctx = "gostring \<times> gostring list"

datatype decode_error = Mismatch gostring | Abort gostring

type_synonym 'a decoded = "decode_error list \<times> 'a"

definition mismatch :: "field_ctx \<Rightarrow> gostring \<Rightarrow> gostring \<Rightarrow> decode_error" where
  "mismatch ctx value type =
     Mismatch (''json: cannot unmarshal '' @ value @
       (if fst ctx = '''' then '' into Go value of type ''
        else '' into Go struct field '' @ fst ctx @ ''.'' @ join ''.'' (snd ctx) @ '' of type '') @ type)"

definition kind :: "json \<Rightarrow> gostring" where
  "kind v =
     (case v of JNull \<Rightarrow> ''null'' | JBool b \<Rightarrow> ''bool'' | JNum t \<Rightarrow> ''number'' | JStr raw \<Rightarrow> ''string''
      | JArr vs \<Rightarrow> ''array'' | JObj ms \<Rightarrow> ''object'')"

definition read_str :: "field_ctx \<Rightarrow> json \<Rightarrow> gostring \<Rightarrow> gostring decoded" where
  "read_str ctx v old =
     (case v of
        JNull \<Rightarrow> ([], old)
      | JStr raw \<Rightarrow> ([], json_unquote raw)
      | _ \<Rightarrow> ([mismatch ctx (kind v) ''string''], old))"

definition read_int :: "gostring \<Rightarrow> field_ctx \<Rightarrow> json \<Rightarrow> i64 \<Rightarrow> i64 decoded" where
  "read_int type ctx v old =
     (case v of
        JNull \<Rightarrow> ([], old)
      | JNum t \<Rightarrow> (case parse_int t of
            Some w \<Rightarrow> ([], w)
          | None \<Rightarrow> ([mismatch ctx (''number '' @ t) type], old))
      | _ \<Rightarrow> ([mismatch ctx (kind v) type], old))"

definition read_float :: "field_ctx \<Rightarrow> json \<Rightarrow> f64 \<Rightarrow> f64 decoded" where
  "read_float ctx v old =
     (case v of
        JNull \<Rightarrow> ([], old)
      | JNum t \<Rightarrow> (case ParseFloat t of
            Inr x \<Rightarrow> ([], x)
          | Inl e \<Rightarrow> ([mismatch ctx (''number '' @ t) ''float64''], old))
      | _ \<Rightarrow> ([mismatch ctx (kind v) ''float64''], old))"

definition read_time :: "json_messages \<Rightarrow> json \<Rightarrow> gotime \<Rightarrow> gotime decoded" where
  "read_time msgs v old =
     (case v of
        JNull \<Rightarrow> ([], old)
      | JStr raw \<Rightarrow> (case ParseRFC3339 raw of
            Some t \<Rightarrow> ([], t)
          | None \<Rightarrow> ([Abort (TimeMsg msgs raw)], old))
      | _ \<Rightarrow> ([Abort ''Time.UnmarshalJSON: input is not a JSON string''], old))"

text \<open>A slice: elements are decoded over those already there.\<close>

fun read_elems :: "(json \<Rightarrow> 'a \<Rightarrow> 'a decoded) \<Rightarrow> 'a \<Rightarrow> json list \<Rightarrow> 'a list \<Rightarrow> 'a list decoded" where
  "read_elems elem zero [] old = ([], [])"
| "read_elems elem zero (v # vs) old =
     (let (e, x) = elem v (case old of [] \<Rightarrow> zero | y # ys \<Rightarrow> y);
          (es, xs) = read_elems elem zero vs (tl old)
      in (e @ es, x # xs))"

definition read_slice :: "gostring \<Rightarrow> (json \<Rightarrow> 'a \<Rightarrow> 'a decoded) \<Rightarrow> 'a \<Rightarrow> field_ctx \<Rightarrow> json \<Rightarrow> 'a list
    \<Rightarrow> 'a list decoded" where
  "read_slice type elem zero ctx v old =
     (case v of
        JNull \<Rightarrow> ([], [])
      | JArr vs \<Rightarrow> read_elems elem zero vs old
      | _ \<Rightarrow> ([mismatch ctx (kind v) type], old))"

text \<open>The fold of a key: upper case, with the two runes outside ASCII that fold to a letter.\<close>

definition fold_rune :: "gostring \<Rightarrow> gostring" where
  "fold_rune bs =
     (if bs = [CHR 0xE2, CHR 0x84, CHR 0xAA] then ''K''
      else if bs = [CHR 0xC5, CHR 0xBF] then ''S''
      else map (\<lambda>c. if in_range 97 122 c then char_of (byte c - 32) else c) bs)"

definition field_key :: "gostring \<Rightarrow> gostring" where
  "field_key raw = concat (map (\<lambda>r. fold_rune (snd r)) (runes (json_unquote raw)))"

text \<open>A struct: \<open>field\<close> decodes the value of a folded key into it.\<close>

fun read_members :: "(gostring \<Rightarrow> json \<Rightarrow> 'a \<Rightarrow> 'a decoded) \<Rightarrow> (gostring \<times> json) list \<Rightarrow> 'a \<Rightarrow> 'a decoded" where
  "read_members field [] x = ([], x)"
| "read_members field ((k, v) # ms) x =
     (let (e, y) = field (field_key k) v x; (es, z) = read_members field ms y in (e @ es, z))"

definition read_struct :: "gostring \<Rightarrow> (gostring \<Rightarrow> json \<Rightarrow> 'a \<Rightarrow> 'a decoded) \<Rightarrow> field_ctx \<Rightarrow> json \<Rightarrow> 'a
    \<Rightarrow> 'a decoded" where
  "read_struct type field ctx v x =
     (case v of
        JNull \<Rightarrow> ([], x)
      | JObj ms \<Rightarrow> read_members field ms x
      | _ \<Rightarrow> ([mismatch ctx (kind v) type], x))"

definition into :: "'b decoded \<Rightarrow> ('b \<Rightarrow> 'a) \<Rightarrow> 'a decoded" where
  "into d f = (fst d, f (snd d))"

definition sub_ctx :: "gostring \<Rightarrow> field_ctx \<Rightarrow> gostring \<Rightarrow> field_ctx" where
  "sub_ctx struct ctx name = (struct, snd ctx @ [name])"

definition cluster_field :: "field_ctx \<Rightarrow> gostring \<Rightarrow> json \<Rightarrow> clusterInfo \<Rightarrow> clusterInfo decoded" where
  "cluster_field ctx k v c =
     (let sub = sub_ctx ''ClusterInfo'' ctx in
      if k = ''NAME'' then into (read_str (sub ''name'') v (ClusterName c)) (\<lambda>x. c\<lparr>ClusterName := x\<rparr>)
      else if k = ''PROVIDER'' then into (read_str (sub ''provider'') v (ClusterProvider c)) (\<lambda>x. c\<lparr>ClusterProvider := x\<rparr>)
      else ([], c))"

definition topic_field :: "field_ctx \<Rightarrow> gostring \<Rightarrow> json \<Rightarrow> topic \<Rightarrow> topic decoded" where
  "topic_field ctx k v t =
     (let sub = sub_ctx ''Topic'' ctx in
      if k = ''NAME'' then into (read_str (sub ''name'') v (Name t)) (\<lambda>x. t\<lparr>Name := x\<rparr>)
      else if k = ''PARTITIONS'' then into (read_int ''int'' (sub ''partitions'') v (Partitions t)) (\<lambda>x. t\<lparr>Partitions := x\<rparr>)
      else if k = ''REPLICATION_FACTOR''
        then into (read_int ''int'' (sub ''replication_factor'') v (ReplicationFactor t)) (\<lambda>x. t\<lparr>ReplicationFactor := x\<rparr>)
      else if k = ''RETENTION_MS'' then into (read_int ''int64'' (sub ''retention_ms'') v (RetentionMs t)) (\<lambda>x. t\<lparr>RetentionMs := x\<rparr>)
      else if k = ''COMPRESSION_TYPE''
        then into (read_str (sub ''compression_type'') v (CompressionType t)) (\<lambda>x. t\<lparr>CompressionType := x\<rparr>)
      else if k = ''CLEANUP_POLICY'' then into (read_str (sub ''cleanup_policy'') v (CleanupPolicy t)) (\<lambda>x. t\<lparr>CleanupPolicy := x\<rparr>)
      else if k = ''RETAINED_BYTES''
        then into (read_int ''int64'' (sub ''retained_bytes'') v (RetainedBytes t)) (\<lambda>x. t\<lparr>RetainedBytes := x\<rparr>)
      else if k = ''BYTES_IN_PER_SEC'' then into (read_float (sub ''bytes_in_per_sec'') v (BytesInPerSec t)) (\<lambda>x. t\<lparr>BytesInPerSec := x\<rparr>)
      else if k = ''BYTES_OUT_PER_SEC''
        then into (read_float (sub ''bytes_out_per_sec'') v (BytesOutPerSec t)) (\<lambda>x. t\<lparr>BytesOutPerSec := x\<rparr>)
      else if k = ''THROUGHPUT_SOURCE''
        then into (read_str (sub ''throughput_source'') v (ThroughputSource t)) (\<lambda>x. t\<lparr>ThroughputSource := x\<rparr>)
      else if k = ''PARTITION_BYTES''
        then into (read_slice ''[]int64'' (read_int ''int64'' (sub ''partition_bytes'')) 0 (sub ''partition_bytes'') v (PartitionBytes t))
               (\<lambda>x. t\<lparr>PartitionBytes := x\<rparr>)
      else if k = ''EARLIEST_OFFSET''
        then into (read_int ''int64'' (sub ''earliest_offset'') v (EarliestOffset t)) (\<lambda>x. t\<lparr>EarliestOffset := x\<rparr>)
      else if k = ''LATEST_OFFSET'' then into (read_int ''int64'' (sub ''latest_offset'') v (LatestOffset t)) (\<lambda>x. t\<lparr>LatestOffset := x\<rparr>)
      else if k = ''MAX_CONSUMER_LAG_MS''
        then into (read_int ''int64'' (sub ''max_consumer_lag_ms'') v (MaxConsumerLagMs t)) (\<lambda>x. t\<lparr>MaxConsumerLagMs := x\<rparr>)
      else if k = ''ACTIVE_CONSUMERS''
        then into (read_int ''int'' (sub ''active_consumers'') v (ActiveConsumers t)) (\<lambda>x. t\<lparr>ActiveConsumers := x\<rparr>)
      else ([], t))"

definition group_field :: "field_ctx \<Rightarrow> gostring \<Rightarrow> json \<Rightarrow> consumerGrp \<Rightarrow> consumerGrp decoded" where
  "group_field ctx k v g =
     (let sub = sub_ctx ''ConsumerGrp'' ctx in
      if k = ''GROUP_ID'' then into (read_str (sub ''group_id'') v (GroupID g)) (\<lambda>x. g\<lparr>GroupID := x\<rparr>)
      else if k = ''STATE'' then into (read_str (sub ''state'') v (State g)) (\<lambda>x. g\<lparr>State := x\<rparr>)
      else if k = ''LAST_COMMIT_AGE_DAYS''
        then into (read_int ''int'' (sub ''last_commit_age_days'') v (LastCommitAgeDays g)) (\<lambda>x. g\<lparr>LastCommitAgeDays := x\<rparr>)
      else ([], g))"

definition broker_field :: "field_ctx \<Rightarrow> gostring \<Rightarrow> json \<Rightarrow> broker \<Rightarrow> broker decoded" where
  "broker_field ctx k v b =
     (let sub = sub_ctx ''Broker'' ctx in
      if k = ''ID'' then into (read_int ''int'' (sub ''id'') v (BrokerID b)) (\<lambda>x. b\<lparr>BrokerID := x\<rparr>)
      else if k = ''LOG_DIR_BYTES'' then into (read_int ''int64'' (sub ''log_dir_bytes'') v (LogDirBytes b)) (\<lambda>x. b\<lparr>LogDirBytes := x\<rparr>)
      else ([], b))"

text \<open>The zero values.\<close>

definition zero_topic :: topic where
  "zero_topic =
     \<lparr>Name = '''', Partitions = 0, ReplicationFactor = 0, RetentionMs = 0, CompressionType = '''',
      CleanupPolicy = '''', RetainedBytes = 0, BytesInPerSec = 0, BytesOutPerSec = 0,
      ThroughputSource = '''', PartitionBytes = [], EarliestOffset = 0, LatestOffset = 0,
      MaxConsumerLagMs = 0, ActiveConsumers = 0\<rparr>"

definition zero_group :: consumerGrp where
  "zero_group = \<lparr>GroupID = '''', State = '''', LastCommitAgeDays = 0\<rparr>"

definition zero_broker :: broker where
  "zero_broker = \<lparr>BrokerID = 0, LogDirBytes = 0\<rparr>"

definition zero_snapshot :: snapshot where
  "zero_snapshot =
     \<lparr>TakenAt = zero_time, Cluster = \<lparr>ClusterName = '''', ClusterProvider = ''''\<rparr>, Topics = [], Groups = [],
      Brokers = []\<rparr>"

definition snapshot_field :: "json_messages \<Rightarrow> field_ctx \<Rightarrow> gostring \<Rightarrow> json \<Rightarrow> snapshot \<Rightarrow> snapshot decoded" where
  "snapshot_field msgs ctx k v s =
     (let sub = sub_ctx ''Snapshot'' ctx in
      if k = ''TAKEN_AT'' then into (read_time msgs v (TakenAt s)) (\<lambda>x. s\<lparr>TakenAt := x\<rparr>)
      else if k = ''CLUSTER''
        then into (read_struct ''rules.ClusterInfo'' (cluster_field (sub ''cluster'')) (sub ''cluster'') v (Cluster s))
               (\<lambda>x. s\<lparr>Cluster := x\<rparr>)
      else if k = ''TOPICS''
        then into (read_slice ''[]rules.Topic'' (read_struct ''rules.Topic'' (topic_field (sub ''topics'')) (sub ''topics''))
                     zero_topic (sub ''topics'') v (Topics s)) (\<lambda>x. s\<lparr>Topics := x\<rparr>)
      else if k = ''GROUPS''
        then into (read_slice ''[]rules.ConsumerGrp'' (read_struct ''rules.ConsumerGrp'' (group_field (sub ''groups'')) (sub ''groups''))
                     zero_group (sub ''groups'') v (Groups s)) (\<lambda>x. s\<lparr>Groups := x\<rparr>)
      else if k = ''BROKERS''
        then into (read_slice ''[]rules.Broker'' (read_struct ''rules.Broker'' (broker_field (sub ''brokers'')) (sub ''brokers''))
                     zero_broker (sub ''brokers'') v (Brokers s)) (\<lambda>x. s\<lparr>Brokers := x\<rparr>)
      else ([], s))"

fun abort_of :: "decode_error list \<Rightarrow> gostring option" where
  "abort_of [] = None"
| "abort_of (Abort e # es) = Some e"
| "abort_of (Mismatch e # es) = abort_of es"

text \<open>\<open>Unmarshal\<close>: an abort, else the first mismatch, else the value.\<close>

definition unmarshal_result :: "'a decoded \<Rightarrow> gostring + 'a" where
  "unmarshal_result d =
     (case abort_of (fst d) of
        Some e \<Rightarrow> Inl e
      | None \<Rightarrow> (case fst d of Mismatch e # _ \<Rightarrow> Inl e | _ \<Rightarrow> Inr (snd d)))"

definition unmarshal_snapshot :: "json_messages \<Rightarrow> gostring \<Rightarrow> gostring + snapshot" where
  "unmarshal_snapshot msgs raw =
     (case parse_json raw of
        None \<Rightarrow> Inl (SyntaxMsg msgs raw)
      | Some v \<Rightarrow>
          unmarshal_result (read_struct ''rules.Snapshot'' (snapshot_field msgs ('''', [])) ('''', []) v zero_snapshot))"

end
