(* ===== verification/Commands.thy ===== *)
theory Commands
  imports Cli GoFlag SnapshotJson
begin

text \<open>
  The commands (\<open>cmd/brod/main.go\<close>, \<open>cost.go\<close>, \<open>live.go\<close>) from their arguments to what they
  write: flags, input, engine, report or JSON, exit status. The world outside is a record of
  calls; the context of a live run is a deadline in the world, set and cancelled by calls.
\<close>

record ('h, 'w) system =
  Os :: "'w os"
  Stdout :: "gostring \<Rightarrow> ('w, unit) call"
  Stderr :: "gostring \<Rightarrow> 'w \<Rightarrow> 'w"
  WriteFile :: "gostring \<Rightarrow> gostring \<Rightarrow> ('w, unit) call" \<comment> \<open>with mode 0644\<close>
  Kgo :: "('h, 'w) kgo"
  Env :: environment
  Clock :: "'w \<Rightarrow> gotime \<times> 'w"
  Now :: "'w \<Rightarrow> int" \<comment> \<open>of the monotonic clock, in nanoseconds\<close>
  WaitUntil :: "int \<Rightarrow> 'w \<Rightarrow> 'w"
  WithTimeout :: "i64 \<Rightarrow> 'w \<Rightarrow> 'w"
  Deadline :: "'w \<Rightarrow> int" \<comment> \<open>of the context\<close>
  Cancel :: "'w \<Rightarrow> 'w"
  TimerFirst :: "'w \<Rightarrow> bool" \<comment> \<open>what \<open>select\<close> takes when both are ready\<close>
  Compile :: "gostring \<Rightarrow> gostring + regexp"
  Visit :: "(gostring, f64) gomap \<Rightarrow> (gostring, f64) gomap"
  Messages :: json_messages
  Sample :: gostring \<comment> \<open>the embedded file\<close>
  Version :: gostring

text \<open>A command returns nil, an error, or (\<open>None\<close>) panics.\<close>

type_synonym 'w command = "'w \<Rightarrow> (gostring + unit) option \<times> 'w"

definition finish :: "('w, unit) call \<Rightarrow> 'w command" where
  "finish c w = (let (r, w') = c w in (Some r, w'))"

subsection \<open>The flags of a connection\<close>

type_synonym 's focus = "(connectFlags \<Rightarrow> connectFlags) \<Rightarrow> 's \<Rightarrow> 's"

definition connect_formals :: "'s focus \<Rightarrow> 's formal list" where
  "connect_formals on =
     [string_flag ''bootstrap'' ''comma-separated bootstrap servers (host:port)'' (\<lambda>v. on (\<lambda>c. c\<lparr>cf_bootstrap := v\<rparr>)),
      bool_flag ''tls'' ''use TLS for the broker connection'' (\<lambda>v. on (\<lambda>c. c\<lparr>cf_tls := v\<rparr>)),
      string_flag ''sasl-mechanism'' ''plain | scram-sha-256 | scram-sha-512 (default: none)''
        (\<lambda>v. on (\<lambda>c. c\<lparr>cf_saslMechanism := v\<rparr>)),
      string_flag ''user'' ''SASL username (or env BROD_KAFKA_USER)'' (\<lambda>v. on (\<lambda>c. c\<lparr>cf_user := v\<rparr>)),
      string_flag ''pass'' ''SASL password (or env BROD_KAFKA_PASS)'' (\<lambda>v. on (\<lambda>c. c\<lparr>cf_pass := v\<rparr>)),
      string_flag ''cluster-name'' ''label for the snapshot (default: first bootstrap host)''
        (\<lambda>v. on (\<lambda>c. c\<lparr>cf_clusterName := v\<rparr>)),
      duration_flag ''sample-window'' ''30s''
        ''throughput sampling window; 0 = single-shot (no throughput estimate)''
        (\<lambda>v. on (\<lambda>c. c\<lparr>cf_sampleWindow := v\<rparr>)),
      bool_flag ''require-readonly'' ''fail closed if the credential has detectable write/topic-READ ACLs''
        (\<lambda>v. on (\<lambda>c. c\<lparr>cf_requireReadOnly := v\<rparr>)),
      bool_flag ''include-internal'' ''include internal topics (e.g. __consumer_offsets)''
        (\<lambda>v. on (\<lambda>c. c\<lparr>cf_includeInternal := v\<rparr>))]"

text \<open>Sleeping until the timer fires or the context ends, whichever comes first.\<close>

definition ctxSleep :: "('h, 'w) system \<Rightarrow> i64 \<Rightarrow> ('w, unit) call" where
  "ctxSleep sys d w =
     (let wake = Now sys w + max 0 (sint d); ended = max (Now sys w) (Deadline sys w)
      in if wake < ended \<or> wake = ended \<and> TimerFirst sys w then (Inr (), WaitUntil sys wake w)
         else (Inl ''context deadline exceeded'', WaitUntil sys ended w))"

definition live :: "('h, 'w) system \<Rightarrow> connectFlags \<Rightarrow> ('w, snapshot) call" where
  "live sys cf = connectAndCollect (Kgo sys) (Env sys) (Stderr sys) (Clock sys) (ctxSleep sys) cf"

subsection \<open>brod sample\<close>

definition cmdSample :: "('h, 'w) system \<Rightarrow> gostring list \<Rightarrow> 'w command" where
  "cmdSample sys argv = finish (Stdout sys (Sample sys))"

subsection \<open>brod scan\<close>

record scan_flags =
  sf_snapshot :: gostring
  sf_cost :: f64
  sf_provider :: gostring
  sf_json :: bool
  sf_verbose :: bool
  sf_connect :: connectFlags

definition scan_defaults :: scan_flags where
  "scan_defaults =
     \<lparr>sf_snapshot = '''', sf_cost = 0, sf_provider = '''', sf_json = False, sf_verbose = False,
      sf_connect = registerConnectFlags\<rparr>"

definition scan_formals :: "scan_flags formal list" where
  "scan_formals =
     [string_flag ''snapshot'' (''snapshot JSON file ('' @ apostrophe @ ''-'' @ apostrophe @ '' for stdin)'')
        (\<lambda>v f. f\<lparr>sf_snapshot := v\<rparr>),
      float_flag ''cost'' (''cluster monthly cost in '' @ utf_euro) (\<lambda>v f. f\<lparr>sf_cost := v\<rparr>),
      string_flag ''provider'' ''confluent | msk | self'' (\<lambda>v f. f\<lparr>sf_provider := v\<rparr>),
      bool_flag ''json'' ''emit findings as JSON'' (\<lambda>v f. f\<lparr>sf_json := v\<rparr>),
      bool_flag ''verbose'' ''show remediation per finding'' (\<lambda>v f. f\<lparr>sf_verbose := v\<rparr>)] @
     connect_formals (\<lambda>g f. f\<lparr>sf_connect := g (sf_connect f)\<rparr>)"

definition scan_json :: "snapshot \<Rightarrow> finding list \<Rightarrow> encoded" where
  "scan_json s fs =
     enc_map
       [(''cluster'', enc_str (ClusterName (Cluster s))),
        (''taken_at'', enc_time (TakenAt s)),
        (''total_saving_eur'', enc_float (totalSavingsEUR fs)),
        (''findings'', enc_slice (map encode_finding fs))]"

text \<open>The encoder writes the whole text at once or, on an error, nothing.\<close>

definition emit :: "(gostring \<Rightarrow> ('w, unit) call) \<Rightarrow> encoded \<Rightarrow> ('w, unit) call" where
  "emit out r = bindE (liftE (encoder_text r)) out"

definition emitJSON :: "(gostring \<Rightarrow> ('w, unit) call) \<Rightarrow> snapshot \<Rightarrow> finding list \<Rightarrow> ('w, unit) call" where
  "emitJSON out s fs = emit out (scan_json s fs)"

text \<open>The text reports are printed without looking at the errors of the writes.\<close>

definition print_report :: "('h, 'w) system \<Rightarrow> gostring \<Rightarrow> ('w, unit) call" where
  "print_report sys t w = (Inr (), snd (Stdout sys t w))"

definition scan_output :: "('h, 'w) system \<Rightarrow> scan_flags \<Rightarrow> snapshot \<Rightarrow> bool \<Rightarrow> 'w command" where
  "scan_output sys f s usedDemo w =
     (let (now, w') = Clock sys w
      in case evaluate [s] (cli_model s (sf_provider f) (sf_cost f)) (defaultConfig now) of
           None \<Rightarrow> (None, w')
         | Some fs \<Rightarrow>
             finish
               (if sf_json f then emitJSON (Stdout sys) s fs
                else print_report sys (renderReport s fs usedDemo (sf_verbose f))) w')"

definition file_input :: "('h, 'w) system \<Rightarrow> gostring \<Rightarrow> ('w, snapshot \<times> bool) call" where
  "file_input sys path =
     bindE (readSnapshot (Os sys) (Sample sys) path) (\<lambda>(raw, demo).
       bindE (wrapE ''parsing snapshot'' (liftE (unmarshal_snapshot (Messages sys) raw))) (\<lambda>s.
         returnE (s, demo)))"

definition cmdScan :: "('h, 'w) system \<Rightarrow> gostring list \<Rightarrow> 'w command" where
  "cmdScan sys argv w =
     (case flag_parse (Stderr sys) ''scan'' scan_formals argv scan_defaults w of
        (Inl e, w1) \<Rightarrow> (Some (Inl e), w1)
      | (Inr (f, args), w1) \<Rightarrow>
          if cf_bootstrap (sf_connect f) \<noteq> '''' then
            (let (r, w3) =
               (case live sys (sf_connect f) (WithTimeout sys (collectTimeout (cf_sampleWindow (sf_connect f))) w1) of
                  (Inl e, w2) \<Rightarrow> (Some (Inl e), w2)
                | (Inr s, w2) \<Rightarrow> scan_output sys f s False w2)
             in (r, Cancel sys w3))
          else
            (case file_input sys (sf_snapshot f) w1 of
               (Inl e, w2) \<Rightarrow> (Some (Inl e), w2)
             | (Inr (s, demo), w2) \<Rightarrow> scan_output sys f s demo w2))"

subsection \<open>brod cost\<close>

record cost_flags =
  tf_snapshot :: gostring
  tf_cost :: f64
  tf_provider :: gostring
  tf_json :: bool
  tf_teams :: teamFlags
  tf_connect :: connectFlags

definition cost_defaults :: cost_flags where
  "cost_defaults =
     \<lparr>tf_snapshot = '''', tf_cost = 0, tf_provider = '''', tf_json = False, tf_teams = [],
      tf_connect = registerConnectFlags\<rparr>"

definition teamFlags_String :: "teamFlags \<Rightarrow> gostring" where
  "teamFlags_String tf = dec_int (int (length tf)) @ '' rule(s)''"

definition cost_formals :: "(gostring \<Rightarrow> gostring + regexp) \<Rightarrow> cost_flags formal list" where
  "cost_formals compile =
     [string_flag ''snapshot'' (''snapshot JSON file ('' @ apostrophe @ ''-'' @ apostrophe @ '' for stdin)'')
        (\<lambda>v f. f\<lparr>tf_snapshot := v\<rparr>),
      float_flag ''cost'' (''cluster monthly cost in '' @ utf_euro) (\<lambda>v f. f\<lparr>tf_cost := v\<rparr>),
      string_flag ''provider'' ''confluent | msk | self'' (\<lambda>v f. f\<lparr>tf_provider := v\<rparr>),
      bool_flag ''json'' ''emit allocation as JSON'' (\<lambda>v f. f\<lparr>tf_json := v\<rparr>),
      value_flag ''team'' (teamFlags_String []) (''ordered '' @ apostrophe @ ''regex=Team'' @ apostrophe @ '' mapping (repeatable)'')
        (\<lambda>v f. case teamFlags_Set compile (tf_teams f) v of
            Inl e \<Rightarrow> Inl e
          | Inr tf \<Rightarrow> Inr (f\<lparr>tf_teams := tf\<rparr>))] @
     connect_formals (\<lambda>g f. f\<lparr>tf_connect := g (tf_connect f)\<rparr>)"

definition encode_weights :: "weights \<Rightarrow> encoded" where
  "encode_weights w =
     enc_obj [(''storage'', enc_float (Storage w)), (''throughput'', enc_float (Throughput w)),
              (''partition'', enc_float (Partition w))]"

definition topicOut :: "teamFlags \<Rightarrow> topicCost \<Rightarrow> encoded" where
  "topicOut teams a =
     enc_obj
       ([(''topic'', enc_str (tc_Name a)), (''eur_per_month'', enc_float (tc_EUR a))] @
        (if teams = [] then [] else omitempty ''team'' (teamFor teams (tc_Name a))) @
        [(''basis'', enc_str (tc_Basis a))])"

definition cost_json :: "snapshot \<Rightarrow> costModel \<Rightarrow> topicCost list \<Rightarrow> teamFlags \<Rightarrow> encoded" where
  "cost_json s cm alloc teams =
     enc_map
       [(''cluster'', enc_str (ClusterName (Cluster s))),
        (''monthly_cost_eur'', enc_float (cm_MonthlyCostEUR cm)),
        (''weights'', encode_weights (cm_Weights cm)),
        (''topics'', enc_arr (map (topicOut teams) alloc))]"

definition emitCostJSON :: "(gostring \<Rightarrow> ('w, unit) call) \<Rightarrow> snapshot \<Rightarrow> costModel \<Rightarrow> topicCost list \<Rightarrow> teamFlags
    \<Rightarrow> ('w, unit) call" where
  "emitCostJSON out s cm alloc teams = emit out (cost_json s cm alloc teams)"

definition live_under_timeout :: "('h, 'w) system \<Rightarrow> connectFlags \<Rightarrow> ('w, snapshot) call" where
  "live_under_timeout sys cf w =
     (let (r, w') = live sys cf (WithTimeout sys (collectTimeout (cf_sampleWindow cf)) w)
      in (r, Cancel sys w'))"

definition cmdCost :: "('h, 'w) system \<Rightarrow> gostring list \<Rightarrow> 'w command" where
  "cmdCost sys argv w =
     (case flag_parse (Stderr sys) ''cost'' (cost_formals (Compile sys)) argv cost_defaults w of
        (Inl e, w1) \<Rightarrow> (Some (Inl e), w1)
      | (Inr (f, args), w1) \<Rightarrow>
          (case loadSnapshot (Os sys) (Sample sys) (unmarshal_snapshot (Messages sys)) (live_under_timeout sys)
             (tf_snapshot f) (tf_connect f) w1 of
             (Inl e, w2) \<Rightarrow> (Some (Inl e), w2)
           | (Inr s, w2) \<Rightarrow>
               let cm = cli_model s (tf_provider f) (tf_cost f); alloc = allocate cm (cost_inputs s)
               in finish
                    (if tf_json f then emitCostJSON (Stdout sys) s cm alloc (tf_teams f)
                     else print_report sys (renderCost (Visit sys) s cm alloc (tf_teams f))) w2))"

subsection \<open>brod collect\<close>

record collect_flags =
  lf_connect :: connectFlags
  lf_out :: gostring

definition collect_defaults :: collect_flags where
  "collect_defaults = \<lparr>lf_connect = registerConnectFlags, lf_out = ''''\<rparr>"

definition collect_formals :: "collect_flags formal list" where
  "collect_formals =
     connect_formals (\<lambda>g f. f\<lparr>lf_connect := g (lf_connect f)\<rparr>) @
     [string_flag ''out'' (''write snapshot JSON to this file ('' @ apostrophe @ ''-'' @ apostrophe @ '' or empty = stdout)'')
        (\<lambda>v f. f\<lparr>lf_out := v\<rparr>)]"

text \<open>Writing a collected snapshot of \<open>n\<close> topics.\<close>

definition put_snapshot :: "('h, 'w) system \<Rightarrow> gostring \<Rightarrow> nat \<Rightarrow> gostring \<Rightarrow> ('w, unit) call" where
  "put_snapshot sys out n data =
     (if out = '''' \<or> out = ''-'' then Stdout sys data
      else bindE (wrapE ''writing snapshot'' (WriteFile sys out data)) (\<lambda>_ w.
        (Inr (), Stderr sys (''  wrote snapshot for '' @ dec_int (int n) @ '' topics to '' @ out @ newline) w)))"

definition write_snapshot :: "('h, 'w) system \<Rightarrow> gostring \<Rightarrow> snapshot \<Rightarrow> ('w, unit) call" where
  "write_snapshot sys out s =
     bindE (wrapE ''encoding snapshot'' (liftE (marshal_indent (encode_snapshot s)))) (\<lambda>json.
       put_snapshot sys out (length (Topics s)) (json @ newline))"

definition cmdCollect :: "('h, 'w) system \<Rightarrow> gostring list \<Rightarrow> 'w command" where
  "cmdCollect sys argv w =
     (case flag_parse (Stderr sys) ''collect'' collect_formals argv collect_defaults w of
        (Inl e, w1) \<Rightarrow> (Some (Inl e), w1)
      | (Inr (f, args), w1) \<Rightarrow>
          (let (r, w2) =
             bindE (live sys (lf_connect f)) (write_snapshot sys (lf_out f))
               (WithTimeout sys (collectTimeout (cf_sampleWindow (lf_connect f))) w1)
           in (Some r, Cancel sys w2)))"

subsection \<open>main\<close>

definition dispatch :: "('h, 'w) system \<Rightarrow> gostring \<Rightarrow> gostring list \<Rightarrow> 'w command option" where
  "dispatch sys name argv =
     (if name = ''scan'' then Some (cmdScan sys argv)
      else if name = ''collect'' then Some (cmdCollect sys argv)
      else if name = ''cost'' then Some (cmdCost sys argv)
      else if name = ''sample'' then Some (cmdSample sys argv)
      else if name \<in> {''version'', ''--version'', ''-v''}
        then Some (finish (print_report sys (''brod '' @ Version sys @ newline)))
      else if name \<in> {''help'', ''-h'', ''--help''} then Some (\<lambda>w. (Some (Inr ()), Stderr sys usage w))
      else None)"

text \<open>The exit status and the world after it; a panic ends the process with status 2.\<close>

definition brod_main :: "('h, 'w) system \<Rightarrow> gostring list \<Rightarrow> 'w \<Rightarrow> nat \<times> 'w" where
  "brod_main sys args w =
     (case args of
        prog # name # argv \<Rightarrow>
          (case dispatch sys name argv of
             None \<Rightarrow> (2, Stderr sys usage (Stderr sys (''unknown command '' @ go_quote name @ newline @ newline) w))
           | Some run \<Rightarrow>
               (case run w of
                  (None, w') \<Rightarrow> (2, w')
                | (Some (Inl err), w') \<Rightarrow> (1, Stderr sys (''brod: '' @ err @ newline) w')
                | (Some (Inr u), w') \<Rightarrow> (0, w')))
      | _ \<Rightarrow> (2, Stderr sys usage w))"

end
