(* ===== verification/SnapshotFacts.thy ===== *)
theory SnapshotFacts
  imports SnapshotJson
begin

text \<open>
  Encoding a snapshot and decoding the text gives the snapshot back, up to invalid UTF-8 in
  its strings. Each field has a law (encoded, then decoded over any old value); the records
  follow from their fields, the slices from their elements.
\<close>

subsection \<open>Scalars\<close>

declare scan_string.simps(2) [simp del]

definition good :: "nat \<Rightarrow> encoded \<Rightarrow> (json \<Rightarrow> 'a \<Rightarrow> 'a decoded) \<Rightarrow> 'a \<Rightarrow> bool" where
  \<comment> \<open>if the encoding succeeds, its text can be read and gives the value\<close>
  "good n r dec x \<longleftrightarrow> (\<forall>v. r = Inr v \<longrightarrow> json_ok v \<and> json_depth v \<le> n \<and> (\<forall>old. dec v old = ([], x)))"

lemma goodD:
  "good n r dec x \<Longrightarrow> r = Inr v \<Longrightarrow> json_ok v" "good n r dec x \<Longrightarrow> r = Inr v \<Longrightarrow> json_depth v \<le> n"
  "good n r dec x \<Longrightarrow> r = Inr v \<Longrightarrow> dec v old = ([], x)"
  by (simp_all add: good_def)

lemma good_str: "good 0 (enc_str s) (read_str ctx) (valid_utf8 s)"
  using scan_quoted[of s "[]"] by (simp add: good_def enc_str_def read_str_def unquote_quote dquote_def)

lemma parse_int_fmt_d: "parse_int (fmt_d w) = Some w"
proof -
  have r: "- (2 ^ 63) \<le> sint w" "sint w < 2 ^ 63" using sint_range[of w] by auto
  obtain c u where c: "dec_digits \<bar>sint w\<bar> = c # u" by (cases "dec_digits \<bar>sint w\<bar>") auto
  have d: "digits (c # u)" using digits_dec_digits[of "\<bar>sint w\<bar>"] c by simp
  have "num_of 0 (c # u) = \<bar>sint w\<bar>" using num_of_dec_digits[of "\<bar>sint w\<bar>"] c by simp
  then have p: "parse_digits 0 (c # u) = Some \<bar>sint w\<bar>" using parse_digits_eq[OF d] by simp
  have "c \<noteq> CHR ''-'' \<and> c \<noteq> CHR ''+''" using digit_facts d by simp
  then show ?thesis
    using p r c by (cases "sint w < 0") (simp_all add: parse_int_def fmt_d_def dec_int_def of_int_sint)
qed

lemma good_int: "good 0 (enc_int w) (read_int type ctx) w"
  by (simp add: good_def enc_int_def read_int_def parse_int_fmt_d) (simp add: fmt_d_def scan_dec_int)

text \<open>Every \<open>float64\<close> is one of the format's values, or NaN or infinite.\<close>

definition f64_repr :: "f64 \<Rightarrow> bool" where
  "f64_repr x \<longleftrightarrow> \<not> is_fin x \<or> f64_ok x"

lemma good_float: "f64_repr x \<Longrightarrow> good 0 (enc_float x) (read_float ctx) x"
proof -
  assume x: "f64_repr x"
  show ?thesis
  proof (cases "json_float x")
    case None
    then show ?thesis by (simp add: good_def enc_float_def)
  next
    case (Some t)
    then have "f64_ok x" using x json_float_None[of x] by (auto simp: f64_repr_def)
    then show ?thesis
      using Some ParseFloat_json_float[of x] scan_json_float[of x t]
      by (auto simp: good_def enc_float_def read_float_def)
  qed
qed

lemma scan_plain_text:
  "list_all (\<lambda>c. 0x20 \<le> byte c \<and> c \<noteq> CHR 0x22 \<and> c \<noteq> CHR 0x5C) s \<Longrightarrow> scan_string (s @ dquote) = Some (s, [])"
  by (induction s) (auto simp: dquote_def not_less scan_string.simps(2))

definition time_char :: "char \<Rightarrow> bool" where
  "time_char c \<longleftrightarrow> in_range 48 57 c \<or> c \<in> set ''-:TZ.+''"

lemma time_chars:
  "digits s \<Longrightarrow> list_all time_char s" "list_all time_char (frac_text n)" if "0 \<le> n"
proof -
  show d: "digits s \<Longrightarrow> list_all time_char s" for s by (auto simp: digits_def list_all_iff time_char_def)
  have "digits (pad_zeros 9 (dec_digits n))" using that by (intro digits_pad_zeros) simp
  moreover obtain j where "pad_zeros 9 (dec_digits n) = strip_zeros (pad_zeros 9 (dec_digits n)) @ replicate j (CHR ''0'')"
    using strip_zeros_split by blast
  ultimately have "digits (strip_zeros (pad_zeros 9 (dec_digits n)))" by (metis digits_simps(3))
  then show "list_all time_char (frac_text n)" using d by (simp add: frac_text_def time_char_def)
qed

lemma time_char_two: "0 \<le> n \<Longrightarrow> list_all time_char (two n)"
  unfolding two_def by (intro time_chars(1)[of 0] digits_pad_zeros) auto

lemma rfc3339_text_chars:
  assumes "0 \<le> year_of t"
  shows "list_all time_char (rfc3339_text t)"
proof -
  obtain y m d where date: "date_of_days (local_seconds t div 86400 + epoch_days) = (y, m, d)" by (metis prod_cases3)
  have y: "0 \<le> y" using assms date by (simp add: year_of_def)
  have "list_all time_char (pad_zeros 4 (dec_digits y))" using y by (intro time_chars(1)[of 0] digits_pad_zeros) auto
  moreover have "list_all time_char (two m)" "list_all time_char (two d)"
    using date_of_days_correct[OF date] by (auto intro: time_char_two)
  moreover have "list_all time_char (clock_text (local_seconds t mod 86400))"
    by (simp add: clock_text_def time_char_two time_char_def pos_imp_zdiv_nonneg_iff)
  moreover have "list_all time_char (zone_text (ZoneMinutes t))"
    by (simp add: zone_text_def time_char_two time_char_def pos_imp_zdiv_nonneg_iff)
  moreover have "list_all time_char (frac_text (UnixNano t mod 1000000000))" by (rule time_chars(2)) simp
  ultimately show ?thesis using date by (simp add: rfc3339_text_def Let_def time_char_def)
qed

lemma good_time: "good 0 (enc_time t) (read_time msgs) t"
proof (cases "MarshalTime t")
  case (Inr s)
  then have "list_all time_char s" using rfc3339_text_chars by (auto simp: MarshalTime_def split: if_splits)
  then have "list_all (\<lambda>c. 0x20 \<le> byte c \<and> c \<noteq> CHR 0x22 \<and> c \<noteq> CHR 0x5C) s"
    by (auto simp: list_all_iff time_char_def in_range_def byte_def)
  then have "scan_string (s @ dquote) = Some (s, [])" by (rule scan_plain_text)
  then show ?thesis using Inr MarshalTime_parses[OF Inr] by (simp add: good_def enc_time_def read_time_def)
qed (simp add: good_def enc_time_def)

subsection \<open>Records\<close>

text \<open>Members in order, each a field that decodes without errors.\<close>

lemma enc_obj_Inr: "enc_obj ms = Inr v \<longleftrightarrow> (\<exists>vs. v = JObj vs \<and> enc_members ms = Inr vs)"
  by (auto simp: enc_obj_def split: sum.splits)

lemma enc_arr_Inr: "enc_arr rs = Inr v \<longleftrightarrow> (\<exists>vs. v = JArr vs \<and> enc_elems rs = Inr vs)"
  by (auto simp: enc_arr_def split: sum.splits)

lemma enc_members_Cons_Inr [simp]:
  "enc_members ((k, r) # ms) = Inr vs \<longleftrightarrow> (\<exists>v ws. vs = (k, v) # ws \<and> r = Inr v \<and> enc_members ms = Inr ws)"
  by (auto split: sum.splits)

lemma enc_members_append_Inr:
  "enc_members (ms @ ns) = Inr vs \<longleftrightarrow>
     (\<exists>us ws. vs = us @ ws \<and> enc_members ms = Inr us \<and> enc_members ns = Inr ws)"
proof (induction ms arbitrary: vs)
  case (Cons m ms)
  obtain k r where m: "m = (k, r)" by (cases m)
  show ?case unfolding m append_Cons enc_members_Cons_Inr Cons.IH by (auto simp: Cons_eq_append_conv)
qed simp

lemma good_elems:
  assumes "\<And>y. y \<in> set ys \<Longrightarrow> good n (enc y) dec (f y)" "enc_elems (map enc ys) = Inr vs"
  shows "list_all json_ok vs" "list_all (\<lambda>v. json_depth v \<le> n) vs" "read_elems dec zero vs old = ([], map f ys)"
proof -
  have "list_all json_ok vs \<and> list_all (\<lambda>v. json_depth v \<le> n) vs \<and> (\<forall>old. read_elems dec zero vs old = ([], map f ys))"
    using assms
  proof (induction ys arbitrary: vs)
    case (Cons y ys)
    obtain v ws where v: "vs = v # ws" "enc y = Inr v" "enc_elems (map enc ys) = Inr ws"
      using Cons.prems(2) by (auto split: sum.splits)
    have "good n (enc y) dec (f y)" using Cons.prems(1) by simp
    note g = goodD[OF this v(2)]
    have "list_all json_ok ws \<and> list_all (\<lambda>v. json_depth v \<le> n) ws \<and> (\<forall>old. read_elems dec zero ws old = ([], map f ys))"
      using Cons.prems(1) v(3) by (intro Cons.IH) auto
    then show ?case using g by (simp add: v(1))
  qed simp
  then show "list_all json_ok vs" "list_all (\<lambda>v. json_depth v \<le> n) vs" "read_elems dec zero vs old = ([], map f ys)"
    by auto
qed

lemma good_arr:
  assumes "\<And>y. y \<in> set ys \<Longrightarrow> good n (enc y) dec (f y)"
  shows "good (Suc n) (enc_arr (map enc ys)) (read_slice type dec zero ctx) (map f ys)"
    "good (Suc n) (enc_slice (map enc ys)) (read_slice type dec zero ctx) (map f ys)"
proof -
  show a: "good (Suc n) (enc_arr (map enc ys)) (read_slice type dec zero ctx) (map f ys)"
    unfolding good_def enc_arr_Inr
  proof (intro allI impI, elim exE conjE)
    fix v vs
    assume v: "v = JArr vs" "enc_elems (map enc ys) = Inr vs"
    note e = good_elems[of ys n enc dec f vs, OF assms v(2)]
    have "foldr max (map json_depth vs) 0 \<le> n" using e(2) by (simp add: foldr_max_bound list_all_iff)
    then show "json_ok v \<and> json_depth v \<le> Suc n \<and> (\<forall>old. read_slice type dec zero ctx v old = ([], map f ys))"
      using e(1,3) by (simp add: v(1) read_slice_def)
  qed
  show "good (Suc n) (enc_slice (map enc ys)) (read_slice type dec zero ctx) (map f ys)"
  proof (cases "ys = []")
    case True
    then show ?thesis by (simp add: good_def enc_slice_def read_slice_def)
  qed (use a in \<open>simp add: enc_slice_def\<close>)
qed

lemma read_struct_obj: "read_struct type field ctx (JObj ms) x = read_members field ms x"
  by (simp add: read_struct_def)

text \<open>The folded keys.\<close>

lemma field_keys:
  "field_key ''name'' = ''NAME''" "field_key ''provider'' = ''PROVIDER''" "field_key ''partitions'' = ''PARTITIONS''"
  "field_key ''replication_factor'' = ''REPLICATION_FACTOR''" "field_key ''retention_ms'' = ''RETENTION_MS''"
  "field_key ''compression_type'' = ''COMPRESSION_TYPE''" "field_key ''cleanup_policy'' = ''CLEANUP_POLICY''"
  "field_key ''retained_bytes'' = ''RETAINED_BYTES''" "field_key ''bytes_in_per_sec'' = ''BYTES_IN_PER_SEC''"
  "field_key ''bytes_out_per_sec'' = ''BYTES_OUT_PER_SEC''" "field_key ''throughput_source'' = ''THROUGHPUT_SOURCE''"
  "field_key ''partition_bytes'' = ''PARTITION_BYTES''" "field_key ''earliest_offset'' = ''EARLIEST_OFFSET''"
  "field_key ''latest_offset'' = ''LATEST_OFFSET''" "field_key ''max_consumer_lag_ms'' = ''MAX_CONSUMER_LAG_MS''"
  "field_key ''active_consumers'' = ''ACTIVE_CONSUMERS''" "field_key ''group_id'' = ''GROUP_ID''"
  "field_key ''state'' = ''STATE''" "field_key ''last_commit_age_days'' = ''LAST_COMMIT_AGE_DAYS''"
  "field_key ''id'' = ''ID''" "field_key ''log_dir_bytes'' = ''LOG_DIR_BYTES''" "field_key ''taken_at'' = ''TAKEN_AT''"
  "field_key ''cluster'' = ''CLUSTER''" "field_key ''topics'' = ''TOPICS''" "field_key ''groups'' = ''GROUPS''"
  "field_key ''brokers'' = ''BROKERS''"
  by code_simp+

lemma scan_keys:
  "list_all (\<lambda>k. scan_string (k @ dquote) = Some (k, []))
     [''name'', ''provider'', ''partitions'', ''replication_factor'', ''retention_ms'', ''compression_type'',
      ''cleanup_policy'', ''retained_bytes'', ''bytes_in_per_sec'', ''bytes_out_per_sec'', ''throughput_source'',
      ''partition_bytes'', ''earliest_offset'', ''latest_offset'', ''max_consumer_lag_ms'', ''active_consumers'',
      ''group_id'', ''state'', ''last_commit_age_days'', ''id'', ''log_dir_bytes'', ''taken_at'', ''cluster'',
      ''topics'', ''groups'', ''brokers'']"
  by code_simp

lemmas keys_scan = scan_keys[simplified]

text \<open>What is left of a record: its strings as valid UTF-8.\<close>

definition clean_cluster :: "clusterInfo \<Rightarrow> clusterInfo" where
  "clean_cluster c = c\<lparr>ClusterName := valid_utf8 (ClusterName c), ClusterProvider := valid_utf8 (ClusterProvider c)\<rparr>"

definition clean_topic :: "topic \<Rightarrow> topic" where
  "clean_topic t = t\<lparr>Name := valid_utf8 (Name t), CompressionType := valid_utf8 (CompressionType t),
     CleanupPolicy := valid_utf8 (CleanupPolicy t), ThroughputSource := valid_utf8 (ThroughputSource t)\<rparr>"

definition clean_group :: "consumerGrp \<Rightarrow> consumerGrp" where
  "clean_group g = g\<lparr>GroupID := valid_utf8 (GroupID g), State := valid_utf8 (State g)\<rparr>"

definition clean_snapshot :: "snapshot \<Rightarrow> snapshot" where
  "clean_snapshot s = s\<lparr>Cluster := clean_cluster (Cluster s), Topics := map clean_topic (Topics s),
     Groups := map clean_group (Groups s)\<rparr>"

definition topic_floats :: "topic \<Rightarrow> bool" where
  "topic_floats t \<longleftrightarrow> f64_repr (BytesInPerSec t) \<and> f64_repr (BytesOutPerSec t)"

lemma good_cluster: "good 1 (encode_cluster c) (read_struct type (cluster_field ctx) ctx) (clean_cluster c)"
  unfolding good_def encode_cluster_def enc_obj_Inr enc_members_Cons_Inr
proof (intro allI impI, elim exE conjE)
  fix v vs v1 vs1 v2 vs2
  assume v: "v = JObj vs" "vs = (''name'', v1) # vs1" "vs1 = (''provider'', v2) # vs2" "enc_members [] = Inr vs2"
    and r: "enc_str (ClusterName c) = Inr v1" "enc_str (ClusterProvider c) = Inr v2"
  note g = goodD[OF good_str r(1)] goodD[OF good_str r(2)]
  show "json_ok v \<and> json_depth v \<le> 1 \<and> (\<forall>old. read_struct type (cluster_field ctx) ctx v old = ([], clean_cluster c))"
    using v g(1,2,4,5)
    by (simp add: g keys_scan read_struct_obj field_keys cluster_field_def into_def Let_def sub_ctx_def clean_cluster_def)
qed

lemma good_group: "good 1 (encode_group g) (read_struct type (group_field ctx) ctx) (clean_group g)"
  unfolding good_def encode_group_def enc_obj_Inr enc_members_Cons_Inr
proof (intro allI impI, elim exE conjE)
  fix v vs v1 vs1 v2 vs2 v3 vs3
  assume v: "v = JObj vs" "vs = (''group_id'', v1) # vs1" "vs1 = (''state'', v2) # vs2"
      "vs2 = (''last_commit_age_days'', v3) # vs3" "enc_members [] = Inr vs3"
    and r: "enc_str (GroupID g) = Inr v1" "enc_str (State g) = Inr v2" "enc_int (LastCommitAgeDays g) = Inr v3"
  note k = goodD[OF good_str r(1)] goodD[OF good_str r(2)] goodD[OF good_int r(3)]
  show "json_ok v \<and> json_depth v \<le> 1 \<and> (\<forall>old. read_struct type (group_field ctx) ctx v old = ([], clean_group g))"
    using v k(1,2,4,5,7,8)
    by (simp add: k keys_scan read_struct_obj field_keys group_field_def into_def Let_def clean_group_def)
qed

lemma good_broker: "good 1 (encode_broker b) (read_struct type (broker_field ctx) ctx) b"
  unfolding good_def encode_broker_def enc_obj_Inr enc_members_Cons_Inr
proof (intro allI impI, elim exE conjE)
  fix v vs v1 vs1 v2 vs2
  assume v: "v = JObj vs" "vs = (''id'', v1) # vs1" "vs1 = (''log_dir_bytes'', v2) # vs2" "enc_members [] = Inr vs2"
    and r: "enc_int (BrokerID b) = Inr v1" "enc_int (LogDirBytes b) = Inr v2"
  note k = goodD[OF good_int r(1)] goodD[OF good_int r(2)]
  show "json_ok v \<and> json_depth v \<le> 1 \<and> (\<forall>old. read_struct type (broker_field ctx) ctx v old = ([], b))"
    using v k(1,2,4,5)
    by (simp add: k keys_scan read_struct_obj field_keys broker_field_def into_def Let_def)
qed

text \<open>The parts of a topic before, at and after the optional member.\<close>

definition topic_head :: "topic \<Rightarrow> (gostring \<times> encoded) list" where
  "topic_head t =
     [(''name'', enc_str (Name t)), (''partitions'', enc_int (Partitions t)),
      (''replication_factor'', enc_int (ReplicationFactor t)), (''retention_ms'', enc_int (RetentionMs t)),
      (''compression_type'', enc_str (CompressionType t)), (''cleanup_policy'', enc_str (CleanupPolicy t)),
      (''retained_bytes'', enc_int (RetainedBytes t)), (''bytes_in_per_sec'', enc_float (BytesInPerSec t)),
      (''bytes_out_per_sec'', enc_float (BytesOutPerSec t)), (''throughput_source'', enc_str (ThroughputSource t))]"

definition topic_parts :: "topic \<Rightarrow> (gostring \<times> encoded) list" where
  "topic_parts t = (if PartitionBytes t = [] then []
     else [(''partition_bytes'', enc_arr (map enc_int (PartitionBytes t)))])"

definition topic_tail :: "topic \<Rightarrow> (gostring \<times> encoded) list" where
  "topic_tail t =
     [(''earliest_offset'', enc_int (EarliestOffset t)), (''latest_offset'', enc_int (LatestOffset t)),
      (''max_consumer_lag_ms'', enc_int (MaxConsumerLagMs t)), (''active_consumers'', enc_int (ActiveConsumers t))]"

definition members_ok :: "(gostring \<times> json) list \<Rightarrow> bool" where
  "members_ok ms \<longleftrightarrow> list_all (\<lambda>(k, v). scan_string (k @ dquote) = Some (k, []) \<and> json_ok v \<and> json_depth v \<le> 1) ms"

lemma read_members_append:
  "read_members field (ms @ ns) x =
     (let (e, y) = read_members field ms x; (es, z) = read_members field ns y in (e @ es, z))"
  by (induction field ms x rule: read_members.induct) (auto simp: Let_def split: prod.splits)

lemma topic_head_read:
  assumes "enc_members (topic_head t) = Inr vs" "topic_floats t"
  shows "members_ok vs" "read_members (topic_field ctx) vs old = ([], old\<lparr>Name := valid_utf8 (Name t),
    Partitions := Partitions t, ReplicationFactor := ReplicationFactor t, RetentionMs := RetentionMs t,
    CompressionType := valid_utf8 (CompressionType t), CleanupPolicy := valid_utf8 (CleanupPolicy t),
    RetainedBytes := RetainedBytes t, BytesInPerSec := BytesInPerSec t, BytesOutPerSec := BytesOutPerSec t,
    ThroughputSource := valid_utf8 (ThroughputSource t)\<rparr>)"
proof -
  obtain v1 v2 v3 v4 v5 v6 v7 v8 v9 v10 where
    vs: "vs = [(''name'', v1), (''partitions'', v2), (''replication_factor'', v3), (''retention_ms'', v4),
        (''compression_type'', v5), (''cleanup_policy'', v6), (''retained_bytes'', v7), (''bytes_in_per_sec'', v8),
        (''bytes_out_per_sec'', v9), (''throughput_source'', v10)]"
    and r: "enc_str (Name t) = Inr v1" "enc_int (Partitions t) = Inr v2" "enc_int (ReplicationFactor t) = Inr v3"
      "enc_int (RetentionMs t) = Inr v4" "enc_str (CompressionType t) = Inr v5" "enc_str (CleanupPolicy t) = Inr v6"
      "enc_int (RetainedBytes t) = Inr v7" "enc_float (BytesInPerSec t) = Inr v8"
      "enc_float (BytesOutPerSec t) = Inr v9" "enc_str (ThroughputSource t) = Inr v10"
    using assms(1) unfolding topic_head_def enc_members_Cons_Inr by auto
  have f: "f64_repr (BytesInPerSec t)" "f64_repr (BytesOutPerSec t)" using assms(2) by (auto simp: topic_floats_def)
  note g = goodD[OF good_str r(1)] goodD[OF good_int r(2)] goodD[OF good_int r(3)] goodD[OF good_int r(4)]
    goodD[OF good_str r(5)] goodD[OF good_str r(6)] goodD[OF good_int r(7)] goodD[OF good_float[OF f(1)] r(8)]
    goodD[OF good_float[OF f(2)] r(9)] goodD[OF good_str r(10)]
  show "members_ok vs" using g by (simp add: vs members_ok_def keys_scan)
  show "read_members (topic_field ctx) vs old = ([], old\<lparr>Name := valid_utf8 (Name t),
    Partitions := Partitions t, ReplicationFactor := ReplicationFactor t, RetentionMs := RetentionMs t,
    CompressionType := valid_utf8 (CompressionType t), CleanupPolicy := valid_utf8 (CleanupPolicy t),
    RetainedBytes := RetainedBytes t, BytesInPerSec := BytesInPerSec t, BytesOutPerSec := BytesOutPerSec t,
    ThroughputSource := valid_utf8 (ThroughputSource t)\<rparr>)"
    by (simp add: vs g field_keys topic_field_def into_def Let_def)
qed

lemma topic_parts_read:
  assumes "enc_members (topic_parts t) = Inr vs" "PartitionBytes old = []"
  shows "members_ok vs" "read_members (topic_field ctx) vs old = ([], old\<lparr>PartitionBytes := PartitionBytes t\<rparr>)"
proof -
  have "members_ok vs \<and> read_members (topic_field ctx) vs old = ([], old\<lparr>PartitionBytes := PartitionBytes t\<rparr>)"
  proof (cases "PartitionBytes t = []")
    case True
    then show ?thesis using assms by (simp add: topic_parts_def members_ok_def)
  next
    case False
    then have "topic_parts t = [(''partition_bytes'', enc_arr (map enc_int (PartitionBytes t)))]"
      by (simp add: topic_parts_def)
    then have "enc_members [(''partition_bytes'', enc_arr (map enc_int (PartitionBytes t)))] = Inr vs"
      using assms(1) by simp
    then obtain v where v: "vs = [(''partition_bytes'', v)]" "enc_arr (map enc_int (PartitionBytes t)) = Inr v"
      unfolding enc_members_Cons_Inr by auto
    have "good 1 (enc_arr (map enc_int (PartitionBytes t))) (read_slice type (read_int ty c1) zero c2) (map id (PartitionBytes t))" for type ty c1 zero c2
      using good_arr(1)[of "PartitionBytes t" 0 enc_int "read_int ty c1" id] good_int by simp
    note g = goodD[OF this v(2)]
    show ?thesis using g by (simp add: v(1) members_ok_def keys_scan field_keys topic_field_def into_def Let_def)
  qed
  then show "members_ok vs" "read_members (topic_field ctx) vs old = ([], old\<lparr>PartitionBytes := PartitionBytes t\<rparr>)" by auto
qed

lemma topic_tail_read:
  assumes "enc_members (topic_tail t) = Inr vs"
  shows "members_ok vs" "read_members (topic_field ctx) vs old = ([], old\<lparr>EarliestOffset := EarliestOffset t,
    LatestOffset := LatestOffset t, MaxConsumerLagMs := MaxConsumerLagMs t, ActiveConsumers := ActiveConsumers t\<rparr>)"
proof -
  obtain v1 v2 v3 v4 where
    vs: "vs = [(''earliest_offset'', v1), (''latest_offset'', v2), (''max_consumer_lag_ms'', v3), (''active_consumers'', v4)]"
    and r: "enc_int (EarliestOffset t) = Inr v1" "enc_int (LatestOffset t) = Inr v2"
      "enc_int (MaxConsumerLagMs t) = Inr v3" "enc_int (ActiveConsumers t) = Inr v4"
    using assms(1) unfolding topic_tail_def enc_members_Cons_Inr by auto
  note g = goodD[OF good_int r(1)] goodD[OF good_int r(2)] goodD[OF good_int r(3)] goodD[OF good_int r(4)]
  show "members_ok vs" using g by (simp add: vs members_ok_def keys_scan)
  show "read_members (topic_field ctx) vs old = ([], old\<lparr>EarliestOffset := EarliestOffset t,
    LatestOffset := LatestOffset t, MaxConsumerLagMs := MaxConsumerLagMs t, ActiveConsumers := ActiveConsumers t\<rparr>)"
    by (simp add: vs g field_keys topic_field_def into_def Let_def)
qed

lemma good_topic:
  assumes "topic_floats t" "encode_topic t = Inr v"
  shows "json_ok v" "json_depth v \<le> 2"
    "PartitionBytes old = [] \<Longrightarrow> read_struct type (topic_field ctx) ctx v old = ([], clean_topic t)"
proof -
  have "encode_topic t = enc_obj (topic_head t @ topic_parts t @ topic_tail t)"
    by (simp only: encode_topic_def topic_head_def topic_parts_def topic_tail_def append_assoc)
  then have "enc_obj (topic_head t @ topic_parts t @ topic_tail t) = Inr v" using assms(2) by simp
  then obtain h p l where v: "v = JObj (h @ p @ l)" and e: "enc_members (topic_head t) = Inr h"
    "enc_members (topic_parts t) = Inr p" "enc_members (topic_tail t) = Inr l"
    unfolding enc_obj_Inr enc_members_append_Inr by blast
  note r = topic_head_read[OF e(1) assms(1)] topic_parts_read[OF e(2)] topic_tail_read[OF e(3)]
  have m: "members_ok (h @ p @ l)"
    using r(1) r(3)[of zero_topic] r(5) by (simp add: members_ok_def zero_topic_def)
  show "json_ok v" using m unfolding v by (auto simp: members_ok_def list_all_iff)
  show "json_depth v \<le> 2" using m unfolding v members_ok_def json_depth.simps
    by (simp add: foldr_max_bound list_all_iff del: foldr_append map_append) fastforce
  show "PartitionBytes old = [] \<Longrightarrow> read_struct type (topic_field ctx) ctx v old = ([], clean_topic t)"
    by (simp add: v read_struct_obj read_members_append r clean_topic_def)
qed


lemma topic_elems:
  assumes "list_all topic_floats ts" "enc_elems (map encode_topic ts) = Inr vs"
  shows "list_all json_ok vs" "list_all (\<lambda>v. json_depth v \<le> 2) vs"
    "read_elems (read_struct type (topic_field ctx) ctx) zero_topic vs [] = ([], map clean_topic ts)"
proof -
  have "list_all json_ok vs \<and> list_all (\<lambda>v. json_depth v \<le> 2) vs \<and>
      read_elems (read_struct type (topic_field ctx) ctx) zero_topic vs [] = ([], map clean_topic ts)"
    using assms
  proof (induction ts arbitrary: vs)
    case (Cons t ts)
    obtain v ws where v: "vs = v # ws" "encode_topic t = Inr v" "enc_elems (map encode_topic ts) = Inr ws"
      using Cons.prems(2) by (auto split: sum.splits)
    have "topic_floats t" "PartitionBytes zero_topic = []" using Cons.prems(1) by (simp_all add: zero_topic_def)
    then show ?case using good_topic[OF _ v(2)] Cons.IH[OF _ v(3)] Cons.prems(1) by (simp add: v(1))
  qed simp
  then show "list_all json_ok vs" "list_all (\<lambda>v. json_depth v \<le> 2) vs"
    "read_elems (read_struct type (topic_field ctx) ctx) zero_topic vs [] = ([], map clean_topic ts)" by auto
qed

lemma topics_value:
  assumes "list_all topic_floats ts" "enc_slice (map encode_topic ts) = Inr v"
  shows "json_ok v" "json_depth v \<le> 3"
    "read_slice sl (read_struct type (topic_field ctx) ctx) zero_topic ctx v [] = ([], map clean_topic ts)"
proof -
  have "json_ok v \<and> json_depth v \<le> 3 \<and>
      read_slice sl (read_struct type (topic_field ctx) ctx) zero_topic ctx v [] = ([], map clean_topic ts)"
  proof (cases "ts = []")
    case True
    then show ?thesis using assms(2) by (auto simp: enc_slice_def read_slice_def)
  next
    case False
    then obtain vs where vs: "v = JArr vs" "enc_elems (map encode_topic ts) = Inr vs"
      using assms(2) by (auto simp: enc_slice_def enc_arr_Inr)
    note e = topic_elems[OF assms(1) vs(2)]
    have "foldr max (map json_depth vs) 0 \<le> 2" using e(2) by (simp add: foldr_max_bound list_all_iff)
    then show ?thesis using e(1,3) by (simp add: vs(1) read_slice_def)
  qed
  then show "json_ok v" "json_depth v \<le> 3"
    "read_slice sl (read_struct type (topic_field ctx) ctx) zero_topic ctx v [] = ([], map clean_topic ts)" by auto
qed

lemma snapshot_value:
  assumes "list_all topic_floats (Topics s)" "encode_snapshot s = Inr v"
  shows "json_ok v" "json_depth v \<le> 4"
    "read_struct type (snapshot_field msgs ctx) ctx v zero_snapshot = ([], clean_snapshot s)"
proof -
  obtain v1 v2 v3 v4 v5 where
    v: "v = JObj [(''taken_at'', v1), (''cluster'', v2), (''topics'', v3), (''groups'', v4), (''brokers'', v5)]"
    and r: "enc_time (TakenAt s) = Inr v1" "encode_cluster (Cluster s) = Inr v2"
      "enc_slice (map encode_topic (Topics s)) = Inr v3" "enc_arr (map encode_group (Groups s)) = Inr v4"
      "enc_arr (map encode_broker (Brokers s)) = Inr v5"
    using assms(2) unfolding encode_snapshot_def enc_obj_Inr enc_members_Cons_Inr by auto
  have gr: "good 2 (enc_arr (map encode_group (Groups s))) (read_slice sl (read_struct type (group_field c) c) zero c') (map clean_group (Groups s))" for sl type c zero c'
    using good_arr(1)[of "Groups s" 1 encode_group _ clean_group] good_group by (simp add: numeral_2_eq_2)
  have br: "good 2 (enc_arr (map encode_broker (Brokers s))) (read_slice sl (read_struct type (broker_field c) c) zero c') (map id (Brokers s))" for sl type c zero c'
    using good_arr(1)[of "Brokers s" 1 encode_broker _ id] good_broker by (simp add: numeral_2_eq_2)
  note g = goodD[OF good_time r(1)] goodD[OF good_cluster r(2)] topics_value[OF assms(1) r(3)]
    goodD[OF gr r(4)] goodD[OF br r(5)]
  show "json_ok v" using g by (simp add: v keys_scan)
  show "json_depth v \<le> 4" using g by (simp add: v)
  show "read_struct type (snapshot_field msgs ctx) ctx v zero_snapshot = ([], clean_snapshot s)"
    by (simp add: v g read_struct_obj field_keys snapshot_field_def into_def Let_def zero_snapshot_def clean_snapshot_def)
qed

subsection \<open>The round trip\<close>

lemma skip_newline: "skip_ws newline = []" "num_end newline" "num_end []"
  by (simp_all add: newline_def is_ws_def num_end_def num_char_def in_range_def byte_def)

lemma unmarshal_marshal:
  assumes "list_all topic_floats (Topics s)" "marshal_indent (encode_snapshot s) = Inr data"
  shows "unmarshal_snapshot msgs (data @ newline) = Inr (clean_snapshot s)"
proof -
  obtain v where v: "encode_snapshot s = Inr v" "data = print_json 0 v"
    using assms(2) by (auto simp: marshal_indent_def split: sum.splits)
  note k = snapshot_value[OF assms(1) v(1)]
  have "parse_json (data @ newline) = Some v"
    unfolding v(2) using k skip_newline by (intro parse_print) (auto simp: maxNestingDepth_def)
  then show ?thesis by (simp add: unmarshal_snapshot_def k unmarshal_result_def)
qed

text \<open>When nothing but valid UTF-8 is in it, the snapshot is unchanged.\<close>

definition snapshot_utf8 :: "snapshot \<Rightarrow> bool" where
  "snapshot_utf8 s \<longleftrightarrow> utf8_ok (ClusterName (Cluster s)) \<and> utf8_ok (ClusterProvider (Cluster s)) \<and>
     list_all (\<lambda>t. utf8_ok (Name t) \<and> utf8_ok (CompressionType t) \<and> utf8_ok (CleanupPolicy t) \<and>
       utf8_ok (ThroughputSource t)) (Topics s) \<and>
     list_all (\<lambda>g. utf8_ok (GroupID g) \<and> utf8_ok (State g)) (Groups s)"

lemma clean_snapshot_utf8: "snapshot_utf8 s \<Longrightarrow> clean_snapshot s = s"
proof -
  assume u: "snapshot_utf8 s"
  have "map clean_topic (Topics s) = Topics s"
    using u by (intro map_idI) (auto simp: snapshot_utf8_def list_all_iff clean_topic_def valid_utf8_ok)
  moreover have "map clean_group (Groups s) = Groups s"
    using u by (intro map_idI) (auto simp: snapshot_utf8_def list_all_iff clean_group_def valid_utf8_ok)
  moreover have "clean_cluster (Cluster s) = Cluster s"
    using u by (simp add: snapshot_utf8_def clean_cluster_def valid_utf8_ok)
  ultimately show "clean_snapshot s = s" by (simp add: clean_snapshot_def)
qed

text \<open>Encoding fails only for a number that is none or a time outside the years 0 to 9999.\<close>

lemma enc_elems_total: "(\<And>r. r \<in> set rs \<Longrightarrow> \<exists>v. r = Inr v) \<Longrightarrow> \<exists>vs. enc_elems rs = Inr vs"
  by (induction rs) (force split: sum.splits)+

lemma enc_members_total: "(\<And>k r. (k, r) \<in> set ms \<Longrightarrow> \<exists>v. r = Inr v) \<Longrightarrow> \<exists>vs. enc_members ms = Inr vs"
  by (induction ms) (force split: sum.splits)+

end
