(* ===== verification/ReportJson.thy ===== *)
theory ReportJson
  imports Commands SnapshotFacts Samples
begin

text \<open>
  The JSON reports can be read back: what \<open>scan --json\<close> and \<open>cost --json\<close> write is one JSON
  document, with an element for each finding and each topic, whose figures parse to the very
  \<open>float64\<close> of the engine. It is written exactly when every number in it is finite (and the
  year of the snapshot has four digits).
\<close>

subsection \<open>Texts that can be read\<close>

definition enc_ok :: "nat \<Rightarrow> encoded \<Rightarrow> bool" where
  "enc_ok n r \<longleftrightarrow> (\<forall>v. r = Inr v \<longrightarrow> json_ok v \<and> json_depth v \<le> n)"

named_theorems enc_ok_intros

lemma good_enc_ok: "good n r dec x \<Longrightarrow> enc_ok n r"
  by (simp add: good_def enc_ok_def)

lemma enc_ok_mono: "enc_ok m r \<Longrightarrow> m \<le> n \<Longrightarrow> enc_ok n r"
  by (force simp: enc_ok_def)

lemma enc_ok_scalars [enc_ok_intros]:
  "enc_ok n (enc_str s)" "enc_ok n (enc_int w)" "enc_ok n (enc_bool b)" "enc_ok n (enc_time t)"
proof -
  have "enc_ok 0 (enc_str s)" by (rule good_enc_ok[OF good_str])
  moreover have "enc_ok 0 (enc_int w)" by (rule good_enc_ok[OF good_int])
  moreover have "enc_ok 0 (enc_bool b)" by (simp add: enc_ok_def enc_bool_def)
  moreover have "enc_ok 0 (enc_time t)" by (rule good_enc_ok[OF good_time])
  ultimately show "enc_ok n (enc_str s)" "enc_ok n (enc_int w)" "enc_ok n (enc_bool b)" "enc_ok n (enc_time t)"
    by (auto intro: enc_ok_mono)
qed

lemma enc_ok_float [enc_ok_intros]: "f64_repr x \<Longrightarrow> enc_ok n (enc_float x)"
  using enc_ok_mono[OF good_enc_ok[OF good_float], of x n] by simp

lemma enc_ok_elems:
  "\<forall>r \<in> set rs. enc_ok n r \<Longrightarrow> enc_elems rs = Inr vs \<Longrightarrow> list_all json_ok vs \<and> list_all (\<lambda>v. json_depth v \<le> n) vs"
  by (induction rs arbitrary: vs) (auto simp: enc_ok_def split: sum.splits)

lemma enc_ok_arr [enc_ok_intros]: "\<forall>r \<in> set rs. enc_ok n r \<Longrightarrow> enc_ok (Suc n) (enc_arr rs)"
  using enc_ok_elems[of rs n]
  by (auto simp: enc_ok_def[of "Suc n"] enc_arr_Inr foldr_max_bound list_all_iff)

lemma enc_ok_slice [enc_ok_intros]: "\<forall>r \<in> set rs. enc_ok n r \<Longrightarrow> enc_ok (Suc n) (enc_slice rs)"
  using enc_ok_arr[of rs n] by (simp add: enc_slice_def enc_ok_def)

lemma enc_ok_members:
  "\<forall>(k, r) \<in> set ms. scan_string (k @ dquote) = Some (k, []) \<and> enc_ok n r \<Longrightarrow> enc_members ms = Inr vs \<Longrightarrow>
     \<forall>(k, v) \<in> set vs. scan_string (k @ dquote) = Some (k, []) \<and> json_ok v \<and> json_depth v \<le> n"
proof (induction ms arbitrary: vs)
  case (Cons m ms)
  obtain k r where m: "m = (k, r)" by (cases m)
  then obtain v ws where "vs = (k, v) # ws" "r = Inr v" "enc_members ms = Inr ws"
    using Cons.prems(2) unfolding m enc_members_Cons_Inr by blast
  then show ?case using Cons m by (simp add: enc_ok_def)
qed simp

lemma enc_ok_obj [enc_ok_intros]:
  "\<forall>(k, r) \<in> set ms. scan_string (k @ dquote) = Some (k, []) \<and> enc_ok n r \<Longrightarrow> enc_ok (Suc n) (enc_obj ms)"
  unfolding enc_ok_def[of "Suc n"] enc_obj_Inr
  by (auto simp: foldr_max_bound list_all_iff dest!: enc_ok_members)

lemma enc_ok_map [enc_ok_intros]:
  "\<forall>(k, r) \<in> set ms. enc_ok n r \<Longrightarrow> enc_ok (Suc n) (enc_map ms)"
  using scan_quoted[of _ "[]"] unfolding enc_map_def by (intro enc_ok_obj) (auto simp: dquote_def)

lemma encoder_text_parses:
  assumes "encoder_text r = Inr t" "enc_ok n r" "n \<le> maxNestingDepth"
  shows "\<exists>v. r = Inr v \<and> parse_json t = Some v"
proof -
  obtain v where v: "r = Inr v" "t = print_json 0 v @ newline"
    using assms(1) by (auto simp: encoder_text_def split: sum.splits)
  then have "json_ok v" "json_depth v \<le> maxNestingDepth" using assms(2,3) by (auto simp: enc_ok_def)
  then have "parse_json t = Some v" unfolding v(2) using skip_newline by (intro parse_print) auto
  then show ?thesis using v(1) by blast
qed

subsection \<open>The numbers of a finding\<close>

definition evidence_nums :: "(gostring \<times> evidence) list \<Rightarrow> f64 list" where
  "evidence_nums es = concat (map (\<lambda>(k, e). case e of EvFloat x \<Rightarrow> [x] | _ \<Rightarrow> []) es)"

definition finding_nums :: "finding \<Rightarrow> f64 list" where
  "finding_nums f = EstSavingEUR f # evidence_nums (Evidence f)"

lemma evidence_nums_simps [simp]:
  "evidence_nums [] = []" "evidence_nums ((k, EvFloat x) # es) = x # evidence_nums es"
  "evidence_nums ((k, EvInt w) # es) = evidence_nums es" "evidence_nums ((k, EvStr s) # es) = evidence_nums es"
  "evidence_nums ((k, EvBool b) # es) = evidence_nums es"
  by (simp_all add: evidence_nums_def)

lemma f64_repr_rnd: "f64_repr (rnd s q)"
  using rnd_f64_ok by (auto simp: f64_repr_def)

lemma f64_repr_mkz: "f64_repr (mkz s 0)"
  by (cases s) (simp_all add: f64_repr_def f64_ok_def mkz_def)

lemma f64_repr_odd: "f64_repr NaN" "f64_repr (Inf s)" "f64_repr 0"
  by (simp_all add: f64_repr_def)

lemma f64_repr_div: "f64_repr (a / b)"
  by (simp add: divide_f64_def fdiv_def f64_repr_rnd f64_repr_mkz f64_repr_odd)

lemma f64_repr_add: "f64_repr a \<Longrightarrow> f64_repr b \<Longrightarrow> f64_repr (a + b)"
  by (simp add: plus_f64_def fadd_def f64_repr_rnd f64_repr_odd)

lemma f64_repr_round2: "f64_repr (round2 x)"
  by (simp add: round2_def f64_repr_div)

lemmas f64_reprs = f64_repr_odd f64_repr_round2

lemma rule_nums:
  assumes "topic_floats t"
  shows "list_all f64_repr (finding_nums (r1_finding ctx t))"
    "list_all f64_repr (finding_nums (r2_finding g))"
    "list_all f64_repr (finding_nums (r3_finding ctx t p))"
    "list_all f64_repr (finding_nums (r4_finding ctx t p))"
    "list_all f64_repr (finding_nums (r5_finding ctx t))"
    "list_all f64_repr (finding_nums (r6_finding ctx t pat))"
    "list_all f64_repr (finding_nums (r7_finding t ss m x))"
    "list_all f64_repr (finding_nums (r8_finding ctx t sfx))"
proof -
  have t: "f64_repr (BytesInPerSec t)" using assms by (simp add: topic_floats_def)
  show "list_all f64_repr (finding_nums (r1_finding ctx t))"
    using t by (simp add: finding_nums_def r1_finding_def Let_def f64_reprs)
  show "list_all f64_repr (finding_nums (r2_finding g))"
    by (simp add: finding_nums_def r2_finding_def Let_def f64_reprs)
  show "list_all f64_repr (finding_nums (r3_finding ctx t p))"
    by (simp add: finding_nums_def r3_finding_def Let_def f64_reprs)
  show "list_all f64_repr (finding_nums (r4_finding ctx t p))"
    by (simp add: finding_nums_def r4_finding_shape f64_reprs)
  show "list_all f64_repr (finding_nums (r5_finding ctx t))"
    using t by (simp add: finding_nums_def r5_finding_def Let_def f64_reprs)
  show "list_all f64_repr (finding_nums (r6_finding ctx t pat))"
    by (simp add: finding_nums_def r6_finding_def Let_def f64_reprs)
  show "list_all f64_repr (finding_nums (r7_finding t ss m x))"
    by (simp add: finding_nums_def r7_finding_def Let_def f64_reprs)
  show "list_all f64_repr (finding_nums (r8_finding ctx t sfx))"
    by (simp add: finding_nums_def r8_finding_def Let_def f64_reprs)
qed

lemma walk_nums:
  assumes "walk f xs = Some ys" "y \<in> set ys" "\<And>x y. x \<in> set xs \<Longrightarrow> f x = Emit y \<Longrightarrow> P y"
  shows "P y"
  using assms walk_set[OF assms(1), of y] by blast

lemma registry_nums:
  assumes "r \<in> set registry" "rule_eval r ctx = Some fs" "f \<in> set fs" "list_all topic_floats (Topics (snap ctx))"
  shows "list_all f64_repr (finding_nums f)"
proof -
  have t: "topic_floats t" if "t \<in> set (Topics (snap ctx))" for t using assms(4) that by (simp add: list_all_iff)
  consider "evalR1 ctx = Some fs" | "evalR2 ctx = Some fs" | "evalR3 ctx = Some fs" | "evalR4 ctx = Some fs"
    | "evalR5 ctx = Some fs" | "evalR6 ctx = Some fs" | "evalR7 ctx = Some fs" | "evalR8 ctx = Some fs"
    using assms(1,2) unfolding registry_def by auto
  then show ?thesis
  proof cases
    case 1
    then show ?thesis unfolding evalR1_def by (rule walk_nums[OF _ assms(3)]) (auto simp: r1_emit intro: rule_nums t)
  next
    case 2
    then show ?thesis unfolding evalR2_def
      by (rule walk_nums[OF _ assms(3)]) (auto simp: r2_emit finding_nums_def r2_finding_def f64_reprs)
  next
    case 3
    then show ?thesis unfolding evalR3_def
      by (rule walk_nums[OF _ assms(3)]) (auto simp: r3_emit Let_def intro: rule_nums t)
  next
    case 4
    then show ?thesis unfolding evalR4_def by (rule walk_nums[OF _ assms(3)]) (auto simp: r4_emit intro: rule_nums t)
  next
    case 5
    then show ?thesis unfolding evalR5_def by (rule walk_nums[OF _ assms(3)]) (auto simp: r5_emit intro: rule_nums t)
  next
    case 6
    then show ?thesis unfolding evalR6_def by (rule walk_nums[OF _ assms(3)]) (auto simp: r6_emit intro: rule_nums t)
  next
    case 7
    then show ?thesis unfolding evalR7_def
      by (rule walk_nums[OF _ assms(3)]) (auto elim!: r7_emitD intro: rule_nums t)
  next
    case 8
    then show ?thesis unfolding evalR8_def by (rule walk_nums[OF _ assms(3)]) (auto simp: r8_emit intro: rule_nums t)
  qed
qed

lemma evaluate_nums:
  assumes "evaluate [s] cm c = Some fs" "list_all topic_floats (Topics s)"
  shows "list_all (\<lambda>f. list_all f64_repr (finding_nums f)) fs" "f64_repr (totalSavingsEUR fs)"
proof -
  show a: "list_all (\<lambda>f. list_all f64_repr (finding_nums f)) fs"
    unfolding list_all_iff[of _ fs]
  proof
    fix f
    assume "f \<in> set fs"
    then obtain s' r gs where "latest [s] = Some s'" "r \<in> set registry"
      "rule_eval r (eval_context s' cm c) = Some gs" "f \<in> set gs"
      using evaluate_origin[OF assms(1)] by metis
    then show "list_all f64_repr (finding_nums f)" using assms(2) registry_nums by (simp add: latest_def)
  qed
  have total: "f64_repr acc \<Longrightarrow> list_all (\<lambda>f. f64_repr (EstSavingEUR f)) gs \<Longrightarrow>
      f64_repr (fold (\<lambda>f acc. acc + EstSavingEUR f) gs acc)" for acc gs
    by (induction gs arbitrary: acc) (auto intro: f64_repr_add)
  have "list_all (\<lambda>f. f64_repr (EstSavingEUR f)) fs" using a by (auto simp: list_all_iff finding_nums_def)
  then show "f64_repr (totalSavingsEUR fs)" using total[of 0 fs] by (simp add: totalSavingsEUR_def f64_repr_odd)
qed

subsection \<open>When a text is written\<close>

lemma enc_obj_fails [simp]: "isl (enc_obj ms) \<longleftrightarrow> list_ex (\<lambda>(k, r). isl r) ms"
proof -
  have "isl (enc_members ms) \<longleftrightarrow> list_ex (\<lambda>(k, r). isl r) ms"
  proof (induction ms)
    case (Cons m ms)
    obtain k r where m: "m = (k, r)" by (cases m)
    show ?case using Cons.IH by (cases r; cases "enc_members ms") (simp_all add: m)
  qed simp
  then show ?thesis by (cases "enc_members ms") (simp_all add: enc_obj_def)
qed

lemma enc_arr_fails [simp]: "isl (enc_arr rs) \<longleftrightarrow> list_ex isl rs"
proof -
  have "isl (enc_elems rs) \<longleftrightarrow> list_ex isl rs"
  proof (induction rs)
    case (Cons r rs)
    show ?case using Cons.IH by (cases r; cases "enc_elems rs") simp_all
  qed simp
  then show ?thesis by (cases "enc_elems rs") (simp_all add: enc_arr_def)
qed

lemma enc_slice_fails [simp]: "isl (enc_slice rs) \<longleftrightarrow> list_ex isl rs"
  by (simp add: enc_slice_def)

lemma enc_map_fails [simp]: "isl (enc_map ms) \<longleftrightarrow> list_ex (\<lambda>(k, r). isl r) ms"
  by (simp add: enc_map_def list_ex_iff case_prod_unfold)

lemma enc_scalar_fails [simp]:
  "\<not> isl (enc_str s)" "\<not> isl (enc_int w)" "\<not> isl (enc_bool b)" "isl (enc_float x) \<longleftrightarrow> \<not> is_fin x"
  "isl (enc_time t) \<longleftrightarrow> isl (MarshalTime t)"
  using json_float_None[of x]
  by (auto simp: enc_str_def enc_int_def enc_bool_def enc_float_def enc_time_def split: option.splits sum.splits)

lemma omitempty_fails [simp]: "\<not> list_ex (\<lambda>(k, r). isl r) (omitempty k s)"
  by (simp add: omitempty_def)

lemma encoder_text_fails [simp]: "isl (encoder_text r) \<longleftrightarrow> isl r" "isl (marshal_indent r) \<longleftrightarrow> isl r"
  by (cases r; simp add: encoder_text_def marshal_indent_def)+

lemma encode_evidence_fails: "isl (encode_evidence e) \<longleftrightarrow> (\<exists>x. e = EvFloat x \<and> \<not> is_fin x)"
  by (cases e) (simp_all add: encode_evidence_def)

lemma evidence_fails:
  "list_ex (\<lambda>(k, r). isl r) (map (\<lambda>(k, e). (k, encode_evidence e)) es) \<longleftrightarrow> \<not> list_all is_fin (evidence_nums es)"
proof (induction es)
  case (Cons p es)
  obtain k e where "p = (k, e)" by (cases p)
  then show ?case using Cons.IH by (cases e) (simp_all add: encode_evidence_fails)
qed simp

lemma encode_finding_fails: "isl (encode_finding f) \<longleftrightarrow> \<not> list_all is_fin (finding_nums f)"
  using evidence_fails[of "Evidence f"]
  by (auto simp: encode_finding_def finding_nums_def encode_remediation_def)

lemma scan_json_fails:
  "isl (scan_json s fs) \<longleftrightarrow> isl (MarshalTime (TakenAt s)) \<or> \<not> is_fin (totalSavingsEUR fs) \<or>
     list_ex (\<lambda>f. list_ex (\<lambda>x. \<not> is_fin x) (finding_nums f)) fs"
  by (auto simp: scan_json_def encode_finding_fails list_ex_iff list_all_iff)

text \<open>The times \<open>MarshalJSON\<close> can write: RFC 3339 has four digits for the year and two for the hour
  of the zone.\<close>

definition time_writable :: "gotime \<Rightarrow> bool" where
  "time_writable t \<longleftrightarrow> 0 \<le> year_of t \<and> year_of t \<le> 9999 \<and> \<bar>ZoneMinutes t\<bar> div 60 < 24"

lemma MarshalTime_fails: "isl (MarshalTime t) \<longleftrightarrow> \<not> time_writable t"
  by (auto simp: MarshalTime_def time_writable_def)

text \<open>C15: \<open>scan --json\<close> writes its report exactly when every figure in the report is finite and
  the time of the snapshot can be written as RFC 3339: its year is one of 0 to 9999 and its zone
  is less than 24 hours from UTC. Otherwise it writes nothing at all and returns the error of the
  encoder. An infinite \<open>--cost\<close> is one way to get there, a file with a zone of 24 hours another.\<close>

theorem scan_json_written:
  "(if time_writable (TakenAt s) \<and> is_fin (totalSavingsEUR fs) \<and>
       list_all (\<lambda>f. list_all is_fin (finding_nums f)) fs
    then \<exists>t. encoder_text (scan_json s fs) = Inr t \<and> emitJSON out s fs w = out t w
    else \<exists>e. encoder_text (scan_json s fs) = Inl e \<and> emitJSON out s fs w = (Inl e, w))"
proof -
  have "isl (encoder_text (scan_json s fs)) = False \<longleftrightarrow>
       time_writable (TakenAt s) \<and> is_fin (totalSavingsEUR fs) \<and>
       list_all (\<lambda>f. list_all is_fin (finding_nums f)) fs"
    by (auto simp: scan_json_fails list_ex_iff list_all_iff MarshalTime_fails)
  then show ?thesis
    by (cases "encoder_text (scan_json s fs)") (auto simp: emitJSON_def emit_def liftE_def bindE_def)
qed

subsection \<open>What is read back\<close>

definition json_get :: "gostring \<Rightarrow> json \<Rightarrow> json option" where
  "json_get k v = (case v of JObj ms \<Rightarrow> map_of ms k | _ \<Rightarrow> None)"

definition shows_float :: "f64 \<Rightarrow> json option \<Rightarrow> bool" where
  "shows_float x v = (case v of Some (JNum t) \<Rightarrow> ParseFloat t = Inr x | _ \<Rightarrow> False)"

definition shows_str :: "gostring \<Rightarrow> json option \<Rightarrow> bool" where
  "shows_str s v = (case v of Some (JStr raw) \<Rightarrow> json_unquote raw = valid_utf8 s | _ \<Rightarrow> False)"

definition shows_finding :: "finding \<Rightarrow> json \<Rightarrow> bool" where
  "shows_finding f v \<longleftrightarrow>
     shows_str (RuleID f) (json_get ''rule_id'' v) \<and> shows_str (ResourceKey f) (json_get ''resource_key'' v) \<and>
     shows_str (Basis f) (json_get ''basis'' v) \<and> shows_float (EstSavingEUR f) (json_get ''est_saving_eur'' v)"

lemma shows_encoded:
  "f64_repr x \<Longrightarrow> enc_float x = Inr v \<Longrightarrow> shows_float x (Some v)"
  "enc_str s = Inr v \<Longrightarrow> shows_str s (Some v)"
proof -
  assume "f64_repr x" "enc_float x = Inr v"
  then have "f64_ok x" "\<exists>t. json_float x = Some t \<and> v = JNum t"
    using json_float_None[of x] by (auto simp: f64_repr_def enc_float_def split: option.splits)
  then show "shows_float x (Some v)" using ParseFloat_json_float[of x] by (auto simp: shows_float_def)
next
  assume "enc_str s = Inr v"
  then show "shows_str s (Some v)" by (auto simp: enc_str_def shows_str_def unquote_quote)
qed

lemma report_keys:
  "list_all (\<lambda>k. scan_string (k @ dquote) = Some (k, []))
     [''rule_id'', ''rule_version'', ''title'', ''severity'', ''resource_key'', ''evidence'', ''est_saving_eur'',
      ''basis'', ''confidence'', ''remediation'', ''summary'', ''kafka_configs_cmd'', ''terraform_diff'',
      ''strimzi_yaml'', ''one_click'', ''topic'', ''eur_per_month'', ''team'', ''storage'', ''throughput'', ''partition'']"
  by code_simp

lemmas report_keys_scan = report_keys[simplified]

lemma enc_ok_evidence: "list_all f64_repr (evidence_nums es) \<Longrightarrow> \<forall>(k, r) \<in> set (map (\<lambda>(k, e). (k, encode_evidence e)) es). enc_ok 0 r"
proof (induction es)
  case (Cons p es)
  obtain k e where "p = (k, e)" by (cases p)
  then show ?case using Cons by (cases e) (auto simp: encode_evidence_def intro: enc_ok_intros)
qed simp

lemma enc_ok_remediation: "enc_ok 1 (encode_remediation r)"
  unfolding encode_remediation_def One_nat_def
  by (intro enc_ok_obj) (auto simp: omitempty_def report_keys_scan intro: enc_ok_intros)

lemma enc_ok_finding: "list_all f64_repr (finding_nums f) \<Longrightarrow> enc_ok 2 (encode_finding f)"
proof -
  assume f: "list_all f64_repr (finding_nums f)"
  then have "enc_ok 1 (enc_map (map (\<lambda>(k, e). (k, encode_evidence e)) (Evidence f)))"
    unfolding One_nat_def by (intro enc_ok_map enc_ok_evidence) (simp add: finding_nums_def)
  then show "enc_ok 2 (encode_finding f)"
    using f enc_ok_remediation[of "Remediation f"] unfolding encode_finding_def numeral_2_eq_2
    by (intro enc_ok_obj) (auto simp: report_keys_scan finding_nums_def intro: enc_ok_intros)
qed

lemma encoded_finding_shows:
  assumes "list_all f64_repr (finding_nums f)" "encode_finding f = Inr v"
  shows "shows_finding f v"
proof -
  have x: "f64_repr (EstSavingEUR f)" using assms(1) by (simp add: finding_nums_def)
  from assms(2) obtain v1 v2 v3 v4 v5 v6 v7 v8 v9 v10 where
    v: "v = JObj [(''rule_id'', v1), (''rule_version'', v2), (''title'', v3), (''severity'', v4), (''resource_key'', v5),
        (''evidence'', v6), (''est_saving_eur'', v7), (''basis'', v8), (''confidence'', v9), (''remediation'', v10)]"
    and r: "enc_str (RuleID f) = Inr v1" "enc_str (ResourceKey f) = Inr v5" "enc_float (EstSavingEUR f) = Inr v7"
      "enc_str (Basis f) = Inr v8"
    unfolding encode_finding_def enc_obj_Inr enc_members_Cons_Inr by auto
  note s = shows_encoded(2)[OF r(1)] shows_encoded(2)[OF r(2)] shows_encoded(1)[OF x r(3)] shows_encoded(2)[OF r(4)]
  then show ?thesis by (simp add: shows_finding_def json_get_def v)
qed

lemma encoded_list_shows:
  assumes "\<And>y v. y \<in> set ys \<Longrightarrow> enc y = Inr v \<Longrightarrow> shows y v" "enc_elems (map enc ys) = Inr vs"
  shows "list_all2 shows ys vs"
  using assms
proof (induction ys arbitrary: vs)
  case (Cons y ys)
  obtain v ws where "vs = v # ws" "enc y = Inr v" "enc_elems (map enc ys) = Inr ws"
    using Cons.prems(2) by (auto split: sum.splits)
  then show ?case using Cons.prems(1) Cons.IH[of ws] by simp
qed simp

lemma key_quotes:
  "json_quote ''cluster'' = ''cluster''" "json_quote ''findings'' = ''findings''" "json_quote ''taken_at'' = ''taken_at''"
  "json_quote ''total_saving_eur'' = ''total_saving_eur''" "json_quote ''topics'' = ''topics''"
  "json_quote ''weights'' = ''weights''" "json_quote ''monthly_cost_eur'' = ''monthly_cost_eur''"
  by code_simp+

lemma scan_json_members:
  "scan_json s fs =
     enc_obj [(''cluster'', enc_str (ClusterName (Cluster s))), (''findings'', enc_slice (map encode_finding fs)),
              (''taken_at'', enc_time (TakenAt s)), (''total_saving_eur'', enc_float (totalSavingsEUR fs))]"
proof -
  have "sort_key fst [(''cluster'', a), (''taken_at'', b), (''total_saving_eur'', c), (''findings'', d)] =
      [(''cluster'', a), (''findings'', d), (''taken_at'', b), (''total_saving_eur'', c)]" for a b c d :: encoded
    by (simp add: less_list_code less_char_def)
  then show ?thesis by (simp add: scan_json_def enc_map_def key_quotes)
qed

text \<open>C9: What \<open>scan --json\<close> writes is one JSON document that parses back to the report: one
  element for each finding, in the order of the ranking, each with the rule, the resource and the
  basis, and a saving and a total that parse to the very numbers of the engine. With no findings
  the list is \<open>null\<close>, not empty.\<close>

theorem scan_json_complete:
  assumes "evaluate [s] cm c = Some fs" "list_all topic_floats (Topics s)"
    and "encoder_text (scan_json s fs) = Inr t"
  shows "\<exists>v. parse_json t = Some v \<and> shows_str (ClusterName (Cluster s)) (json_get ''cluster'' v) \<and>
     shows_float (totalSavingsEUR fs) (json_get ''total_saving_eur'' v) \<and>
     (\<exists>raw. json_get ''taken_at'' v = Some (JStr raw) \<and> ParseRFC3339 raw = Some (TakenAt s)) \<and>
     (if fs = [] then json_get ''findings'' v = Some JNull
      else \<exists>vs. json_get ''findings'' v = Some (JArr vs) \<and> list_all2 shows_finding fs vs)"
proof -
  note nums = evaluate_nums[OF assms(1,2)]
  have f: "list_all f64_repr (finding_nums f)" if "f \<in> set fs" for f using nums(1) that by (simp add: list_all_iff)
  have "enc_ok 3 (enc_slice (map encode_finding fs))"
    using f unfolding numeral_3_eq_3 by (intro enc_ok_slice) (auto intro: enc_ok_finding simp flip: numeral_2_eq_2)
  then have "enc_ok 4 (scan_json s fs)"
    using nums(2) unfolding scan_json_def eval_nat_numeral
    by (intro enc_ok_map) (auto simp: numeral_3_eq_3 intro: enc_ok_intros)
  then obtain v where v: "scan_json s fs = Inr v" "parse_json t = Some v"
    using encoder_text_parses[OF assms(3), of 4] by (auto simp: maxNestingDepth_def)
  from v(1) obtain v1 v2 v3 v4 where
    ms: "v = JObj [(''cluster'', v1), (''findings'', v2), (''taken_at'', v3), (''total_saving_eur'', v4)]"
    and r: "enc_str (ClusterName (Cluster s)) = Inr v1" "enc_slice (map encode_finding fs) = Inr v2"
      "enc_time (TakenAt s) = Inr v3" "enc_float (totalSavingsEUR fs) = Inr v4"
    unfolding scan_json_members enc_obj_Inr enc_members_Cons_Inr by auto
  have "\<exists>raw. v3 = JStr raw \<and> ParseRFC3339 raw = Some (TakenAt s)"
    using r(3) MarshalTime_parses by (auto simp: enc_time_def split: sum.splits)
  moreover have "if fs = [] then v2 = JNull else \<exists>vs. v2 = JArr vs \<and> list_all2 shows_finding fs vs"
    using r(2) encoded_list_shows[of fs encode_finding shows_finding] encoded_finding_shows[OF f]
    by (auto simp: enc_slice_def enc_arr_Inr)
  moreover note shows_encoded(2)[OF r(1)] shows_encoded(1)[OF nums(2) r(4)]
  ultimately show ?thesis by (intro exI[of _ v]) (simp add: v(2) json_get_def ms)
qed

subsection \<open>brod cost --json\<close>

definition shows_topic :: "teamFlags \<Rightarrow> topicCost \<Rightarrow> json \<Rightarrow> bool" where
  "shows_topic teams a v \<longleftrightarrow>
     shows_str (tc_Name a) (json_get ''topic'' v) \<and> shows_float (tc_EUR a) (json_get ''eur_per_month'' v) \<and>
     shows_str (tc_Basis a) (json_get ''basis'' v) \<and>
     (if teams = [] \<or> teamFor teams (tc_Name a) = '''' then json_get ''team'' v = None
      else shows_str (teamFor teams (tc_Name a)) (json_get ''team'' v))"

lemma f64_repr_mul: "f64_repr (a * b)"
  using mul_f64_ok by (auto simp: f64_repr_def)

lemma f64_repr_fl: "f64_repr (fl q)"
  by (simp add: fl_def f64_repr_rnd)

lemma allocate_nums: "a \<in> set (allocate m ts) \<Longrightarrow> f64_repr (tc_EUR a)"
  by (auto simp: allocate_def allocate_one_def f64_repr_mul f64_repr_odd split: prod.splits if_splits)

lemma enc_ok_weights: "enc_ok 1 (encode_weights defaultWeights)"
  unfolding encode_weights_def One_nat_def
  by (intro enc_ok_obj) (auto simp: report_keys_scan defaultWeights_def f64_repr_fl intro: enc_ok_intros)

lemma enc_ok_topicOut: "f64_repr (tc_EUR a) \<Longrightarrow> enc_ok 1 (topicOut teams a)"
  unfolding topicOut_def One_nat_def
  by (intro enc_ok_obj) (auto simp: report_keys_scan omitempty_def intro: enc_ok_intros)

lemma encoded_topic_shows:
  assumes "f64_repr (tc_EUR a)" "topicOut teams a = Inr v"
  shows "shows_topic teams a v"
proof -
  let ?tm = "teamFor teams (tc_Name a)"
  let ?team = "if teams = [] then [] else omitempty ''team'' ?tm"
  have "enc_obj ([(''topic'', enc_str (tc_Name a)), (''eur_per_month'', enc_float (tc_EUR a))] @ ?team @
      [(''basis'', enc_str (tc_Basis a))]) = Inr v"
    using assms(2) by (simp add: topicOut_def)
  then obtain us ts ws where v: "v = JObj (us @ ts @ ws)" and t: "enc_members ?team = Inr ts"
    and u: "enc_members [(''topic'', enc_str (tc_Name a)), (''eur_per_month'', enc_float (tc_EUR a))] = Inr us"
    and w: "enc_members [(''basis'', enc_str (tc_Basis a))] = Inr ws"
    unfolding enc_obj_Inr enc_members_append_Inr by blast
  obtain v1 v2 where us: "us = [(''topic'', v1), (''eur_per_month'', v2)]"
    "enc_str (tc_Name a) = Inr v1" "enc_float (tc_EUR a) = Inr v2"
    using u unfolding enc_members_Cons_Inr by auto
  obtain v3 where ws: "ws = [(''basis'', v3)]" "enc_str (tc_Basis a) = Inr v3"
    using w unfolding enc_members_Cons_Inr by auto
  note s = shows_encoded(2)[OF us(2)] shows_encoded(1)[OF assms(1) us(3)] shows_encoded(2)[OF ws(2)]
  show ?thesis
  proof (cases "teams = [] \<or> ?tm = ''''")
    case True
    then have "?team = []" by (auto simp: omitempty_def)
    then have "ts = []" using t by (simp only: enc_members.simps) simp
    then show ?thesis using s True by (simp add: shows_topic_def json_get_def v us(1) ws(1))
  next
    case False
    then have "enc_members [(''team'', enc_str ?tm)] = Inr ts" using t by (simp add: omitempty_def)
    then obtain v4 where "ts = [(''team'', v4)]" "enc_str ?tm = Inr v4"
      unfolding enc_members_Cons_Inr by auto
    then show ?thesis
      using s False shows_encoded(2)[of ?tm v4] by (simp add: shows_topic_def json_get_def v us(1) ws(1))
  qed
qed

lemma cost_json_members:
  "cost_json s cm alloc teams =
     enc_obj [(''cluster'', enc_str (ClusterName (Cluster s))), (''monthly_cost_eur'', enc_float (cm_MonthlyCostEUR cm)),
              (''topics'', enc_arr (map (topicOut teams) alloc)), (''weights'', encode_weights (cm_Weights cm))]"
proof -
  have "sort_key fst [(''cluster'', a), (''monthly_cost_eur'', b), (''weights'', c), (''topics'', d)] =
      [(''cluster'', a), (''monthly_cost_eur'', b), (''topics'', d), (''weights'', c)]" for a b c d :: encoded
    by (simp add: less_list_code less_char_def)
  then show ?thesis by (simp add: cost_json_def enc_map_def key_quotes)
qed

text \<open>C24: What \<open>cost --json\<close> writes is one JSON document with an element for each topic of the
  snapshot, in its order, whose figure parses to the very number that was allocated, with its
  team exactly when rules were given and the team has a name. The list is never \<open>null\<close>.\<close>

theorem cost_json_complete:
  assumes "cm = cli_model s provider clusterCost" "f64_repr clusterCost" "alloc = allocate cm (cost_inputs s)"
    and "encoder_text (cost_json s cm alloc teams) = Inr t"
  shows "\<exists>v vs. parse_json t = Some v \<and> shows_str (ClusterName (Cluster s)) (json_get ''cluster'' v) \<and>
     shows_float clusterCost (json_get ''monthly_cost_eur'' v) \<and>
     json_get ''topics'' v = Some (JArr vs) \<and> list_all2 (shows_topic teams) alloc vs \<and>
     map tc_Name alloc = map Name (Topics s)"
proof -
  have cm: "cm_MonthlyCostEUR cm = clusterCost" "cm_Weights cm = defaultWeights" by (simp_all add: assms(1) cli_model_def)
  have a: "f64_repr (tc_EUR a)" if "a \<in> set alloc" for a using that allocate_nums by (simp add: assms(3))
  have "enc_ok 2 (enc_arr (map (topicOut teams) alloc))"
    using a unfolding numeral_2_eq_2 by (intro enc_ok_arr) (auto intro: enc_ok_topicOut simp flip: One_nat_def)
  moreover have "enc_ok 2 (encode_weights defaultWeights)" using enc_ok_mono[OF enc_ok_weights] by simp
  ultimately have "enc_ok 3 (cost_json s cm alloc teams)"
    using assms(2) unfolding cost_json_def eval_nat_numeral cm
    by (intro enc_ok_map) (auto simp: numeral_2_eq_2 intro: enc_ok_intros)
  then obtain v where v: "cost_json s cm alloc teams = Inr v" "parse_json t = Some v"
    using encoder_text_parses[OF assms(4), of 3] by (auto simp: maxNestingDepth_def)
  from v(1) obtain v1 v2 v3 v4 where
    ms: "v = JObj [(''cluster'', v1), (''monthly_cost_eur'', v2), (''topics'', v3), (''weights'', v4)]"
    and r: "enc_str (ClusterName (Cluster s)) = Inr v1" "enc_float (cm_MonthlyCostEUR cm) = Inr v2"
      "enc_arr (map (topicOut teams) alloc) = Inr v3"
    unfolding cost_json_members enc_obj_Inr enc_members_Cons_Inr by auto
  obtain vs where vs: "v3 = JArr vs" "enc_elems (map (topicOut teams) alloc) = Inr vs"
    using r(3) by (auto simp: enc_arr_Inr)
  have "list_all2 (shows_topic teams) alloc vs"
    using encoded_list_shows[OF _ vs(2), of "shows_topic teams"] encoded_topic_shows[OF a] by blast
  moreover have "map tc_Name alloc = map Name (Topics s)"
    by (auto simp: assms(3) allocate_def cost_inputs_def allocate_one_def split: prod.splits)
  moreover note shows_encoded(2)[OF r(1)] shows_encoded(1)[OF assms(2) r(2)[unfolded cm]]
  ultimately show ?thesis by (intro exI[of _ v] exI[of _ vs]) (simp add: v(2) json_get_def ms vs(1))
qed

subsection \<open>Concrete reports\<close>

definition groups_only :: snapshot where
  "groups_only = zero_snapshot\<lparr>Cluster := \<lparr>ClusterName = ''demo-prod'', ClusterProvider = ''self''\<rparr>, Groups := [etl_legacy]\<rparr>"

lemma groups_only_simps: "Topics groups_only = []" "Groups groups_only = [etl_legacy]" "TakenAt groups_only = zero_time"
  by (simp_all add: groups_only_def zero_snapshot_def)

lemma groups_only_run: "evaluate [groups_only] demo_model (defaultConfig zero_time) = Some [r2_finding etl_legacy]" 
proof -
  let ?ctx = "eval_context groups_only demo_model (defaultConfig zero_time)"
  have e: "equal_fold (trim_space ''Empty'') ''Empty''" by code_simp
  have "r2_body ?ctx etl_legacy = Emit (r2_finding etl_legacy)"
    by (simp add: r2_body_def Let_def defaultR2_def signed_cmp e)
  then have "run_rules ?ctx False registry = Some [r2_finding etl_legacy]"
    by (simp add: registry_def disabled_def evalR1_def evalR2_def evalR3_def evalR4_def evalR5_def evalR6_def
        evalR7_def evalR8_def groups_only_simps)
  then show ?thesis by (simp add: evaluate_latest_run slice_stable_def)
qed

text \<open>One finding and no topic.\<close>

theorem scan_json_complete_witness:
  "\<exists>t v vs. encoder_text (scan_json groups_only [r2_finding etl_legacy]) = Inr t \<and> parse_json t = Some v \<and>
     json_get ''findings'' v = Some (JArr vs) \<and> list_all2 shows_finding [r2_finding etl_legacy] vs"
proof -
  have nums: "finding_nums (r2_finding etl_legacy) = [0]" by (simp add: finding_nums_def r2_finding_def)
  have "(0 :: f64) + 0 = 0" by code_simp
  then have "is_fin (totalSavingsEUR [r2_finding etl_legacy])"
    by (simp add: totalSavingsEUR_def r2_finding_shape)
  moreover have "isl (MarshalTime zero_time) = False" by code_simp
  ultimately have "\<not> isl (encoder_text (scan_json groups_only [r2_finding etl_legacy]))"
    by (simp add: scan_json_fails groups_only_simps nums)
  then obtain t where t: "encoder_text (scan_json groups_only [r2_finding etl_legacy]) = Inr t"
    by (cases "encoder_text (scan_json groups_only [r2_finding etl_legacy])") auto
  have "list_all topic_floats (Topics groups_only)" by (simp add: groups_only_simps)
  from scan_json_complete[OF groups_only_run this t] t show ?thesis by auto
qed

definition free_model :: costModel where
  "free_model = cli_model sample_snapshot '''' 0"

theorem cost_json_complete_witness:
  "\<exists>t v vs. encoder_text (cost_json sample_snapshot free_model (allocate free_model (cost_inputs sample_snapshot)) []) = Inr t \<and>
     parse_json t = Some v \<and> json_get ''topics'' v = Some (JArr vs) \<and> length vs = 5"
proof -
  let ?alloc = "allocate free_model (cost_inputs sample_snapshot)"
  let ?r = "cost_json sample_snapshot free_model ?alloc []"
  have "tc_EUR a = 0" if "a \<in> set ?alloc" for a
    using that by (auto simp: allocate_def allocate_one_def free_model_def cli_model_def le_fin split: prod.splits)
  then have "\<not> list_ex isl (map (topicOut []) ?alloc)" by (auto simp: list_ex_iff topicOut_def)
  moreover have "\<not> isl (encode_weights defaultWeights)"
    using fl_between(1)[of "- 3" "2 / 5"] fl_between(1)[of "- 3" "1 / 5"]
    by (simp add: encode_weights_def defaultWeights_def pow2_def)
  ultimately have "\<not> isl (encoder_text ?r)"
    by (simp add: cost_json_def) (simp add: free_model_def cli_model_def)
  then obtain t where t: "encoder_text ?r = Inr t" by (cases "encoder_text ?r") auto
  from cost_json_complete[OF free_model_def f64_repr_odd(3) refl this]
  obtain v vs where v: "parse_json t = Some v" "json_get ''topics'' v = Some (JArr vs)"
    "list_all2 (shows_topic []) ?alloc vs" "map tc_Name ?alloc = map Name (Topics sample_snapshot)"
    by blast
  have "length ?alloc = 5" using arg_cong[OF v(4), of length] by simp
  then show ?thesis using t v list_all2_lengthD[OF v(3)] by auto
qed

end
