(* ===== verification/ReportFacts.thy ===== *)
theory ReportFacts
  imports Report KafkaFacts Samples
begin

text \<open>
  What the reports show: the sum of the savings, every finding with its row and its basis in the
  order of the ranking, and every team once, with the sums of its topics.
\<close>

text \<open>The lines of a finding, word for word.\<close>

definition row_text :: "finding \<Rightarrow> gostring" where
  "row_text f =
     ''  '' @ pad_right 4 (RuleID f) @ ''  '' @ pad_right 9 (utf_euro @ fmt_f 2 (EstSavingEUR f)) @ ''  '' @
     pad_right 12 (severity_str (Severity f)) @ ''  '' @ pad_right 6 (confidence_str (Confidence f)) @ ''  '' @
     truncate_str (Title f) 60 @ newline"

definition basis_text :: "finding \<Rightarrow> gostring" where
  "basis_text f =
     ''   '' @ utf_bullet @ '' ['' @ RuleID f @ '' '' @ utf_euro @ fmt_f 2 (EstSavingEUR f) @ ''] '' @ Basis f @ newline"

definition total_text :: "finding list \<Rightarrow> gostring" where
  "total_text fs =
     ''  '' @ dec_int (int (length fs)) @ '' findings '' @ utf_middot @ '' est. up to '' @ utf_euro @
     fmt_f 2 (totalSavingsEUR fs) @ ''/mo recoverable'' @ newline"

lemma report_lines:
  "finding_row = row_text" "basis_line = basis_text"
  by (rule ext; simp add: finding_row_def row_text_def basis_line_def basis_text_def println_def eur_def)+

lemma head_total: "\<exists>a b. report_head s fs usedDemo = a @ total_text fs @ b"
proof -
  have "\<exists>a. report_head s fs usedDemo = a @ total_text fs @ ruler"
    by (simp add: report_head_def total_text_def println_def eur_def)
  then show ?thesis by blast
qed

lemma renderReport_lines:
  assumes "fs \<noteq> []"
  shows "\<exists>a b c d. renderReport s fs usedDemo verbose =
     a @ total_text fs @ b @ concat (map row_text fs) @ c @ concat (map basis_text fs) @ d"
proof -
  obtain a b where h: "report_head s fs usedDemo = a @ total_text fs @ b" using head_total by blast
  let ?cols = "println (''  '' @ pad_right 4 ''RULE'' @ ''  '' @ pad_right 9 (utf_euro @ ''/MO'') @ ''  '' @
      pad_right 12 ''SEVERITY'' @ ''  '' @ pad_right 6 ''CONF'' @ ''  FINDING'')"
  let ?how = "newline @ println (''  Basis (how each '' @ utf_euro @ '' was computed):'')"
  have "\<exists>d. renderReport s fs usedDemo verbose =
      a @ total_text fs @ (b @ ?cols) @ concat (map row_text fs) @ ?how @ concat (map basis_text fs) @ d"
    unfolding renderReport_def h report_lines if_not_P[OF assms] append_assoc by blast
  then show ?thesis by blast
qed

text \<open>C36: \<open>brod scan\<close> always prints a report, whatever the snapshot and the flags: it never
  panics. The report states the number of findings and their total; without findings it says
  so, and otherwise it holds one row for each finding the engine returns, in ranking order (rule,
  saving in euros and cents, severity, confidence, title cut to 60 runes), and after them, with or
  without \<open>--verbose\<close>, one basis line for each, in the same order, with the rule, the saving and
  the whole basis, which is never empty.\<close>

theorem scan_report_complete:
  "\<exists>fs out a b. evaluate [s] (cli_model s provider clusterCost) (defaultConfig now) = Some fs \<and>
     scan_report s provider clusterCost now usedDemo verbose = Some out \<and>
     list_all (\<lambda>f. Basis f \<noteq> '''') fs \<and> out = a @ total_text fs @ b \<and>
     (if fs = [] then sublist ''  No waste detected in this snapshot. '' b
      else \<exists>c d e. b = c @ concat (map row_text fs) @ d @ concat (map basis_text fs) @ e)"
proof -
  let ?cm = "cli_model s provider clusterCost"
  obtain fs where fs: "evaluate ([] @ [s]) ?cm (defaultConfig now) = Some fs"
    using evaluate_defined[OF default_thresholds_default] by blast
  have "Basis f \<noteq> ''''" if f: "f \<in> set fs" for f
  proof -
    obtain s' r gs where "r \<in> set registry" "rule_eval r (eval_context s' ?cm (defaultConfig now)) = Some gs"
      "f \<in> set gs" using evaluate_origin[OF fs f] by metis
    then show ?thesis using engine_rule.ev_basis[OF registry_rules] by blast
  qed
  then have basis: "list_all (\<lambda>f. Basis f \<noteq> '''') fs" by (simp add: list_all_iff)
  let ?out = "renderReport s fs usedDemo verbose"
  have report: "scan_report s provider clusterCost now usedDemo verbose = Some ?out" using fs by (simp add: scan_report_def)
  show ?thesis
  proof (cases "fs = []")
    case True
    obtain a b where h: "report_head s fs usedDemo = a @ total_text fs @ b" using head_total by blast
    have "\<exists>b'. ?out = a @ total_text fs @ b @ ''  No waste detected in this snapshot. '' @ b'"
      unfolding renderReport_def h if_P[OF True] by (simp add: println_def)
    then obtain b' where out: "?out = a @ total_text fs @ (b @ ''  No waste detected in this snapshot. '' @ b')" by auto
    have none: "sublist ''  No waste detected in this snapshot. '' (b @ ''  No waste detected in this snapshot. '' @ b')"
      by (rule sublist_appendI)
    show ?thesis
      unfolding if_P[OF True]
      by (rule exI[of _ fs], rule exI[of _ ?out], rule exI[of _ a],
          rule exI[of _ "b @ ''  No waste detected in this snapshot. '' @ b'"])
        (use fs report basis out none True in simp)
  next
    case False
    then obtain a b c d where "?out = a @ total_text fs @ (b @ concat (map row_text fs) @ c @ concat (map basis_text fs) @ d)"
      using renderReport_lines by blast
    then show ?thesis using fs report basis False
      by (intro exI[of _ fs] exI[of _ ?out] exI[of _ a] exI[of _ "b @ concat (map row_text fs) @ c @ concat (map basis_text fs) @ d"])
        auto
  qed
qed

subsection \<open>Teams\<close>

definition team_total :: "teamFlags \<Rightarrow> (topicCost \<Rightarrow> f64) \<Rightarrow> topicCost list \<Rightarrow> gostring \<Rightarrow> f64" where
  "team_total teams amount alloc tm =
     fold (\<lambda>a acc. acc + amount a) (filter (\<lambda>a. teamFor teams (tc_Name a) = tm) alloc) 0"

lemma by_team_ok: "gomap_ok (by_team teams amount alloc)"
proof -
  have "gomap_ok m \<Longrightarrow> gomap_ok (fold (\<lambda>a m. mput m (teamFor teams (tc_Name a))
      (mget 0 m (teamFor teams (tc_Name a)) + amount a)) alloc m)" for m
    by (induction alloc arbitrary: m) auto
  then show ?thesis by (simp add: by_team_def)
qed

lemma by_team_dom: "fst ` set (by_team teams amount alloc) = (\<lambda>a. teamFor teams (tc_Name a)) ` set alloc"
proof -
  have "fst ` set (fold (\<lambda>a m. mput m (teamFor teams (tc_Name a))
      (mget 0 m (teamFor teams (tc_Name a)) + amount a)) alloc m) =
      (\<lambda>a. teamFor teams (tc_Name a)) ` set alloc \<union> fst ` set m" for m
    by (induction alloc arbitrary: m) auto
  from this[of "[]"] show ?thesis by (simp add: by_team_def)
qed

lemma by_team_get: "mget 0 (by_team teams amount alloc) tm = team_total teams amount alloc tm"
proof -
  have "mget 0 (fold (\<lambda>a m. mput m (teamFor teams (tc_Name a))
      (mget 0 m (teamFor teams (tc_Name a)) + amount a)) alloc m) tm =
      fold (\<lambda>a acc. acc + amount a) (filter (\<lambda>a. teamFor teams (tc_Name a) = tm) alloc) (mget 0 m tm)" for m
    by (induction alloc arbitrary: m) auto
  then show ?thesis by (simp add: by_team_def team_total_def)
qed

text \<open>C27: The rows of the team report are, whatever the order the runtime visits the map in, one
  for each team some topic belongs to, with the euros and gigabytes of exactly its topics added
  up in allocation order; every topic belongs to the team of its first matching rule.\<close>

theorem team_rows_partition:
  assumes "mset (visit (by_team teams tc_EUR alloc)) = mset (by_team teams tc_EUR alloc)"
  shows "distinct (map row_name (team_rows visit s alloc teams)) \<and>
     set (map row_name (team_rows visit s alloc teams)) = (\<lambda>a. teamFor teams (tc_Name a)) ` set alloc \<and>
     list_all (\<lambda>r. row_eur r = team_total teams tc_EUR alloc (row_name r) \<and>
        row_gb r = team_total teams (\<lambda>a. mget 0 (gb_by_topic s) (tc_Name a)) alloc (row_name r))
       (team_rows visit s alloc teams)"
proof -
  let ?m = "by_team teams tc_EUR alloc"
  have names: "map row_name (team_rows visit s alloc teams) = map fst (visit ?m)"
    by (simp add: team_rows_def Let_def comp_def case_prod_unfold)
  have "mset (map fst (visit ?m)) = mset (map fst ?m)" using assms by simp
  then have "distinct (map fst (visit ?m))"
    using by_team_ok[of teams tc_EUR alloc] unfolding gomap_ok_def by (metis mset_eq_imp_distinct_iff)
  moreover have set: "set (visit ?m) = set ?m" using assms by (metis set_mset_mset)
  moreover have "e = team_total teams tc_EUR alloc tm" if "(tm, e) \<in> set (visit ?m)" for tm e
    using that mget_in[OF by_team_ok] by (metis set by_team_get)
  ultimately show ?thesis
    unfolding names
    by (auto simp: by_team_dom team_rows_def Let_def list_all_iff by_team_get)
qed

definition sandbox_team :: teamFlags where
  "sandbox_team = [\<lparr>tr_re = r6_pattern, tr_name = ''Sandbox''\<rparr>]"

definition two_costs :: "topicCost list" where
  "two_costs = [\<lparr>tc_Name = ''dev.orders'', tc_EUR = Fin 3, tc_Basis = ''b''\<rparr>,
     \<lparr>tc_Name = ''events.raw'', tc_EUR = Fin 4, tc_Basis = ''b''\<rparr>]"

theorem team_rows_partition_witness:
  "distinct (map row_name (team_rows rev sample_snapshot two_costs sandbox_team)) \<and>
   set (map row_name (team_rows rev sample_snapshot two_costs sandbox_team)) = {''Sandbox'', ''unassigned''}"
  using team_rows_partition[of rev sandbox_team two_costs sample_snapshot]
  by (simp add: two_costs_def sandbox_team_def demo_names insert_commute)

end
