(* ===== verification/CommandFacts.thy ===== *)
theory CommandFacts
  imports ReportJson LiveFacts DemoCluster ReportFacts
begin

text \<open>
  Properties of the commands as a whole: what bad arguments and operands do, which exit status a
  run ends with, that collecting makes one write or fails before it, that a collected file scans to
  the report of the live cluster, and that the sampling window fits the time-out.
\<close>

subsection \<open>Arguments\<close>

definition bad_flags :: "'s formal list \<Rightarrow> gostring list \<Rightarrow> 's \<Rightarrow> bool" where
  "bad_flags fs argv x \<longleftrightarrow> isl (parse_flags fs argv x)"

lemma flag_parse_good:
  "parse_flags fs argv x = Inr y \<Longrightarrow> flag_parse eprint cmd fs argv x w = (Inr y, w)"
  by (simp add: flag_parse_def)

lemma flag_parse_bad:
  assumes "bad_flags fs argv x" "I w" "\<And>m u. I u \<Longrightarrow> I (eprint m u)"
  shows "\<exists>e u. flag_parse eprint cmd fs argv x w = (Inl e, u) \<and> I u"
proof (cases "parse_flags fs argv x")
  case (Inl e)
  then show ?thesis using assms(2,3) by (cases e) (auto simp: flag_parse_def)
qed (use assms(1) in \<open>simp add: bad_flags_def\<close>)

text \<open>C17: Arguments that do not parse end the command at once: with an error, and without
  anything but messages on standard error, so no file or standard input is read, no cluster is
  contacted and nothing is written.\<close>

theorem bad_arguments_do_nothing:
  assumes "I w" "\<And>m u. I u \<Longrightarrow> I (Stderr sys m u)"
  shows "(if bad_flags scan_formals argv scan_defaults
      then \<exists>e u. cmdScan sys argv w = (Some (Inl e), u) \<and> I u else True) \<and>
    (if bad_flags (cost_formals (Compile sys)) argv cost_defaults
      then \<exists>e u. cmdCost sys argv w = (Some (Inl e), u) \<and> I u else True) \<and>
    (if bad_flags collect_formals argv collect_defaults
      then \<exists>e u. cmdCollect sys argv w = (Some (Inl e), u) \<and> I u else True)"
proof -
  have "\<exists>e u. flag_parse (Stderr sys) ''scan'' scan_formals argv scan_defaults w = (Inl e, u) \<and> I u"
    if "bad_flags scan_formals argv scan_defaults"
    by (rule flag_parse_bad[where I = I]) (use that assms in auto)
  moreover have "\<exists>e u. flag_parse (Stderr sys) ''cost'' (cost_formals (Compile sys)) argv cost_defaults w = (Inl e, u) \<and> I u"
    if "bad_flags (cost_formals (Compile sys)) argv cost_defaults"
    by (rule flag_parse_bad[where I = I]) (use that assms in auto)
  moreover have "\<exists>e u. flag_parse (Stderr sys) ''collect'' collect_formals argv collect_defaults w = (Inl e, u) \<and> I u"
    if "bad_flags collect_formals argv collect_defaults"
    by (rule flag_parse_bad[where I = I]) (use that assms in auto)
  ultimately show ?thesis by (simp add: cmdScan_def cmdCost_def cmdCollect_def) force
qed

lemma operands_dropped:
  assumes "flag_arg a = Operand" "\<not> bad_flags fs pre x"
  shows "\<exists>f rest rest'. parse_flags fs pre x = Inr (f, rest) \<and> parse_flags fs (pre @ a # post) x = Inr (f, rest')"
proof (cases "parse_flags fs pre x")
  case (Inr yr)
  obtain y rest where "yr = (y, rest)" by (cases yr)
  with Inr parse_flags_operand[OF assms(1), of fs pre x y rest post] show ?thesis by simp
qed (use assms(2) in \<open>simp add: bad_flags_def\<close>)

text \<open>C29: An argument that is not a flag, anywhere after arguments that parse, is ignored with
  everything that follows it: \<open>brod scan --cost 5 FILE --json\<close> is \<open>brod scan --cost 5\<close>, which reads
  standard input or the built-in demo, not the file, and does not write JSON.\<close>

theorem operands_are_ignored:
  assumes "flag_arg a = Operand"
  shows "(if bad_flags scan_formals pre scan_defaults then True
      else cmdScan sys (pre @ a # post) w = cmdScan sys pre w) \<and>
    (if bad_flags (cost_formals (Compile sys)) pre cost_defaults then True
      else cmdCost sys (pre @ a # post) w = cmdCost sys pre w) \<and>
    (if bad_flags collect_formals pre collect_defaults then True
      else cmdCollect sys (pre @ a # post) w = cmdCollect sys pre w)"
proof -
  show ?thesis
    using operands_dropped[OF assms, of scan_formals pre scan_defaults post] operands_dropped[OF assms, of "cost_formals (Compile sys)" pre cost_defaults post]
      operands_dropped[OF assms, of collect_formals pre collect_defaults post]
    by (auto simp: cmdScan_def cmdCost_def cmdCollect_def flag_parse_def)
qed

subsection \<open>Exit status\<close>

lemma scan_output_total: "\<exists>r u. scan_output sys f s demo w = (Some r, u)"
proof -
  obtain now w' where c: "Clock sys w = (now, w')" by (cases "Clock sys w")
  obtain fs where "evaluate ([] @ [s]) (cli_model s (sf_provider f) (sf_cost f)) (defaultConfig now) = Some fs"
    using evaluate_defined[OF default_thresholds_default] by blast
  then show ?thesis by (simp add: scan_output_def c finish_def split: prod.splits)
qed

lemma cmdScan_total: "\<exists>r u. cmdScan sys argv w = (Some r, u)"
proof (cases "flag_parse (Stderr sys) ''scan'' scan_formals argv scan_defaults w")
  case (Pair r w1)
  show ?thesis
  proof (cases r)
    case (Inr fr)
    obtain f rest where fr: "fr = (f, rest)" by (cases fr)
    show ?thesis
    proof (cases "cf_bootstrap (sf_connect f) = ''''")
      case True
      then show ?thesis
        using Pair Inr fr scan_output_total[of sys f]
        by (auto simp: cmdScan_def split: prod.splits sum.splits)
    next
      case False
      obtain q w2 where l: "live sys (sf_connect f)
          (WithTimeout sys (collectTimeout (cf_sampleWindow (sf_connect f))) w1) = (q, w2)"
        by (cases "live sys (sf_connect f) (WithTimeout sys (collectTimeout (cf_sampleWindow (sf_connect f))) w1)")
      show ?thesis
      proof (cases q)
        case (Inr s)
        obtain p u where "scan_output sys f s False w2 = (Some p, u)" using scan_output_total[of sys f s False w2] by blast
        then show ?thesis using Pair \<open>r = Inr fr\<close> fr False l Inr by (simp add: cmdScan_def)
      qed (use Pair Inr fr False l in \<open>simp add: cmdScan_def\<close>)
    qed
  qed (use Pair in \<open>simp add: cmdScan_def\<close>)
qed

lemma cmdCost_total: "\<exists>r u. cmdCost sys argv w = (Some r, u)"
  by (simp add: cmdCost_def finish_def Let_def split: prod.splits sum.splits)

lemma cmdCollect_total: "\<exists>r u. cmdCollect sys argv w = (Some r, u)"
  by (simp add: cmdCollect_def split: prod.splits sum.splits)

lemma finish_total: "\<exists>r u. finish c w = (Some r, u)"
  by (simp add: finish_def split: prod.splits)

lemma dispatch_runs:
  assumes "dispatch sys name argv = Some run"
  shows "run = cmdScan sys argv \<or> run = cmdCollect sys argv \<or> run = cmdCost sys argv \<or> run = cmdSample sys argv \<or>
     run = finish (print_report sys (''brod '' @ Version sys @ newline)) \<or> run = (\<lambda>w. (Some (Inr ()), Stderr sys usage w))"
proof -
  have pick: "(if b then Some x else r) = Some run \<Longrightarrow> x = run \<or> r = Some run" for b x r
    by (cases b) simp_all
  show ?thesis
    using assms unfolding dispatch_def by (auto dest!: pick)
qed

definition command_names :: "gostring list" where
  "command_names =
     [''scan'', ''collect'', ''cost'', ''sample'', ''version'', ''--version'', ''-v'', ''help'', ''-h'', ''--help'']"

text \<open>C16: No command ever panics, and the exit status tells what happened: 2 for a missing or
  unknown command, 1 when the command returned an error, 0 otherwise.\<close>

theorem main_exit_status:
  "(case dispatch sys name argv of
      None \<Rightarrow> name \<notin> set command_names \<and> fst (brod_main sys (prog # name # argv) w) = 2
    | Some run \<Rightarrow> name \<in> set command_names \<and>
        (\<exists>r u. run w = (Some r, u) \<and> fst (brod_main sys (prog # name # argv) w) = (if isl r then 1 else 0))) \<and>
   fst (brod_main sys [prog] w) = 2 \<and> fst (brod_main sys [] w) = 2"
proof -
  have total: "\<exists>r u. run w = (Some r, u)" if "dispatch sys name argv = Some run" for run
    using dispatch_runs[OF that] cmdScan_total[of sys argv w] cmdCost_total[of sys argv w]
      cmdCollect_total[of sys argv w] finish_total
    by (elim disjE) (simp_all add: cmdSample_def)
  have names: "dispatch sys name argv = None \<longleftrightarrow> name \<notin> set command_names"
    by (auto simp: dispatch_def command_names_def)
  have none: "fst (brod_main sys [prog] w) = 2" "fst (brod_main sys [] w) = 2" by (simp_all add: brod_main_def)
  show ?thesis
  proof (cases "dispatch sys name argv")
    case None
    then show ?thesis using names none by (simp add: brod_main_def)
  next
    case (Some run)
    obtain r u where r: "run w = (Some r, u)" using total[OF Some] by blast
    have "fst (brod_main sys (prog # name # argv) w) = (if isl r then 1 else 0)"
      by (cases r) (simp_all add: brod_main_def Some r)
    moreover have "name \<in> set command_names" using names Some by simp
    ultimately show ?thesis unfolding Some option.case using none r by blast
  qed
qed

subsection \<open>Collecting\<close>

lemma live_floats: "live sys cf w = (Inr s, u) \<Longrightarrow> list_all topic_floats (Topics s)"
proof -
  assume "live sys cf w = (Inr s, u)"
  then obtain h v now v' where "collect_Build (Admin (Kgo sys) h) (Clock sys) (ctxSleep sys) (live_options cf now) v = (Inr s, v')"
    unfolding live_def using live_build by metis
  from collected_facts(2)[OF this] show ?thesis
    by (auto simp: list_all_iff collected_topic_def topic_floats_def f64_repr_def)
qed

text \<open>A collected snapshot can be encoded unless its time cannot be written.\<close>

lemma collected_encodes:
  assumes "live sys cf w = (Inr s, u)"
  shows "isl (marshal_indent (encode_snapshot s)) \<longleftrightarrow> \<not> time_writable (TakenAt s)"
proof -
  obtain h v now v' where b: "collect_Build (Admin (Kgo sys) h) (Clock sys) (ctxSleep sys) (live_options cf now) v = (Inr s, v')"
    using assms unfolding live_def using live_build by metis
  have "\<not> isl (encode_topic t)" if "t \<in> set (Topics s)" for t
  proof -
    have "is_fin (BytesInPerSec t)" "is_fin (BytesOutPerSec t)"
      using collected_facts(2)[OF b] that by (auto simp: list_all_iff collected_topic_def f64_okD)
    then show ?thesis by (auto simp: encode_topic_def list_ex_iff)
  qed
  then have "\<not> list_ex isl (map encode_topic (Topics s))" by (auto simp: list_ex_iff)
  moreover have "\<not> list_ex isl (map encode_group (Groups s))" "\<not> list_ex isl (map encode_broker (Brokers s))"
    "\<not> isl (encode_cluster (Cluster s))"
    by (auto simp: list_ex_iff encode_group_def encode_broker_def encode_cluster_def)
  ultimately show ?thesis by (simp add: encode_snapshot_def MarshalTime_fails)
qed

text \<open>What running the live path cannot change, nothing before the output of \<open>collect\<close> changes.\<close>

definition system_keeps :: "('w \<Rightarrow> bool) \<Rightarrow> ('h, 'w) system \<Rightarrow> bool" where
  "system_keeps I sys \<longleftrightarrow> lib_keeps I (Kgo sys) \<and> (\<forall>m v. I v \<longrightarrow> I (Stderr sys m v)) \<and>
     (\<forall>v. I v \<longrightarrow> I (snd (Clock sys v)) \<and> I (Cancel sys v)) \<and> (\<forall>d v. I v \<longrightarrow> I (WithTimeout sys d v)) \<and>
     (\<forall>n v. I v \<longrightarrow> I (WaitUntil sys n v))"

lemma live_keeps:
  assumes "system_keeps I sys"
  shows "keeps I (live sys cf)"
proof -
  have "keeps I (ctxSleep sys d)" for d
    using assms by (simp add: system_keeps_def keeps_def ctxSleep_def Let_def)
  then have "keeps I (bindE (Connect (Kgo sys) (Env sys) (connect_config cf)) (\<lambda>h w.
      let (r, w') = on_client (Kgo sys) (Stderr sys) (Clock sys) (ctxSleep sys) cf h w in (r, Close (Kgo sys) h w')))"
    using assms by (intro live_body_keeps) (auto simp: system_keeps_def)
  then show ?thesis
    using assms by (auto simp: keeps_def live_def connectAndCollect_def system_keeps_def)
qed

lemma cmdCollect_runs:
  assumes "parse_flags collect_formals argv collect_defaults = Inr (f, rest)"
    and "live sys (lf_connect f) (WithTimeout sys (collectTimeout (cf_sampleWindow (lf_connect f))) w) = (r, u)"
  shows "cmdCollect sys argv w =
     (case r of Inl e \<Rightarrow> (Some (Inl e), Cancel sys u)
      | Inr s \<Rightarrow> (case marshal_indent (encode_snapshot s) of
          Inl e \<Rightarrow> (Some (Inl (''encoding snapshot: '' @ e)), Cancel sys u)
        | Inr data \<Rightarrow> (case put_snapshot sys (lf_out f) (length (Topics s)) (data @ newline) u of
            (q, v) \<Rightarrow> (Some q, Cancel sys v))))"
  using assms
  by (cases r; cases "marshal_indent (encode_snapshot (projr r))")
    (simp_all add: cmdCollect_def flag_parse_good bindE_def write_snapshot_def wrapE_def liftE_def)

text \<open>C8: What \<open>brod collect\<close> does, on every path. Arguments that do not parse, a live run that
  fails and a time that cannot be written (a year outside 0 to 9999, a zone of 24 hours or more)
  end it with an error before anything is written to standard output or to a file: what the calls
  of a live run and messages leave true is still true. Otherwise exactly one write is attempted,
  of a text that decodes to the collected snapshot, to standard output or to the file, and the
  command succeeds exactly when that write does: a write that fails, which may leave a partial
  file, is the error the command returns.\<close>

theorem collect_writes_one_text:
  assumes "system_keeps I sys" "I w"
  shows "case parse_flags collect_formals argv collect_defaults of
      Inl x \<Rightarrow> \<exists>e u. cmdCollect sys argv w = (Some (Inl e), u) \<and> I u
    | Inr (f, rest) \<Rightarrow>
        (case live sys (lf_connect f) (WithTimeout sys (collectTimeout (cf_sampleWindow (lf_connect f))) w) of
           (Inl e, u) \<Rightarrow> cmdCollect sys argv w = (Some (Inl e), Cancel sys u) \<and> I (Cancel sys u)
         | (Inr s, u) \<Rightarrow> I u \<and> I (Cancel sys u) \<and>
             (if \<not> time_writable (TakenAt s) then \<exists>e. cmdCollect sys argv w = (Some (Inl e), Cancel sys u)
              else \<exists>data. unmarshal_snapshot (Messages sys) (data @ newline) = Inr (clean_snapshot s) \<and>
                cmdCollect sys argv w =
                  (if lf_out f \<in> {'''', ''-''}
                   then (case Stdout sys (data @ newline) u of (r, v) \<Rightarrow> (Some r, Cancel sys v))
                   else (case WriteFile sys (lf_out f) (data @ newline) u of
                       (Inl e, v) \<Rightarrow> (Some (Inl (''writing snapshot: '' @ e)), Cancel sys v)
                     | (Inr x, v) \<Rightarrow> (Some (Inr ()), Cancel sys
                         (Stderr sys (''  wrote snapshot for '' @ dec_int (int (length (Topics s))) @
                            '' topics to '' @ lf_out f @ newline) v))))))"
proof (cases "parse_flags collect_formals argv collect_defaults")
  case (Inl e)
  then have "bad_flags collect_formals argv collect_defaults" by (simp add: bad_flags_def)
  from flag_parse_bad[OF this, of I w "Stderr sys" "''collect''"] assms show ?thesis
    by (auto simp: Inl cmdCollect_def system_keeps_def)
next
  case (Inr fr)
  obtain f rest where fr: "fr = (f, rest)" by (cases fr)
  let ?w = "WithTimeout sys (collectTimeout (cf_sampleWindow (lf_connect f))) w"
  obtain r u where run: "live sys (lf_connect f) ?w = (r, u)" by (cases "live sys (lf_connect f) ?w")
  have "I ?w" using assms by (simp add: system_keeps_def)
  from keepsD[OF live_keeps[OF assms(1)] this] have "I u" using run by (metis snd_conv)
  moreover from this have "I (Cancel sys u)" using assms(1) by (simp add: system_keeps_def)
  moreover note runs = cmdCollect_runs[OF Inr[unfolded fr] run]
  ultimately show ?thesis
  proof (cases r)
    case s: (Inr s)
    note live = run[unfolded s]
    show ?thesis
    proof (cases "marshal_indent (encode_snapshot s)")
      case d: (Inr data)
      then have "time_writable (TakenAt s)" using collected_encodes[OF live] by simp
      moreover have "unmarshal_snapshot (Messages sys) (data @ newline) = Inr (clean_snapshot s)"
        using live_floats[OF live] d by (rule unmarshal_marshal)
      ultimately show ?thesis
        using runs \<open>I u\<close> \<open>I (Cancel sys u)\<close>
        by (auto simp: Inr fr run s d put_snapshot_def bindE_def wrapE_def
            intro!: exI[of _ data] split: prod.split sum.split)
    next
      case (Inl e)
      then show ?thesis
        using runs \<open>I u\<close> \<open>I (Cancel sys u)\<close> collected_encodes[OF live] by (simp add: Inr fr run s)
    qed
  qed (simp add: Inr fr run)
qed

subsection \<open>From collect to scan\<close>

lemma snapshot_flag:
  "parse_flags scan_formals [''--snapshot'', path] scan_defaults = Inr (scan_defaults\<lparr>sf_snapshot := path\<rparr>, [])"
proof -
  have "flag_arg ''--snapshot'' = FlagArg ''snapshot'' None" by code_simp
  then show ?thesis by (simp add: find_flag_def scan_formals_def set_flag_def string_flag_def)
qed

text \<open>C4: A snapshot written by \<open>brod collect --out\<close> round-trips: scanning the file gives exactly
  what the engine reports on the snapshot that was collected, with its strings as valid UTF-8
  (and unchanged when they are), provided the file system gives back what was written.\<close>

theorem collected_file_scans:
  assumes "cmdCollect sys argv w = (Some (Inr ()), w')"
    and "parse_flags collect_formals argv collect_defaults = Inr (f, rest)" "lf_out f \<noteq> ''''" "lf_out f \<noteq> ''-''"
    and disk: "\<And>data u v m. WriteFile sys (lf_out f) data u = (Inr (), v) \<Longrightarrow>
      fst (ReadFile (Os sys) (lf_out f) (Cancel sys (Stderr sys m v))) = Inr data"
  shows "\<exists>s u. live sys (lf_connect f) (WithTimeout sys (collectTimeout (cf_sampleWindow (lf_connect f))) w) = (Inr s, u) \<and>
     cmdScan sys [''--snapshot'', lf_out f] w' =
       scan_output sys (scan_defaults\<lparr>sf_snapshot := lf_out f\<rparr>) (if snapshot_utf8 s then s else clean_snapshot s) False
         (snd (ReadFile (Os sys) (lf_out f) w'))"
proof -
  let ?w = "WithTimeout sys (collectTimeout (cf_sampleWindow (lf_connect f))) w"
  obtain r u where run: "live sys (lf_connect f) ?w = (r, u)" by (cases "live sys (lf_connect f) ?w")
  note c = cmdCollect_runs[OF assms(2) run]
  obtain s data v where s: "r = Inr s" and data: "marshal_indent (encode_snapshot s) = Inr data"
    and put: "put_snapshot sys (lf_out f) (length (Topics s)) (data @ newline) u = (Inr (), v)" "w' = Cancel sys v"
    using assms(1) unfolding c by (auto split: sum.splits prod.splits)
  obtain v' m where "WriteFile sys (lf_out f) (data @ newline) u = (Inr (), v')" "v = Stderr sys m v'"
    using put(1) assms(3,4) by (auto simp: put_snapshot_def bindE_Inr wrapE_Inr)
  then have read: "fst (ReadFile (Os sys) (lf_out f) w') = Inr (data @ newline)" using disk put(2) by metis
  note l = run[unfolded s]
  have dec: "unmarshal_snapshot (Messages sys) (data @ newline) = Inr (clean_snapshot s)"
    using live_floats[OF l] data by (rule unmarshal_marshal)
  have "file_input sys (lf_out f) w' = (Inr (clean_snapshot s, False), snd (ReadFile (Os sys) (lf_out f) w'))"
    using read dec assms(3,4)
    by (cases "ReadFile (Os sys) (lf_out f) w'")
      (simp add: file_input_def readSnapshot_def bindE_def wrapE_def liftE_def returnE_def)
  moreover have "cf_bootstrap (sf_connect scan_defaults) = ''''"
    by (simp add: scan_defaults_def registerConnectFlags_def)
  ultimately have "cmdScan sys [''--snapshot'', lf_out f] w' =
      scan_output sys (scan_defaults\<lparr>sf_snapshot := lf_out f\<rparr>) (clean_snapshot s) False (snd (ReadFile (Os sys) (lf_out f) w'))"
    by (simp add: cmdScan_def flag_parse_good[OF snapshot_flag])
  then show ?thesis using l clean_snapshot_utf8[of s] by (intro exI[of _ s] exI[of _ u]) simp
qed

subsection \<open>The sampling window\<close>

text \<open>C28: The time-out of a live run leaves a minute beyond the sampling window: when the reads
  before the sleep took less, the sleep ends with the timer, never with the context. That holds for
  every window but those within a minute of the largest duration (292 years), for which the
  time-out wraps to a negative one and the sleep fails at once.\<close>

theorem sample_window_fits:
  assumes "0 < sint window" "Deadline sys w = start + sint (collectTimeout window)"
    and "start \<le> Now sys w" "Now sys w < start + 60 * 10 ^ 9"
  shows "fst (ctxSleep sys window w) =
     (if sint window + 60 * 10 ^ 9 < 2 ^ 63 then Inr () else Inl ''context deadline exceeded'')"
proof (cases "sint window + 60 * 10 ^ 9 < 2 ^ 63")
  case True
  then have "sint (collectTimeout window) = sint window + 60 * 10 ^ 9"
    using assms(1) sint_add_in_range[of window "60 * 1000000000"] by (simp add: collectTimeout_def)
  then show ?thesis using assms True by (simp add: ctxSleep_def Let_def max_def)
next
  case False
  have r: "sint window < 2 ^ 63" using sint_range[of window] by simp
  have "(of_int (2 ^ 64) :: i64) = 0" by simp
  then have "(of_int (sint window + 60 * 10 ^ 9 - 2 ^ 64) :: i64) = of_int (sint window) + 60 * 10 ^ 9"
    unfolding of_int_diff by simp
  then have "collectTimeout window = of_int (sint window + 60 * 10 ^ 9 - 2 ^ 64)"
    by (simp add: collectTimeout_def of_int_sint)
  then have t: "sint (collectTimeout window) = sint window + 60 * 10 ^ 9 - 2 ^ 64"
    using False r sint_eq_of_int[of "sint window + 60 * 10 ^ 9 - 2 ^ 64"] by simp
  then have "Deadline sys w < Now sys w" using assms(2,3) r by simp
  then show ?thesis using assms(1) False by (simp add: ctxSleep_def Let_def max_def)
qed

subsection \<open>A system the theorems apply to\<close>

text \<open>The demo cluster behind a command line whose files and outputs go to the log of requests;
  reading a file gives the last entry.\<close>

definition demo_os :: "demo_world os" where
  "demo_os = \<lparr>ReadFile = (\<lambda>path w. (Inr (last w), w)), ReadStdin = (\<lambda>w. (Inr '''', w)), StdinPiped = (\<lambda>w. False)\<rparr>"

definition demo_system :: "(bool, demo_world) system" where
  "demo_system =
     \<lparr>Os = demo_os, Stdout = (\<lambda>t w. (Inr (), w @ [t])), Stderr = (\<lambda>t w. w),
      WriteFile = (\<lambda>path t w. (Inr (), w @ [t])), Kgo = demo_lib, Env = (\<lambda>_. ''''), Clock = demo_clock,
      Now = (\<lambda>w. 0), WaitUntil = (\<lambda>n w. w @ [''sleep'']), WithTimeout = (\<lambda>d w. w), Deadline = (\<lambda>w. 90000000000),
      Cancel = (\<lambda>w. w), TimerFirst = (\<lambda>w. False), Compile = (\<lambda>re. Inl ''unsupported''), Visit = (\<lambda>m. m),
      Messages = \<lparr>SyntaxMsg = (\<lambda>_. ''invalid character''), TimeMsg = (\<lambda>_. ''cannot parse'')\<rparr>,
      Sample = ''{}'', Version = ''dev''\<rparr>"

definition demo_args :: "gostring list" where
  "demo_args = [''--bootstrap'', ''kafka1:9092'', ''--sample-window=0'', ''-out'', ''snap.json'']"

definition demo_collect_flags :: collect_flags where
  "demo_collect_flags =
     \<lparr>lf_connect = registerConnectFlags\<lparr>cf_bootstrap := ''kafka1:9092'', cf_sampleWindow := 0\<rparr>, lf_out = ''snap.json''\<rparr>"

lemma demo_parse: "parse_flags collect_formals demo_args collect_defaults = Inr (demo_collect_flags, [])"
  by code_simp

theorem bad_arguments_do_nothing_witness:
  "\<exists>e. cmdScan demo_system [''--cots'', ''5''] [] = (Some (Inl e), [])"
proof -
  have "bad_flags scan_formals [''--cots'', ''5''] scan_defaults" by code_simp
  then show ?thesis
    using bad_arguments_do_nothing[of "\<lambda>w. w = []" "[]" demo_system "[''--cots'', ''5'']"]
    by (simp add: demo_system_def)
qed

theorem operands_are_ignored_witness:
  "cmdScan demo_system [''--cost'', ''5'', ''snapshot.json'', ''--json''] [] = cmdScan demo_system [''--cost'', ''5''] []"
proof -
  have "flag_arg ''snapshot.json'' = Operand" by code_simp
  moreover have "\<not> bad_flags scan_formals [''--cost'', ''5''] scan_defaults" by code_simp
  ultimately show ?thesis
    using operands_are_ignored[of "''snapshot.json''" "[''--cost'', ''5'']" demo_system "[''--json'']" "[]"] by simp
qed

theorem sample_window_fits_witness: "fst (ctxSleep demo_system 30000000000 []) = Inr ()"
proof -
  have "sint (collectTimeout 30000000000) = 90000000000" by code_simp
  then show ?thesis using sample_window_fits[of 30000000000 demo_system "[]" 0] by (simp add: demo_system_def)
qed

lemma demo_collects: "\<exists>w'. cmdCollect demo_system demo_args [] = (Some (Inr ()), w')"
proof -
  have live: "map_sum id TakenAt (fst (live demo_system (lf_connect demo_collect_flags) [])) = Inr (utc 1700000000000000000)"
    by code_simp
  obtain r u where run: "live demo_system (lf_connect demo_collect_flags)
      (WithTimeout demo_system (collectTimeout (cf_sampleWindow (lf_connect demo_collect_flags))) []) = (r, u)"
    by (cases "live demo_system (lf_connect demo_collect_flags)
      (WithTimeout demo_system (collectTimeout (cf_sampleWindow (lf_connect demo_collect_flags))) [])")
  have w: "WithTimeout demo_system d [] = []" for d by (simp add: demo_system_def)
  obtain s where s: "r = Inr s" "TakenAt s = utc 1700000000000000000"
    using live run unfolding w by (cases r) auto
  have "time_writable (utc 1700000000000000000)" by code_simp
  then obtain data where "marshal_indent (encode_snapshot s) = Inr data"
    using collected_encodes[OF run[unfolded s(1)]] s(2) by (cases "marshal_indent (encode_snapshot s)") auto
  then show ?thesis
    using cmdCollect_runs[OF demo_parse run] s(1)
    by (simp add: demo_system_def put_snapshot_def demo_collect_flags_def bindE_def wrapE_def)
qed

theorem collected_file_scans_witness:
  "\<exists>w' s r. cmdCollect demo_system demo_args [] = (Some (Inr ()), w') \<and>
     cmdScan demo_system [''--snapshot'', ''snap.json''] w' =
       scan_output demo_system (scan_defaults\<lparr>sf_snapshot := ''snap.json''\<rparr>) s False r"
proof -
  obtain w' where run: "cmdCollect demo_system demo_args [] = (Some (Inr ()), w')" using demo_collects by blast
  from collected_file_scans[OF run demo_parse] run show ?thesis
    by (auto simp: demo_collect_flags_def demo_system_def demo_os_def)
qed

text \<open>Nothing that looks like a document is in the log.\<close>

definition no_document :: "demo_world \<Rightarrow> bool" where
  "no_document w \<longleftrightarrow> list_all (\<lambda>r. take 1 r \<noteq> ''{'') w"

lemma demo_system_keeps: "system_keeps no_document demo_system"
proof -
  have "lib_keeps no_document demo_lib"
    by (auto simp: lib_keeps_def admin_keeps_def keeps_def demo_lib_def demo_kadm_def serve_def no_document_def)
  then show ?thesis
    by (simp add: system_keeps_def demo_system_def demo_clock_def) (simp add: no_document_def)
qed

theorem collect_writes_one_text_witness:
  "\<exists>s u data. no_document u \<and>
     unmarshal_snapshot (Messages demo_system) (data @ newline) = Inr (clean_snapshot s) \<and>
     cmdCollect demo_system demo_args [] = (Some (Inr ()), u @ [data @ newline])"
proof -
  obtain r u where run: "live demo_system (lf_connect demo_collect_flags)
      (WithTimeout demo_system (collectTimeout (cf_sampleWindow (lf_connect demo_collect_flags))) []) = (r, u)"
    by (cases "live demo_system (lf_connect demo_collect_flags)
      (WithTimeout demo_system (collectTimeout (cf_sampleWindow (lf_connect demo_collect_flags))) [])")
  obtain w' where ok: "cmdCollect demo_system demo_args [] = (Some (Inr ()), w')" using demo_collects by blast
  have "no_document []" by (simp add: no_document_def)
  note c = collect_writes_one_text[OF demo_system_keeps this, of demo_args, unfolded demo_parse sum.case prod.case run]
  obtain s where s: "r = Inr s" using c ok by (cases r) auto
  obtain data where data: "unmarshal_snapshot (Messages demo_system) (data @ newline) = Inr (clean_snapshot s)"
    "cmdCollect demo_system demo_args [] = (Some (Inr ()), u @ [data @ newline])" "no_document u"
    using c ok unfolding s by (auto simp: demo_collect_flags_def demo_system_def split: if_splits)
  then show ?thesis by blast
qed

end
