(* ===== verification/Spec2Isabelle.thy ===== *)
theory Spec2Isabelle
  imports Samples WasteSpec CostProps LiveRules LiveFacts CommandFacts
begin

text \<open>
  brod is a command line program, written in Go, that looks for waste in a Kafka cluster. It
  reads metadata (from a snapshot file or, read-only, from a live cluster), runs eight rules
  over it and prints what could be saved, in euros; and it allocates a monthly bill to topics
  and teams. This development models the program from the arguments on the command line, the
  files and the admin client's replies to what is written and the exit status.

  \<^bold>\<open>The parts and how they interact.\<close> \<open>cmd/brod\<close> parses a command, gets a snapshot (\<open>readSnapshot\<close>,
  or \<open>connectAndCollect\<close> on a cluster), builds a cost model and prints a report.
  \<open>internal/kafka\<close> connects and wraps each request of the admin client; \<open>internal/collect\<close>
  calls these reads in order and maps their replies to a \<open>rules.Snapshot\<close>; \<open>internal/rules\<close>
  evaluates the rules on it with unit prices from \<open>internal/cost\<close>, which also holds the
  weighted allocation.

  \<^bold>\<open>Go.\<close> \<open>Prelude\<close>: 64-bit integers as words, strings as byte lists, list lemmas. \<open>Rounding\<close> and
  \<open>Float64\<close>: IEEE doubles as rationals, signed zeros, infinities and NaN, each operation the
  exact result rounded to nearest, ties to even. \<open>GoText\<close>: formatting (\<open>%d\<close>, \<open>%.nf\<close>, \<open>%q\<close>),
  runes, trimming, splitting, integer parsing. \<open>GoSort\<close>: \<open>sort.Slice\<close> and \<open>sort.SliceStable\<close>,
  with locales that show when the algorithm does not matter. \<open>GoRegexp\<close>: matching of regular
  expressions (classes, assertions, sequence, alternation, repetition) on bytes. \<open>GoMap\<close>: maps as entry lists in the order of a visit, and calls to the
  outside that return a value or an error. \<open>RelErr\<close>: a calculus of relative rounding errors.

  \<^bold>\<open>Prices and rules.\<close> \<open>Cost\<close> is \<open>cost.go\<close> (\<open>resolve\<close>, \<open>monthlyGB\<close>, \<open>allocate\<close>). \<open>RuleTypes\<close> is
  \<open>types.go\<close>, \<open>helpers.go\<close> and the rules' thresholds; a snapshot is a record, a finding a record,
  an optional value an option. \<open>RuleLoop\<close> has the loop all rules share and the locale of a rule;
  \<open>R1DeadTopic\<close> to \<open>R8Internal\<close> have one rule each (\<open>rN_body\<close> is the body of the loop of \<open>evalRN\<close>,
  with results skip, emit a finding, panic) and interpret that locale. \<open>Engine\<close> is \<open>engine.go\<close>
  (\<open>registry\<close>, \<open>evaluate\<close>, the ranking); None is a panic. The properties in this theory span
  the rules: when evaluation panics, the ranking, what every finding carries, no negative
  saving, savings within the storage bill, no resource twice. \<open>WasteSpec\<close> states what six rules
  are for over plain integers, rationals and names, and shows that the engine refines it;
  \<open>R6Names\<close> gives the meaning of R6's pattern; \<open>CostProps\<close> accounts for the allocated bill and
  the labels of the prices.

  \<^bold>\<open>From a cluster to a snapshot.\<close> \<open>Kafka\<close> is \<open>reads.go\<close>: one definition per read, on a record of
  the admin client's calls; \<open>KafkaFacts\<close> shows what each returns. \<open>Collect\<close> is \<open>collect.go\<close>:
  \<open>build\<close> runs the reads (\<open>read_all\<close>) and assembles the snapshot; \<open>CollectFacts\<close> treats the mapping
  helpers and the throughput estimate, \<open>BuildFacts\<close> the whole: the locale \<open>reader_laws\<close> is the
  interface \<open>build\<close> relies on, interpreted for the Kafka reader over any admin client. \<open>BuildTrace\<close>
  records every call of a run and shows which requests are made, in which order. \<open>LiveRules\<close>
  composes collection with the rules. \<open>Client\<close> is \<open>client.go\<close> and \<open>readonly.go\<close>, \<open>Live\<close> is \<open>live.go\<close>;
  \<open>LiveFacts\<close> treats redaction, the credential check, the banner and the closing of the
  connection.

  \<^bold>\<open>Reports.\<close> \<open>Report\<close> is \<open>report.go\<close> and the text half of \<open>cost.go\<close> in \<open>cmd/brod\<close>.
  \<open>ReportFacts\<close> shows that the findings appear in order, each with its row and its basis, and every
  team with its sums.

  \<^bold>\<open>JSON and times.\<close> \<open>GoFloatText\<close>: the shortest decimal text of a \<open>float64\<close> as \<open>encoding/json\<close>
  writes it, and \<open>strconv.ParseFloat\<close>; \<open>FloatTextFacts\<close> shows that parsing gives the number back.
  \<open>GoTime\<close>: instants with a zone, RFC 3339 and durations; \<open>TimeFacts\<close> has its round trip. \<open>GoJson\<close>:
  the printer and the parser of \<open>encoding/json\<close>; \<open>JsonFacts\<close> shows that what is printed parses back
  with any fuel from the length of the text on, and that quoting keeps valid UTF-8.
  \<open>SnapshotJson\<close> is the \<open>json\<close> tags of \<open>types.go\<close>, for writing and for reading (folded keys, null,
  mismatches, unreadable times); \<open>SnapshotFacts\<close> shows that a snapshot comes back up to invalid
  UTF-8 (\<open>clean_snapshot\<close>).

  \<^bold>\<open>Commands.\<close> \<open>GoFlag\<close> is the \<open>flag\<close> package as the commands use it. \<open>Cli\<close> has the sources of a
  snapshot and the usage text. \<open>Commands\<close> is \<open>main.go\<close> and the rest of \<open>cost.go\<close> and \<open>live.go\<close>: the
  flags, \<open>cmdScan\<close>, \<open>cmdCost\<close>, \<open>cmdCollect\<close>, \<open>cmdSample\<close> and \<open>main\<close> on a record of what the process
  can call (\<open>system\<close>); None is a panic. \<open>ReportJson\<close> reads the JSON reports back; \<open>CommandFacts\<close>
  has the properties of whole commands: bad arguments, operands, exit status, the one write of \<open>collect\<close>,
  collect and then scan, the sampling window within the time-out.

  \<open>DemoData\<close> and \<open>Samples\<close> hold the repository's demo snapshot and its findings, \<open>DemoCluster\<close> a
  small cluster; the witnesses of the properties are about these two.

  \<^bold>\<open>State and bounds.\<close> The world outside is a type variable; a call maps a world to a result and
  a new world, so what the code does to it, and in which order, is explicit. Only the JSON
  parser has fuel, twice the length of the text plus two, which \<open>parse_json_any_fuel\<close> shows to be
  enough: more gives the same. Other loops over lists are structural, and the few others
  (digits, runes, trimming, replacing, unquoting, durations) have termination proofs. Bounds in hypotheses are those of the machine: slices
  shorter than \<open>2 ^ 63\<close>, sums of sizes and records within 63 bits; the accuracy results state
  theirs. Floating point is that of amd64: no fused multiply-add, and a conversion to an
  integer out of range gives the least one. \<open>%q\<close> is exact for printable runes. The order in
  which Go visits a map is the order of the entry list, so results that depend on it show.

  \<^bold>\<open>Parameters.\<close> franz-go and kadm (requests, replies, building and closing the client), the
  clocks and timers, the environment, the file system, standard input, output and error, the
  compiler of regular expressions, the bytes of the embedded file, the wording of two errors of
  \<open>encoding/json\<close> (a text that is no JSON, an unreadable time).

  \<^bold>\<open>Not modelled.\<close> The syntax of regular expressions given with \<open>--team\<close>: the compiler gives a
  pattern of \<open>GoRegexp\<close>, into which every pattern of Go can be translated for subjects that are valid
  UTF-8, and the matching of these is modelled; the order \<open>sort.Slice\<close> gives to equal rows of a cost
  report (the stable one is taken); that
  library calls give up at the deadline of the context, which is part of what they answer; a
  write to standard output that fails half way through a text report, whose error the program
  ignores; the trace of a panic; \<open>kafka/doc.go\<close>, a comment, and the tests.
\<close>

section \<open>The engine\<close>

text \<open>C5: Evaluating a history panics exactly when R7 is enabled, its partition threshold
  is not positive, and the latest snapshot has a large enough topic without partition sizes
  (then \<open>sizes[len(sizes)-1]\<close> is out of range). In particular it never panics with the default
  configuration, whatever the snapshot and the cost model.\<close>

theorem evaluate_panics_iff:
  "evaluate h cm c = None \<longleftrightarrow>
     (\<exists>s. latest h = Some s \<and> Disabled c ''R7'' \<noteq> Some True \<and> sint (R7_MinPartitions (R7 c)) \<le> 0 \<and>
        (\<exists>t \<in> set (Topics s). PartitionBytes t = [] \<and> R7_MinTopicBytes (R7 c) \<le>s RetainedBytes t))"
proof (cases "latest h")
  case (Some s)
  let ?ctx = "eval_context s cm c"
  have "evaluate h cm c = None \<longleftrightarrow> run_rules ?ctx False registry = None"
    by (simp add: evaluate_latest_run Some)
  also have "\<dots> \<longleftrightarrow> \<not> disabled c ''R7'' \<and> evalR7 ?ctx = None"
    by (simp only: run_registry_None eval_context_simps)
  also have "\<dots> \<longleftrightarrow> \<not> disabled c ''R7'' \<and> (\<exists>t \<in> set (Topics s). r7_body ?ctx t = Panic)"
    by (simp add: evalR7_def walk_panic)
  finally show ?thesis by (auto simp: Some disabled_def r7_panic_iff)
qed (simp add: evaluate_latest_run)

text \<open>C18: The findings come back ranked: they are the findings of the enabled rules, in an
  order where an earlier finding saves more, or the same with a rule id that is not larger;
  and findings with the same saving and rule id stay in the order the rules produced them.\<close>

theorem evaluate_ranked:
  assumes "evaluate (hs @ [s]) cm c = Some fs" "\<forall>f \<in> set fs. EstSavingEUR f \<noteq> NaN"
  shows "\<exists>gs. run_rules (eval_context s cm c) False registry = Some gs \<and> mset fs = mset gs \<and>
           sorted_wrt (\<lambda>a b. EstSavingEUR b < EstSavingEUR a \<or>
             feq (EstSavingEUR a) (EstSavingEUR b) \<and> RuleID a \<le> RuleID b) fs \<and>
           (\<forall>a \<in> set gs.
             filter (\<lambda>b. feq (EstSavingEUR a) (EstSavingEUR b) \<and> RuleID a = RuleID b) fs =
             filter (\<lambda>b. feq (EstSavingEUR a) (EstSavingEUR b) \<and> RuleID a = RuleID b) gs)"
proof -
  obtain gs where run: "run_rules (eval_context s cm c) False registry = Some gs"
    and fs: "fs = slice_stable finding_less gs"
    using assms(1) by (auto simp: evaluate_latest_run)
  have A: "set gs \<subseteq> {f. EstSavingEUR f \<noteq> NaN}" using assms(2) fs by auto
  have "sorted_wrt (\<lambda>a b. \<not> finding_less b a) fs"
    using ranking.slice_stable_sorted[OF A] by (simp add: fs sorted_by_def)
  then have "sorted_wrt (\<lambda>a b. EstSavingEUR b < EstSavingEUR a \<or>
      feq (EstSavingEUR a) (EstSavingEUR b) \<and> RuleID a \<le> RuleID b) fs"
    by (rule sorted_wrt_mono_rel[rotated])
      (use assms(2) not_finding_less in auto)
  moreover have "filter (\<lambda>b. feq (EstSavingEUR a) (EstSavingEUR b) \<and> RuleID a = RuleID b) fs =
      filter (\<lambda>b. feq (EstSavingEUR a) (EstSavingEUR b) \<and> RuleID a = RuleID b) gs"
    if a: "a \<in> set gs" for a
  proof -
    have st: "filter (ranking.equiv_to a) fs = filter (ranking.equiv_to a) gs"
      unfolding fs using A a by (intro ranking.slice_stable_stable) auto
    have "filter (ranking.equiv_to a) zs =
        filter (\<lambda>b. feq (EstSavingEUR a) (EstSavingEUR b) \<and> RuleID a = RuleID b) zs"
      if "set zs = set gs" for zs
      using A a that by (intro filter_all_eq ranking_equiv) auto
    from this[of fs] this[of gs] st fs show ?thesis by simp
  qed
  ultimately show ?thesis using run fs by auto
qed

theorem evaluate_ranked_witness:
  "mset (slice_stable finding_less demo_findings) = mset demo_findings \<and>
   sorted_wrt (\<lambda>a b. EstSavingEUR b < EstSavingEUR a \<or>
     feq (EstSavingEUR a) (EstSavingEUR b) \<and> RuleID a \<le> RuleID b) (slice_stable finding_less demo_findings)"
  using evaluate_ranked[of "[]" sample_snapshot demo_model "defaultConfig zero_time"] demo_evaluate demo_saving(2)
  by auto

text \<open>C19: What holds of every finding: its basis is not empty; a finding of severity
  \<open>plan\<close> is never one-click; its rule is one of the eight and is not disabled; and its
  resource key is the rule id, a colon and the name of a topic or group of the latest
  snapshot.\<close>

theorem evaluate_contract:
  assumes "evaluate h cm c = Some fs" "f \<in> set fs"
  shows "Basis f \<noteq> '''' \<and>
    (Severity f = SeverityPlan \<longrightarrow> \<not> OneClick (Remediation f)) \<and>
    RuleID f \<in> set [''R1'', ''R2'', ''R3'', ''R4'', ''R5'', ''R6'', ''R7'', ''R8''] \<and>
    Disabled c (RuleID f) \<noteq> Some True \<and>
    (\<exists>s n. latest h = Some s \<and> n \<in> Name ` set (Topics s) \<union> GroupID ` set (Groups s) \<and>
       ResourceKey f = RuleID f @ '':'' @ n)"
proof -
  obtain s r gs where o: "latest h = Some s" "r \<in> set registry" "\<not> disabled c (rule_ident r)"
    "rule_eval r (eval_context s cm c) = Some gs" "f \<in> set gs"
    using evaluate_origin[OF assms] by metis
  note er = registry_rules[OF o(2)]
  note facts = engine_rule.ev_id[OF er o(4,5)] engine_rule.ev_basis[OF er o(4,5)]
    engine_rule.ev_plan[OF er o(4,5)] engine_rule.ev_key[OF er o(4,5)]
  have "rule_ident r \<in> set (map rule_ident registry)" using o(2) by simp
  then have "RuleID f \<in> set [''R1'', ''R2'', ''R3'', ''R4'', ''R5'', ''R6'', ''R7'', ''R8'']"
    by (simp only: registry_idents facts(1))
  with facts o(1,3) show ?thesis
    by (auto simp: disabled_def resource_key_def known_names_def)
qed

theorem evaluate_contract_witness:
  "Basis (r1_finding demo_ctx legacy_dump) \<noteq> '''' \<and>
   Disabled (defaultConfig zero_time) (RuleID (r1_finding demo_ctx legacy_dump)) \<noteq> Some True"
  using evaluate_contract[OF demo_evaluate, of "r1_finding demo_ctx legacy_dump"]
  by (simp add: demo_findings_def)

text \<open>C6: Never a negative or undefined euro figure: with the default thresholds, a cost model
  of the form the command line builds (default weights, finite prices) and a snapshot whose
  sizes and rates are finite and not negative, every estimated saving is a number that is not
  negative, and so is the total the report prints.\<close>

theorem evaluate_savings_nonneg:
  assumes "evaluate h cm c = Some fs" "default_thresholds c" "model_ok cm"
    "\<forall>s. latest h = Some s \<longrightarrow> list_all topic_ok (Topics s)"
  shows "(\<forall>f \<in> set fs. 0 \<le> EstSavingEUR f \<and> EstSavingEUR f \<noteq> NaN) \<and> 0 \<le> totalSavingsEUR fs"
proof -
  have pos: "0 \<le> EstSavingEUR f" if f: "f \<in> set fs" for f
  proof -
    obtain s r gs where o: "latest h = Some s" "r \<in> set registry"
      "rule_eval r (eval_context s cm c) = Some gs" "f \<in> set gs"
      using evaluate_origin[OF assms(1) f] by metis
    have "ctx_ok (eval_context s cm c)"
      using assms(2,4) resolve_prices_ok[OF assms(3)] o(1) by (simp add: ctx_ok_def)
    then show ?thesis using engine_rule.ev_saving[OF registry_rules[OF o(2)] _ o(3,4)] by simp
  qed
  then show ?thesis using totalSavings_nonneg nonneg_not_nan by auto
qed

theorem evaluate_savings_nonneg_witness:
  "list_all (\<lambda>f. 0 \<le> EstSavingEUR f) demo_findings \<and>
   0 \<le> totalSavingsEUR (slice_stable finding_less demo_findings)"
  using evaluate_savings_nonneg[OF demo_evaluate default_thresholds_default demo_model_ok]
    demo_topics_ok by (simp add: list_all_iff)

text \<open>C38: No resource is billed twice by a rule: when topic names and group ids are different,
  the resource keys of the findings are all different.\<close>

theorem evaluate_keys_distinct:
  assumes "evaluate (hs @ [s]) cm c = Some fs"
    "distinct (map Name (Topics s))" "distinct (map GroupID (Groups s))"
  shows "distinct (map ResourceKey fs)"
proof -
  obtain gs where run: "run_rules (eval_context s cm c) False registry = Some gs"
    and fs: "fs = slice_stable finding_less gs"
    using assms(1) by (auto simp: evaluate_latest_run)
  have "distinct (map ResourceKey gs)"
    using run assms(2,3) registry_rules
    by (intro run_rules_distinct[where rs = registry])
      (auto simp: distinct_resources_def registry_lengths registry_idents)
  moreover have "mset (map ResourceKey fs) = mset (map ResourceKey gs)" by (simp add: fs)
  ultimately show ?thesis using mset_eq_imp_distinct_iff by metis
qed

theorem evaluate_keys_distinct_witness:
  "distinct (map ResourceKey (slice_stable finding_less demo_findings))"
  using evaluate_keys_distinct[of "[]" sample_snapshot demo_model "defaultConfig zero_time"] demo_evaluate
  by simp


text \<open>C7: On a snapshot whose topics have a finite inbound rate and retained bytes, both \<open>\<ge> 0\<close>,
  with the default thresholds and a cost model with finite prices, a finite monthly cost of at
  most \<open>2 ^ 900\<close> and the default weights (what the command line builds but for an absurd
  \<open>--cost\<close>), the saving of a finding of R1, R3, R6 or R8 is at most the storage bill of the topic
  it names: retained gigabytes at the resolved storage price, rounded to cents like the saving. A
  snapshot file with a negative rate is outside: R3 computes with it as it is.\<close>

theorem storage_savings_bounded:
  assumes "evaluate (hs @ [s]) cm c = Some fs" "default_thresholds c" "model_ok cm"
    "list_all topic_ok (Topics s)" "f \<in> set fs" "RuleID f \<in> {''R1'', ''R3'', ''R6'', ''R8''}"
  shows "\<exists>t \<in> set (Topics s). ResourceKey f = RuleID f @ '':'' @ Name t \<and>
           EstSavingEUR f \<le> round2 (gb (RetainedBytes t) *
             StorageEURPerGBMo (resolve cm (total_retained (Topics s))))"
proof -
  let ?ctx = "eval_context s cm c"
  have ok: "ctx_ok ?ctx" using assms(2,4) resolve_prices_ok[OF assms(3)] by (simp add: ctx_ok_def)
  obtain s' r gs where o: "latest (hs @ [s]) = Some s'" "r \<in> set registry" "rule_eval r (eval_context s' cm c) = Some gs"
    "f \<in> set gs" using evaluate_origin[OF assms(1,5)] by metis
  have id: "RuleID f = rule_ident r" using engine_rule.ev_id[OF registry_rules[OF o(2)] o(3,4)] .
  have "rule_eval r \<in> {evalR1, evalR3, evalR6, evalR8}"
    using o(2) assms(6) unfolding id registry_def by auto
  moreover have "s' = s" using o(1) by simp
  ultimately have "walk (r1_body ?ctx) (Topics s) = Some gs \<or> walk (r3_body ?ctx) (Topics s) = Some gs \<or>
      walk (r6_body ?ctx) (Topics s) = Some gs \<or> walk (r8_body ?ctx) (Topics s) = Some gs"
    using o(3) by (elim insertE emptyE) (simp_all add: eval_defs)
  then obtain b where b: "b \<in> {r1_body ?ctx, r3_body ?ctx, r6_body ?ctx, r8_body ?ctx}" "walk b (Topics s) = Some gs"
    by blast
  then obtain t where t: "t \<in> set (Topics s)" "b t = Emit f" using walk_set[OF b(2), of f] o(4) by auto
  have "0 \<le> sint (RetainedBytes t)" using assms(4) t(1) by (auto simp: list_all_iff topic_ok_def)
  then have "EstSavingEUR f \<le> storage_bill (prices ?ctx) t"
    using b(1) t(2) r1_bounded[OF ok, of t f] r3_bounded[OF ok, of t f] r6_bounded[OF ok, of t f] r8_bounded[OF ok, of t f]
    by (elim insertE emptyE) simp_all
  moreover have "ResourceKey f = resource_key (RuleID f) (Name t)"
    using b(1) t(2) r1.rule_key[of ?ctx t f] r3.rule_key[of ?ctx t f] r6.rule_key[of ?ctx t f] r8.rule_key[of ?ctx t f]
      r1.rule_id[of ?ctx t f] r3.rule_id[of ?ctx t f] r6.rule_id[of ?ctx t f] r8.rule_id[of ?ctx t f]
    by (elim insertE emptyE) simp_all
  ultimately show ?thesis using t(1) by (auto simp: storage_bill_def resource_key_def)
qed

theorem storage_savings_bounded_witness:
  "\<exists>t \<in> set (Topics sample_snapshot). EstSavingEUR (r3_finding demo_ctx clicks 86400000) \<le>
     round2 (gb (RetainedBytes t) * StorageEURPerGBMo (resolve demo_model (total_retained (Topics sample_snapshot))))"
  using storage_savings_bounded[of "[]" sample_snapshot demo_model "defaultConfig zero_time" _ "r3_finding demo_ctx clicks 86400000"]
    demo_evaluate demo_model_ok demo_topics_ok
  by (auto simp: demo_findings_def finding_shape)

text \<open>C39: The same orphaned topic is never billed twice: when R8 uses the Kafka Streams suffixes,
  no topic name is reported both as dead (R1) and as an orphaned internal topic (R8).\<close>

theorem r1_r8_disjoint:
  assumes "evaluate h cm c = Some fs" "R8_Suffixes (R8 c) = streamsInternalSuffixes"
  shows "{n. ''R1:'' @ n \<in> ResourceKey ` set fs} \<inter> {n. ''R8:'' @ n \<in> ResourceKey ` set fs} = {}"
proof -
  have "n \<noteq> m" if fg: "f \<in> set fs" "g \<in> set fs" "ResourceKey f = ''R1:'' @ n" "ResourceKey g = ''R8:'' @ m" for f g n m
  proof -
    let ?r1 = "\<lparr>rule_ident = ''R1'', staticCapable = True, rule_eval = evalR1\<rparr>"
    let ?r8 = "\<lparr>rule_ident = ''R8'', staticCapable = True, rule_eval = evalR8\<rparr>"
    have reg: "?r1 \<in> set registry" "?r8 \<in> set registry" by (simp_all add: registry_def)
    have id: "RuleID f = ''R1''" "RuleID g = ''R8''"
      using key_ident[OF assms(1) fg(1), of "''R1''" n] key_ident[OF assms(1) fg(2), of "''R8''" m] fg(3,4) by simp_all
    obtain s gs where s: "latest h = Some s" "evalR1 (eval_context s cm c) = Some gs" "f \<in> set gs"
      using evaluate_by_rule[OF assms(1) fg(1) reg(1)] id(1) by (metis rule.select_convs(1,3))
    obtain hs where hs: "evalR8 (eval_context s cm c) = Some hs" "g \<in> set hs"
      using evaluate_by_rule[OF assms(1) fg(2) reg(2)] id(2) s(1) by (metis rule.select_convs(1,3) option.inject)
    obtain t where t: "r1_body (eval_context s cm c) t = Emit f"
      using s(2,3) walk_set[of "r1_body (eval_context s cm c)"] by (auto simp: evalR1_def)
    obtain u where u: "r8_body (eval_context s cm c) u = Emit g"
      using hs walk_set[of "r8_body (eval_context s cm c)"] by (auto simp: evalR8_def)
    have "\<not> isStreamsInternal n" using t fg(3) r1.rule_key[OF t] by (auto simp: r1_emit resource_key_def)
    moreover have "isStreamsInternal m"
      using u assms(2) fg(4) r8.rule_key[OF u] by (auto simp: r8_emit resource_key_def isStreamsInternal_def)
    ultimately show ?thesis by auto
  qed
  note different = this
  show ?thesis
  proof (rule equals0I)
    fix n
    assume "n \<in> {n. ''R1:'' @ n \<in> ResourceKey ` set fs} \<inter> {n. ''R8:'' @ n \<in> ResourceKey ` set fs}"
    then obtain f g where "f \<in> set fs" "''R1:'' @ n = ResourceKey f" "g \<in> set fs" "''R8:'' @ n = ResourceKey g"
      by (elim IntE CollectE imageE)
    then show False using different[of f g n n] by metis
  qed
qed

theorem r1_r8_disjoint_witness:
  "{n. ''R1:'' @ n \<in> ResourceKey ` set demo_findings} \<inter> {n. ''R8:'' @ n \<in> ResourceKey ` set demo_findings} = {}"
  using r1_r8_disjoint[OF demo_evaluate] by (simp add: defaultR8_def)

end
